theory Spec2Isabelle
  imports Complex_Main "HOL-Library.AList"
begin

section \<open>Python and pandas values\<close>

text \<open>
  The exceptions the library raises. \<open>TimeIndexError\<close> and \<open>TimeIndexMismatchError\<close> are
  imported by \<^verbatim>\<open>returns.py\<close> from \<^verbatim>\<open>perfana.exceptions\<close>; the mismatch error is
  constructed from the two conflicting frequencies.
\<close>

datatype error =
    ValueError
  | TypeError
  | ZeroDivisionError
  | TimeIndexError
  | TimeIndexMismatchError string string

text \<open>
  A float is a real number or one of the three special values of IEEE arithmetic.
  Rounding, overflow and the sign of zero are not represented: \<open>Fin x\<close> stands for the
  float nearest to \<open>x\<close>. A missing observation is \<open>NaN\<close>, as in pandas.
\<close>

datatype pyfloat = Fin real | PInf | NInf | NaN

text \<open>A column label (or the name of a Series) is an integer or a string.\<close>

datatype label = IntL int | StrL string

text \<open>A timestamp is the number of nanoseconds since the epoch, as pandas stores it.\<close>

type_synonym timestamp = int

text \<open>
  A Series has an optional name and one observation per index entry. A DataFrame has one
  index and named columns, each holding one observation per entry of the index. The index
  of a time series holds timestamps.
\<close>

datatype 'i pandas =
    Series "label option" "('i \<times> pyfloat) list"
  | DataFrame "'i list" "(label \<times> pyfloat list) list"

type_synonym tsdata = "timestamp pandas"

fun index_of :: "'i pandas \<Rightarrow> 'i list" where
  "index_of (Series nm rows) = map fst rows"
| "index_of (DataFrame idx cols) = idx"

text \<open>\<^verbatim>\<open>len(data)\<close>: the number of rows.\<close>

definition len :: "'i pandas \<Rightarrow> nat" where
  "len data = length (index_of data)"

text \<open>\<^verbatim>\<open>str.lower\<close> on the ASCII letters.\<close>

definition lower_char :: "char \<Rightarrow> char" where
  "lower_char c =
     (let n = (of_char c :: nat) in if 65 \<le> n \<and> n \<le> 90 then char_of (n + 32) else c)"

definition lower :: "string \<Rightarrow> string" where
  "lower s = map lower_char s"

section \<open>\<^verbatim>\<open>perfana/core/utils.py\<close>\<close>

subsection \<open>\<^verbatim>\<open>freq_to_scale\<close>\<close>

text \<open>\<^verbatim>\<open>str(freq)\<close> of an optional string: \<^verbatim>\<open>str(None)\<close> is \<^verbatim>\<open>'None'\<close>.\<close>

definition py_str :: "string option \<Rightarrow> string" where
  "py_str freq = (case freq of None \<Rightarrow> ''None'' | Some s \<Rightarrow> s)"

definition freq_to_scale :: "string option \<Rightarrow> error + nat" where
  "freq_to_scale freq =
     (let freq = lower (py_str freq) in
      if freq \<in> set [''d'', ''day'', ''daily''] then Inr 252
      else if freq \<in> set [''w'', ''week'', ''weekly''] then Inr 52
      else if freq \<in> set [''m'', ''month'', ''monthly''] then Inr 12
      else if freq \<in> set [''s'', ''semi-annual'', ''semi-annually''] then Inr 6
      else if freq \<in> set [''q'', ''quarter'', ''quarterly''] then Inr 4
      else if freq \<in> set [''y'', ''year'', ''yearly'', ''annual''] then Inr 1
      else Inl ValueError)"

subsection \<open>\<^verbatim>\<open>infer_frequency\<close>\<close>

definition ns_per_day :: int where
  "ns_per_day = 86400000000000"

text \<open>The Timedelta that the key \<^verbatim>\<open>f'{day} days'\<close> denotes.\<close>

definition days :: "nat \<Rightarrow> int" where
  "days day = int day * ns_per_day"

text \<open>\<^verbatim>\<open>data.index[1:] - data.index[:-1]\<close>\<close>

definition index_diff :: "timestamp list \<Rightarrow> int list" where
  "index_diff idx = map2 (\<lambda>a b. a - b) (tl idx) (butlast idx)"

text \<open>\<^verbatim>\<open>value_counts()\<close>: each distinct gap with the number of times it occurs.\<close>

definition value_counts :: "int list \<Rightarrow> (int \<rightharpoonup> nat)" where
  "value_counts xs = (\<lambda>g. if g \<in> set xs then Some (count_list xs g) else None)"

text \<open>\<^verbatim>\<open>time_delta.get(key, default)\<close>\<close>

definition td_get :: "(int \<rightharpoonup> nat) \<Rightarrow> int \<Rightarrow> nat \<Rightarrow> nat" where
  "td_get time_delta k d = (case time_delta k of None \<Rightarrow> d | Some v \<Rightarrow> v)"

text \<open>The dictionary \<^verbatim>\<open>delta\<close>, in insertion order.\<close>

definition delta :: "(int \<rightharpoonup> nat) \<Rightarrow> (string \<times> nat) list" where
  "delta time_delta =
     [(''daily'', sum_list (map (\<lambda>day. td_get time_delta (days day) 0) [1..<6])),
      (''weekly'', td_get time_delta (days 7) 0),
      (''monthly'', sum_list (map (\<lambda>day. td_get time_delta (days day) 0) [28, 29, 30, 31])),
      (''quarterly'', sum_list (map (\<lambda>day. td_get time_delta (days day) 0) [89..<93])),
      (''semi-annually'', sum_list (map (\<lambda>day. td_get time_delta (days day) 0) [180..<185])),
      (''yearly'', sum_list (map (\<lambda>day. td_get time_delta (days day) 0) [360..<367]))]"

text \<open>
  \<^verbatim>\<open>max(delta, key=lambda k: delta[k])\<close>: Python's \<^verbatim>\<open>max\<close> keeps the first of the
  maximal elements (a later one replaces the best so far only when strictly greater)
  and raises \<^verbatim>\<open>ValueError\<close> on an empty iterable.
\<close>

fun max_key_from :: "string \<times> nat \<Rightarrow> (string \<times> nat) list \<Rightarrow> string \<times> nat" where
  "max_key_from best [] = best"
| "max_key_from best (kv # rest) =
     (if snd best < snd kv then max_key_from kv rest else max_key_from best rest)"

definition max_key :: "(string \<times> nat) list \<Rightarrow> error + string" where
  "max_key d = (case d of [] \<Rightarrow> Inl ValueError | kv # rest \<Rightarrow> Inr (fst (max_key_from kv rest)))"

text \<open>
  The loop \<^verbatim>\<open>for freq, count in delta.items(): if count > 0.85 * n: return freq\<close>.
  The product is taken in the reals; for the integer \<open>n\<close> of any index that fits in
  memory the float product compares with the integer \<open>count\<close> in the same way.
\<close>

fun first_over :: "(string \<times> nat) list \<Rightarrow> nat \<Rightarrow> string option" where
  "first_over [] n = None"
| "first_over ((freq, count) # rest) n =
     (if 0.85 * real n < real count then Some freq else first_over rest n)"

definition infer_frequency :: "tsdata \<Rightarrow> string \<Rightarrow> error + string option" where
  "infer_frequency data fail_policy =
     (let fail_policy = lower fail_policy in
      if fail_policy \<notin> set [''ignore'', ''raise''] then Inl ValueError
      else
        let n = len data;
            time_delta = value_counts (index_diff (index_of data));
            d = delta time_delta
        in if n < 30 then (case max_key d of Inl e \<Rightarrow> Inl e | Inr k \<Rightarrow> Inr (Some k))
           else (case first_over d n of
                   Some freq \<Rightarrow> Inr (Some freq)
                 | None \<Rightarrow> if fail_policy = ''raise'' then Inl TypeError else Inr None))"

subsection \<open>The classifier as the specification words it\<close>

definition periodicities :: "string list" where
  "periodicities =
     [''daily'', ''weekly'', ''monthly'', ''quarterly'', ''semi-annually'', ''yearly'']"

text \<open>The day-count membership set of a periodicity.\<close>

definition day_set :: "string \<Rightarrow> nat set" where
  "day_set p =
     (if p = ''daily'' then {1..5}
      else if p = ''weekly'' then {7}
      else if p = ''monthly'' then {28..31}
      else if p = ''quarterly'' then {89..92}
      else if p = ''semi-annually'' then {180..184}
      else if p = ''yearly'' then {360..366}
      else {})"

text \<open>The vote total of a periodicity: the consecutive gaps whose day count is in its set.\<close>

definition gap_votes :: "timestamp list \<Rightarrow> string \<Rightarrow> nat" where
  "gap_votes idx p = length (filter (\<lambda>g. \<exists>k\<in>day_set p. g = days k) (index_diff idx))"

section \<open>Float arithmetic\<close>

text \<open>
  The operations of \<^verbatim>\<open>numpy.float64\<close> that the library uses, on the special values as
  IEEE 754 defines them. A zero divisor counts as \<open>+0\<close>.
\<close>

definition inf_of_sign :: "real \<Rightarrow> pyfloat" where
  "inf_of_sign s = (if 0 < s then PInf else if s < 0 then NInf else NaN)"

fun fl_sign :: "pyfloat \<Rightarrow> real" where
  "fl_sign (Fin x) = sgn x"
| "fl_sign PInf = 1"
| "fl_sign NInf = - 1"
| "fl_sign NaN = 0"

fun fl_neg :: "pyfloat \<Rightarrow> pyfloat" where
  "fl_neg (Fin x) = Fin (- x)"
| "fl_neg PInf = NInf"
| "fl_neg NInf = PInf"
| "fl_neg NaN = NaN"

fun fl_add :: "pyfloat \<Rightarrow> pyfloat \<Rightarrow> pyfloat" where
  "fl_add (Fin x) (Fin y) = Fin (x + y)"
| "fl_add NaN b = NaN"
| "fl_add a NaN = NaN"
| "fl_add PInf NInf = NaN"
| "fl_add NInf PInf = NaN"
| "fl_add PInf b = PInf"
| "fl_add NInf b = NInf"
| "fl_add a PInf = PInf"
| "fl_add a NInf = NInf"

definition fl_sub :: "pyfloat \<Rightarrow> pyfloat \<Rightarrow> pyfloat" where
  "fl_sub a b = fl_add a (fl_neg b)"

fun fl_mul :: "pyfloat \<Rightarrow> pyfloat \<Rightarrow> pyfloat" where
  "fl_mul (Fin x) (Fin y) = Fin (x * y)"
| "fl_mul NaN b = NaN"
| "fl_mul a NaN = NaN"
| "fl_mul a b = inf_of_sign (fl_sign a * fl_sign b)"

fun fl_div :: "pyfloat \<Rightarrow> pyfloat \<Rightarrow> pyfloat" where
  "fl_div (Fin x) (Fin y) = (if y = 0 then inf_of_sign x else Fin (x / y))"
| "fl_div NaN b = NaN"
| "fl_div a NaN = NaN"
| "fl_div (Fin x) b = Fin 0"
| "fl_div a (Fin y) = inf_of_sign (fl_sign a * (if y < 0 then - 1 else 1))"
| "fl_div a b = NaN"

definition is_integer :: "real \<Rightarrow> bool" where
  "is_integer y = (y = of_int \<lfloor>y\<rfloor>)"

text \<open>
  \<^verbatim>\<open>base ** y\<close> for a float exponent \<open>y\<close>: a negative base has a real power only for an
  integer exponent.
\<close>

definition fl_pow :: "pyfloat \<Rightarrow> real \<Rightarrow> pyfloat" where
  "fl_pow base y =
     (if y = 0 then Fin 1
      else case base of
        NaN \<Rightarrow> NaN
      | Fin x \<Rightarrow>
          if 0 < x then Fin (x powr y)
          else if x = 0 then (if 0 < y then Fin 0 else PInf)
          else if is_integer y then Fin (x powi \<lfloor>y\<rfloor>)
          else NaN
      | PInf \<Rightarrow> if 0 < y then PInf else Fin 0
      | NInf \<Rightarrow>
          if 0 < y then (if is_integer y \<and> odd \<lfloor>y\<rfloor> then NInf else PInf) else Fin 0)"

section \<open>pandas operations\<close>

definition notna :: "pyfloat \<Rightarrow> bool" where
  "notna v = (v \<noteq> NaN)"

text \<open>Boolean indexing: the entries at the positions where the keep holds.\<close>

definition select :: "bool list \<Rightarrow> 'a list \<Rightarrow> 'a list" where
  "select keep xs = map snd (filter fst (zip keep xs))"

text \<open>The rows of a DataFrame in which no column is missing.\<close>

definition complete_rows :: "'i list \<Rightarrow> (label \<times> pyfloat list) list \<Rightarrow> bool list" where
  "complete_rows idx cols =
     foldr (\<lambda>(c, vs) keep. map2 (\<lambda>v m. notna v \<and> m) vs keep) cols (replicate (length idx) True)"

text \<open>\<^verbatim>\<open>dropna()\<close>: a Series loses its missing entries, a DataFrame every row with one.\<close>

fun dropna :: "'i pandas \<Rightarrow> 'i pandas" where
  "dropna (Series nm rows) = Series nm (filter (\<lambda>(t, v). notna v) rows)"
| "dropna (DataFrame idx cols) =
     (let keep = complete_rows idx cols
      in DataFrame (select keep idx) (map (\<lambda>(c, vs). (c, select keep vs)) cols))"

text \<open>\<^verbatim>\<open>r + x\<close> for a scalar \<open>x\<close>.\<close>

fun add_scalar :: "'i pandas \<Rightarrow> pyfloat \<Rightarrow> 'i pandas" where
  "add_scalar (Series nm rows) x = Series nm (map (\<lambda>(t, v). (t, fl_add v x)) rows)"
| "add_scalar (DataFrame idx cols) x =
     DataFrame idx (map (\<lambda>(c, vs). (c, map (\<lambda>v. fl_add v x) vs)) cols)"

text \<open>
  A reduction of a Series is a scalar, a reduction of a DataFrame one scalar per column.
\<close>

datatype annres = Scalar pyfloat | PerColumn "(label \<times> pyfloat) list"

fun reduce :: "(pyfloat list \<Rightarrow> pyfloat) \<Rightarrow> 'i pandas \<Rightarrow> annres" where
  "reduce f (Series nm rows) = Scalar (f (map snd rows))"
| "reduce f (DataFrame idx cols) = PerColumn (map (\<lambda>(c, vs). (c, f vs)) cols)"

text \<open>\<^verbatim>\<open>prod()\<close> and \<^verbatim>\<open>mean()\<close> skip missing entries; the mean of nothing is \<open>NaN\<close>.\<close>

definition prod_list_py :: "pyfloat list \<Rightarrow> pyfloat" where
  "prod_list_py vs = foldl fl_mul (Fin 1) (filter notna vs)"

definition mean_list_py :: "pyfloat list \<Rightarrow> pyfloat" where
  "mean_list_py vs =
     fl_div (foldl fl_add (Fin 0) (filter notna vs)) (Fin (real (length (filter notna vs))))"

definition prod_py :: "'i pandas \<Rightarrow> annres" where
  "prod_py r = reduce prod_list_py r"

definition mean_py :: "'i pandas \<Rightarrow> annres" where
  "mean_py r = reduce mean_list_py r"

text \<open>An operation with a scalar, applied to a scalar or to each column's scalar.\<close>

fun ann_map :: "(pyfloat \<Rightarrow> pyfloat) \<Rightarrow> annres \<Rightarrow> annres" where
  "ann_map f (Scalar a) = Scalar (f a)"
| "ann_map f (PerColumn as) = PerColumn (map (\<lambda>(c, a). (c, f a)) as)"

text \<open>The entry of a Series at an index value, \<open>NaN\<close> where it has none: reindexing.\<close>

definition value_at :: "('i \<times> pyfloat) list \<Rightarrow> 'i \<Rightarrow> pyfloat" where
  "value_at rows t = (case map_of rows t of None \<Rightarrow> NaN | Some v \<Rightarrow> v)"

text \<open>
  Python's \<^verbatim>\<open><\<close> on two labels: integers by value, strings by code point; an integer
  and a string cannot be compared.
\<close>

fun str_less :: "string \<Rightarrow> string \<Rightarrow> bool" where
  "str_less [] [] = False"
| "str_less [] (y # ys) = True"
| "str_less (x # xs) [] = False"
| "str_less (x # xs) (y # ys) = ((of_char x :: nat) < of_char y \<or> (x = y \<and> str_less xs ys))"

fun label_less :: "label \<Rightarrow> label \<Rightarrow> bool" where
  "label_less (IntL i) (IntL j) = (i < j)"
| "label_less (StrL s) (StrL t) = str_less s t"
| "label_less (IntL i) (StrL t) = False"
| "label_less (StrL s) (IntL j) = False"

text \<open>\<^verbatim>\<open>is_monotonic\<close> of an index of unique labels: every label is below the next.\<close>

definition monotonic :: "label list \<Rightarrow> bool" where
  "monotonic xs = sorted_wrt label_less xs"

text \<open>
  The order in which pandas sorts the labels of a union: the integers first, by value,
  then the strings, by code point.
\<close>

fun sorts_before :: "label \<Rightarrow> label \<Rightarrow> bool" where
  "sorts_before (IntL i) (IntL j) = (i \<le> j)"
| "sorts_before (StrL s) (StrL t) = (\<not> str_less t s)"
| "sorts_before (IntL i) (StrL t) = True"
| "sorts_before (StrL s) (IntL j) = False"

fun insert_label :: "label \<Rightarrow> label list \<Rightarrow> label list" where
  "insert_label a [] = [a]"
| "insert_label a (b # bs) = (if sorts_before a b then a # b # bs else b # insert_label a bs)"

definition sort_labels :: "label list \<Rightarrow> label list" where
  "sort_labels xs = foldr insert_label xs []"

fun is_int :: "label \<Rightarrow> bool" where
  "is_int (IntL i) = True"
| "is_int (StrL s) = False"

text \<open>
  The outer join of two indexes of unique labels, as pandas aligns two Series before an
  arithmetic operation. Equal indexes are kept as they are, and an empty one yields to
  the other. Otherwise the join is the sorted union; only when both are monotonic and one
  holds integers and the other strings, so that they cannot be compared, the second is
  appended to the first.
\<close>

definition join_labels :: "label list \<Rightarrow> label list \<Rightarrow> label list" where
  "join_labels xs ys =
     (if xs = ys \<or> ys = [] then xs
      else if xs = [] then ys
      else if monotonic xs \<and> monotonic ys \<and> is_int (hd xs) \<noteq> is_int (hd ys) then xs @ ys
      else sort_labels (remdups (xs @ ys)))"

text \<open>
  A binary operation on two reductions: a scalar is broadcast, and two per-column
  results with the same labels are combined position by position. Two per-column
  results with different labels are aligned on the join of their labels, and a label
  that one of them lacks has the operand \<open>NaN\<close> there. The columns of a frame have
  unique labels.
\<close>

fun ann_op :: "(pyfloat \<Rightarrow> pyfloat \<Rightarrow> pyfloat) \<Rightarrow> annres \<Rightarrow> annres \<Rightarrow> annres" where
  "ann_op f (Scalar a) (Scalar b) = Scalar (f a b)"
| "ann_op f (PerColumn as) (Scalar b) = PerColumn (map (\<lambda>(c, a). (c, f a b)) as)"
| "ann_op f (Scalar a) (PerColumn bs) = PerColumn (map (\<lambda>(c, b). (c, f a b)) bs)"
| "ann_op f (PerColumn as) (PerColumn bs) =
     (if map fst as = map fst bs
      then PerColumn (map2 (\<lambda>(c, a) (c', b). (c, f a b)) as bs)
      else PerColumn (map (\<lambda>c. (c, f (value_at as c) (value_at bs c)))
                       (join_labels (map fst as) (map fst bs))))"

text \<open>\<^verbatim>\<open>r.ndim\<close>, \<^verbatim>\<open>r.shape\<close> and \<^verbatim>\<open>r.iloc[:n]\<close>.\<close>

fun ndim :: "'i pandas \<Rightarrow> nat" where
  "ndim (Series nm rows) = 1"
| "ndim (DataFrame idx cols) = 2"

fun shape :: "'i pandas \<Rightarrow> nat list" where
  "shape (Series nm rows) = [length rows]"
| "shape (DataFrame idx cols) = [length idx, length cols]"

fun iloc_head :: "'i pandas \<Rightarrow> nat \<Rightarrow> 'i pandas" where
  "iloc_head (Series nm rows) n = Series nm (take n rows)"
| "iloc_head (DataFrame idx cols) n = DataFrame (take n idx) (map (\<lambda>(c, vs). (c, take n vs)) cols)"

section \<open>\<^verbatim>\<open>perfana/core/returns.py\<close>\<close>

text \<open>
  The functions take their data already converted by \<^verbatim>\<open>to_time_series\<close>. The accessor
  \<^verbatim>\<open>r.ppa.frequency\<close> is defined outside the files at hand; it is the parameter
  \<open>frequency\<close>, which may raise, return a frequency or return \<^verbatim>\<open>None\<close>.
\<close>

subsection \<open>\<^verbatim>\<open>annualized_returns\<close>\<close>

definition annualized_returns ::
  "(tsdata \<Rightarrow> error + string option) \<Rightarrow> tsdata \<Rightarrow> string option \<Rightarrow> bool \<Rightarrow> error + annres" where
  "annualized_returns frequency r freq geometric =
     (let r = dropna r in
      case (if freq = None then frequency r else Inr freq) of
        Inl e \<Rightarrow> Inl e
      | Inr freq \<Rightarrow>
          (case freq_to_scale freq of
             Inl e \<Rightarrow> Inl e
           | Inr scale \<Rightarrow>
               if geometric then
                 (let p = prod_py (add_scalar r (Fin 1)) in
                  if len r = 0 then Inl ZeroDivisionError
                  else Inr (ann_map (\<lambda>v. fl_sub (fl_pow v (real scale / real (len r))) (Fin 1)) p))
               else Inr (ann_map (\<lambda>v. fl_mul v (Fin (real scale))) (mean_py r))))"

subsection \<open>\<^verbatim>\<open>_determine_frequency\<close>\<close>

definition determine_frequency ::
  "(tsdata \<Rightarrow> error + string option) \<Rightarrow> tsdata \<Rightarrow> tsdata \<Rightarrow> string option \<Rightarrow> error + string" where
  "determine_frequency frequency ra rb freq =
     (case freq of
        Some f \<Rightarrow> Inr f
      | None \<Rightarrow>
          (case frequency ra of
             Inl e \<Rightarrow> Inl e
           | Inr fa \<Rightarrow>
               (case frequency rb of
                  Inl e \<Rightarrow> Inl e
                | Inr fb \<Rightarrow>
                    (case (fa, fb) of
                       (None, None) \<Rightarrow> Inl TimeIndexError
                     | (None, Some b) \<Rightarrow> Inr b
                     | (Some a, None) \<Rightarrow> Inr a
                     | (Some a, Some b) \<Rightarrow>
                         if a \<noteq> b then Inl (TimeIndexMismatchError a b) else Inr a))))"

subsection \<open>\<^verbatim>\<open>excess_returns\<close>\<close>

definition excess_returns ::
  "(tsdata \<Rightarrow> error + string option) \<Rightarrow> tsdata \<Rightarrow> tsdata \<Rightarrow> string option \<Rightarrow> bool \<Rightarrow> error + annres" where
  "excess_returns frequency ra rb freq geometric =
     (let ra = dropna ra;
          rb = dropna rb;
          n = min (len ra) (len rb);
          ra = iloc_head ra n;
          rb = iloc_head rb n
      in if ndim ra = ndim rb \<and> shape ra \<noteq> shape rb then Inl ValueError
         else case determine_frequency frequency ra rb freq of
           Inl e \<Rightarrow> Inl e
         | Inr freq \<Rightarrow>
             (case annualized_returns frequency ra (Some freq) True of
                Inl e \<Rightarrow> Inl e
              | Inr ra \<Rightarrow>
                  (case annualized_returns frequency rb (Some freq) True of
                     Inl e \<Rightarrow> Inl e
                   | Inr rb \<Rightarrow>
                       Inr (if geometric
                            then ann_op fl_div (ann_op fl_sub ra rb) (ann_op fl_add (Scalar (Fin 1)) rb)
                            else ann_op fl_sub ra rb))))"

subsection \<open>The annualization formulas as the specification words them\<close>

text \<open>The annualization factor of each periodicity.\<close>

definition scale_table :: "(string \<times> nat) list" where
  "scale_table =
     [(''daily'', 252), (''weekly'', 52), (''monthly'', 12), (''quarterly'', 4),
      (''semi-annually'', 6), (''yearly'', 1)]"

text \<open>\<open>prod(1 + r) ^ (scale / n) - 1\<close> and \<open>mean(r) * scale\<close> over real observations.\<close>

definition geometric_formula :: "nat \<Rightarrow> nat \<Rightarrow> real list \<Rightarrow> real" where
  "geometric_formula scale n xs = (\<Prod>x\<leftarrow>xs. 1 + x) powr (real scale / real n) - 1"


text \<open>The real number a finite float stands for.\<close>

fun real_of :: "pyfloat \<Rightarrow> real" where
  "real_of (Fin x) = x"
| "real_of v = 0"

text \<open>
  An observation is a return: a real number not below \<open>-1\<close> (a total loss), or missing.
\<close>

definition is_return :: "pyfloat \<Rightarrow> bool" where
  "is_return v = (case v of Fin x \<Rightarrow> - 1 \<le> x | NaN \<Rightarrow> True | PInf \<Rightarrow> False | NInf \<Rightarrow> False)"

fun all_values :: "'i pandas \<Rightarrow> pyfloat list" where
  "all_values (Series nm rows) = map snd rows"
| "all_values (DataFrame idx cols) = concat (map snd cols)"

text \<open>Every column of a DataFrame has one entry per entry of the index.\<close>

fun well_formed :: "'i pandas \<Rightarrow> bool" where
  "well_formed (Series nm rows) = True"
| "well_formed (DataFrame idx cols) = list_all (\<lambda>(c, vs). length vs = length idx) cols"

text \<open>The columns of the data: the one of a Series, or those of a DataFrame.\<close>

fun columns_of :: "'i pandas \<Rightarrow> pyfloat list list" where
  "columns_of (Series nm rows) = [map snd rows]"
| "columns_of (DataFrame idx cols) = map snd cols"

text \<open>The observations of a Series that are not missing, in order.\<close>

definition observed :: "('i \<times> pyfloat) list \<Rightarrow> pyfloat list" where
  "observed rows = map snd (filter (\<lambda>(t, v). notna v) rows)"

text \<open>
  The excess return of an asset over a benchmark, from their annualized returns.
\<close>

definition excess :: "bool \<Rightarrow> real \<Rightarrow> real \<Rightarrow> real" where
  "excess geometric a b = (if geometric then (a - b) / (1 + b) else a - b)"

text \<open>
  The comparison as the docstring of \<^verbatim>\<open>excess_returns\<close> words it: a vector is compared
  with each column of the other side, and two matrices column for column.
\<close>

fun column_for_column :: "(real \<Rightarrow> real \<Rightarrow> real) \<Rightarrow> annres \<Rightarrow> annres \<Rightarrow> annres" where
  "column_for_column h (Scalar a) (Scalar b) = Scalar (Fin (h (real_of a) (real_of b)))"
| "column_for_column h (PerColumn as) (Scalar b) =
     PerColumn (map (\<lambda>(c, a). (c, Fin (h (real_of a) (real_of b)))) as)"
| "column_for_column h (Scalar a) (PerColumn bs) =
     PerColumn (map (\<lambda>(c, b). (c, Fin (h (real_of a) (real_of b)))) bs)"
| "column_for_column h (PerColumn as) (PerColumn bs) =
     PerColumn (map2 (\<lambda>(c, a) (c', b). (c, Fin (h (real_of a) (real_of b)))) as bs)"

text \<open>The numbers of a result.\<close>

fun values_of :: "annres \<Rightarrow> pyfloat list" where
  "values_of (Scalar a) = [a]"
| "values_of (PerColumn as) = map snd as"

text \<open>Two DataFrames whose columns carry the same labels in the same order.\<close>

fun same_labels :: "'i pandas \<Rightarrow> 'i pandas \<Rightarrow> bool" where
  "same_labels (DataFrame idxa colsa) (DataFrame idxb colsb) = (map fst colsa = map fst colsb)"
| "same_labels (Series nm rows) rb = True"
| "same_labels ra (Series nm rows) = True"

subsection \<open>Column names\<close>

text \<open>\<^verbatim>\<open>str(i)\<close> of an integer: its decimal digits, with a sign when negative.\<close>

fun show_nat :: "nat \<Rightarrow> string" where
  "show_nat n = (if n < 10 then [char_of (48 + n)] else show_nat (n div 10) @ [char_of (48 + n mod 10)])"

definition show_int :: "int \<Rightarrow> string" where
  "show_int i = (if i < 0 then CHR ''-'' # show_nat (nat (- i)) else show_nat (nat i))"

text \<open>A label inside an f-string.\<close>

definition label_str :: "label \<Rightarrow> string" where
  "label_str c = (case c of IntL i \<Rightarrow> show_int i | StrL s \<Rightarrow> s)"

text \<open>\<^verbatim>\<open>if isinstance(c, int): c = f'{prefix}_{c}'\<close>\<close>

definition column_name :: "string \<Rightarrow> label \<Rightarrow> label" where
  "column_name prefix c = (case c of IntL i \<Rightarrow> StrL (prefix @ ''_'' @ show_int i) | StrL s \<Rightarrow> StrL s)"

text \<open>
  \<^verbatim>\<open>ra.name or prefix\<close>: the prefix replaces a name that is \<^verbatim>\<open>None\<close>, \<^verbatim>\<open>0\<close> or the
  empty string, the values Python counts as false.
\<close>

definition name_or :: "label option \<Rightarrow> string \<Rightarrow> label" where
  "name_or nm prefix =
     (case nm of
        None \<Rightarrow> StrL prefix
      | Some (IntL i) \<Rightarrow> if i = 0 then StrL prefix else IntL i
      | Some (StrL s) \<Rightarrow> if s = [] then StrL prefix else StrL s)"

text \<open>\<^verbatim>\<open>if isinstance(ra, pd.Series): ra = pd.DataFrame(ra.rename(ra.name or prefix))\<close>\<close>

fun to_frame :: "'i pandas \<Rightarrow> string \<Rightarrow> 'i pandas" where
  "to_frame (Series nm rows) prefix = DataFrame (map fst rows) [(name_or nm prefix, map snd rows)]"
| "to_frame (DataFrame idx cols) prefix = DataFrame idx cols"

text \<open>\<^verbatim>\<open>iteritems()\<close> of a DataFrame: each label with its column as a Series of that name.\<close>

fun iteritems :: "'i pandas \<Rightarrow> (label \<times> 'i pandas) list" where
  "iteritems (DataFrame idx cols) = map (\<lambda>(c, vs). (c, Series (Some c) (zip idx vs))) cols"

subsection \<open>\<^verbatim>\<open>active_premium\<close>\<close>

fun the_scalar :: "annres \<Rightarrow> pyfloat" where
  "the_scalar (Scalar x) = x"

text \<open>
  \<^verbatim>\<open>res[c] = pd.Series(premium)\<close>: a frame without rows takes the index of a non-empty
  Series; otherwise the Series is aligned to the frame's index. The column replaces one
  of the same name or is appended.
\<close>

fun set_column :: "'i pandas \<Rightarrow> label \<Rightarrow> ('i \<times> pyfloat) list \<Rightarrow> 'i pandas" where
  "set_column (DataFrame idx cols) c series =
     (if idx = [] \<and> series \<noteq> []
      then DataFrame (map fst series)
             (AList.update c (map snd series)
                (map (\<lambda>(k, vs). (k, replicate (length series) NaN)) cols))
      else DataFrame idx (AList.update c (map (value_at series) idx) cols))"

text \<open>The loop over the benchmark columns, filling the dictionary \<^verbatim>\<open>premium\<close>.\<close>

fun premium_row ::
  "(tsdata \<Rightarrow> error + string option) \<Rightarrow> string \<Rightarrow> bool \<Rightarrow> string \<Rightarrow> tsdata \<Rightarrow>
   (label \<times> tsdata) list \<Rightarrow> (label \<times> pyfloat) list \<Rightarrow> error + (label \<times> pyfloat) list" where
  "premium_row frequency freq geometric prefix a [] premium = Inr premium"
| "premium_row frequency freq geometric prefix a ((cb, b) # rest) premium =
     (let cb = column_name prefix cb in
      case annualized_returns frequency a (Some freq) geometric of
        Inl e \<Rightarrow> Inl e
      | Inr x \<Rightarrow>
          (case annualized_returns frequency b (Some freq) geometric of
             Inl e \<Rightarrow> Inl e
           | Inr y \<Rightarrow>
               premium_row frequency freq geometric prefix a rest
                 (AList.update cb (the_scalar (ann_op fl_sub x y)) premium)))"

text \<open>The loop over the asset columns, filling the frame \<^verbatim>\<open>res\<close>.\<close>

fun premium_table ::
  "(tsdata \<Rightarrow> error + string option) \<Rightarrow> string \<Rightarrow> bool \<Rightarrow> string \<times> string \<Rightarrow>
   (label \<times> tsdata) list \<Rightarrow> (label \<times> tsdata) list \<Rightarrow> label pandas \<Rightarrow> error + label pandas" where
  "premium_table frequency freq geometric prefixes rb_items [] res = Inr res"
| "premium_table frequency freq geometric prefixes rb_items ((ca, a) # rest) res =
     (let ca = column_name (fst prefixes) ca in
      case premium_row frequency freq geometric (snd prefixes) a rb_items [] of
        Inl e \<Rightarrow> Inl e
      | Inr premium \<Rightarrow>
          premium_table frequency freq geometric prefixes rb_items rest (set_column res ca premium))"

definition active_premium ::
  "(tsdata \<Rightarrow> error + string option) \<Rightarrow> tsdata \<Rightarrow> tsdata \<Rightarrow> string option \<Rightarrow> bool \<Rightarrow>
   string \<times> string \<Rightarrow> error + label pandas" where
  "active_premium frequency ra rb freq geometric prefixes =
     (let ra = to_frame ra (fst prefixes);
          rb = to_frame rb (snd prefixes)
      in case determine_frequency frequency ra rb freq of
           Inl e \<Rightarrow> Inl e
         | Inr freq \<Rightarrow>
             premium_table frequency freq geometric prefixes (iteritems rb) (iteritems ra)
               (DataFrame [] []))"

subsection \<open>\<^verbatim>\<open>relative_returns\<close>\<close>

text \<open>
  The index of an outer merge on the index. An index holds each timestamp once. Two equal
  indexes are kept in the order given, and an empty index yields to the other one; in
  every other case the result is the sorted union. For ascending indexes this is the
  sorted union throughout.
\<close>

definition join_index :: "timestamp list \<Rightarrow> timestamp list \<Rightarrow> timestamp list" where
  "join_index xs ys =
     (if xs = ys \<or> ys = [] then xs
      else if xs = [] then ys
      else sort (remdups (xs @ ys)))"

text \<open>
  The merged frame has \<open>NaN\<close> where one side has no entry. Column names that occur on
  both sides get the suffixes \<^verbatim>\<open>_x\<close> and \<^verbatim>\<open>_y\<close>.
\<close>

definition suffixed :: "label \<Rightarrow> string \<Rightarrow> label" where
  "suffixed c sfx = StrL (label_str c @ sfx)"

text \<open>\<^verbatim>\<open>pd.merge(a, b, 'outer', left_index=True, right_index=True)\<close> of two named Series.\<close>

fun merge_series :: "tsdata \<Rightarrow> tsdata \<Rightarrow> tsdata" where
  "merge_series (Series (Some ca) rowsa) (Series (Some cb) rowsb) =
     (let keys = join_index (map fst rowsa) (map fst rowsb)
      in DataFrame keys
           [(if ca = cb then suffixed ca ''_x'' else ca, map (value_at rowsa) keys),
            (if ca = cb then suffixed cb ''_y'' else cb, map (value_at rowsb) keys)])"

text \<open>
  \<^verbatim>\<open>cumprod()\<close>: the running product; a missing entry stays missing and is passed over.
\<close>

fun cumprod_from :: "pyfloat \<Rightarrow> pyfloat list \<Rightarrow> pyfloat list" where
  "cumprod_from acc [] = []"
| "cumprod_from acc (v # vs) =
     (if notna v then fl_mul acc v # cumprod_from (fl_mul acc v) vs
      else NaN # cumprod_from acc vs)"

definition cumprod_list :: "pyfloat list \<Rightarrow> pyfloat list" where
  "cumprod_list vs = cumprod_from (Fin 1) vs"

fun cumprod_py :: "'i pandas \<Rightarrow> 'i pandas" where
  "cumprod_py (Series nm rows) = Series nm (zip (map fst rows) (cumprod_list (map snd rows)))"
| "cumprod_py (DataFrame idx cols) = DataFrame idx (map (\<lambda>(c, vs). (c, cumprod_list vs)) cols)"

text \<open>\<^verbatim>\<open>df.iloc[:, 0] / df.iloc[:, 1]\<close>\<close>

fun ratio_of_columns :: "'i pandas \<Rightarrow> ('i \<times> pyfloat) list" where
  "ratio_of_columns (DataFrame idx ((c0, v0) # (c1, v1) # rest)) = zip idx (map2 fl_div v0 v1)"

text \<open>\<^verbatim>\<open>f'{ca}/{cb}'\<close>\<close>

definition pair_name :: "label \<Rightarrow> label \<Rightarrow> label" where
  "pair_name ca cb = StrL (label_str ca @ ''/'' @ label_str cb)"

text \<open>
  \<^verbatim>\<open>pd.merge(res, rel.rename(name), 'outer', left_index=True, right_index=True)\<close>
\<close>

fun merge_frame :: "tsdata \<Rightarrow> label \<Rightarrow> (timestamp \<times> pyfloat) list \<Rightarrow> tsdata" where
  "merge_frame (DataFrame idx cols) name rel =
     (let keys = join_index idx (map fst rel);
          overlap = name \<in> set (map fst cols)
      in DataFrame keys
           (map (\<lambda>(c, vs). (if c = name then suffixed c ''_x'' else c,
                             map (value_at (zip idx vs)) keys)) cols
            @ [(if overlap then suffixed name ''_y'' else name, map (value_at rel) keys)]))"

text \<open>
  The loop over the benchmark columns. The variable \<^verbatim>\<open>ca\<close> is renamed inside this
  loop and keeps its new value for the following benchmark columns.
\<close>

fun relative_row ::
  "string \<times> string \<Rightarrow> tsdata \<Rightarrow> (label \<times> tsdata) list \<Rightarrow> label \<times> tsdata \<Rightarrow> label \<times> tsdata" where
  "relative_row prefixes a [] (ca, res) = (ca, res)"
| "relative_row prefixes a ((cb, b) # rest) (ca, res) =
     (let df = cumprod_py (add_scalar (dropna (merge_series a b)) (Fin 1));
          rel = ratio_of_columns df;
          ca = column_name (fst prefixes) ca;
          cb = column_name (snd prefixes) cb
      in relative_row prefixes a rest (ca, merge_frame res (pair_name ca cb) rel))"

text \<open>The loop over the asset columns.\<close>

fun relative_table ::
  "string \<times> string \<Rightarrow> (label \<times> tsdata) list \<Rightarrow> (label \<times> tsdata) list \<Rightarrow> tsdata \<Rightarrow> tsdata" where
  "relative_table prefixes rb_items [] res = res"
| "relative_table prefixes rb_items ((ca, a) # rest) res =
     relative_table prefixes rb_items rest (snd (relative_row prefixes a rb_items (ca, res)))"

text \<open>\<^verbatim>\<open>res.shape[1]\<close> and \<^verbatim>\<open>res.iloc[:, 0]\<close>\<close>

fun column_count :: "'i pandas \<Rightarrow> nat" where
  "column_count (DataFrame idx cols) = length cols"

fun first_column :: "'i pandas \<Rightarrow> 'i pandas" where
  "first_column (DataFrame idx ((c, vs) # rest)) = Series (Some c) (zip idx vs)"

definition relative_returns :: "tsdata \<Rightarrow> tsdata \<Rightarrow> string \<times> string \<Rightarrow> tsdata" where
  "relative_returns ra rb prefixes =
     (let ra = to_frame ra (fst prefixes);
          rb = to_frame rb (snd prefixes);
          res = relative_table prefixes (iteritems rb) (iteritems ra) (DataFrame [] [])
      in if column_count res = 1 then first_column res else res)"

subsection \<open>The comparison results as the specification words them\<close>

text \<open>One column: a Series, or a DataFrame with a single column.\<close>

fun single_column :: "'i pandas \<Rightarrow> bool" where
  "single_column (Series nm rows) = True"
| "single_column (DataFrame idx cols) = (length cols = 1)"

text \<open>The column labels of a DataFrame; for a Series, its name.\<close>

fun labels_of :: "'i pandas \<Rightarrow> label list" where
  "labels_of (Series nm rows) = (case nm of None \<Rightarrow> [] | Some c \<Rightarrow> [c])"
| "labels_of (DataFrame idx cols) = map fst cols"

text \<open>The ratio series of one asset column and one benchmark column, as the loop computes it.\<close>

definition pair_ratio :: "tsdata \<Rightarrow> tsdata \<Rightarrow> (timestamp \<times> pyfloat) list" where
  "pair_ratio a b = ratio_of_columns (cumprod_py (add_scalar (dropna (merge_series a b)) (Fin 1)))"

text \<open>
  The timestamps, ascending, at which both columns have an observation: what remains
  of the outer join once the rows with a missing value are dropped.
\<close>

definition common_times ::
  "(timestamp \<times> pyfloat) list \<Rightarrow> (timestamp \<times> pyfloat) list \<Rightarrow> timestamp list" where
  "common_times rowsa rowsb =
     filter (\<lambda>t. notna (value_at rowsa t) \<and> notna (value_at rowsb t))
       (sort (remdups (map fst rowsa @ map fst rowsb)))"

text \<open>The compounded growth \<open>prod(1 + r)\<close> of a column over given timestamps.\<close>

definition growth :: "(timestamp \<times> pyfloat) list \<Rightarrow> timestamp list \<Rightarrow> pyfloat" where
  "growth rows ts = foldl fl_mul (Fin 1) (map (\<lambda>t. fl_add (value_at rows t) (Fin 1)) ts)"

text \<open>
  At the \<open>k\<close>-th common timestamp, the asset's growth up to it over the benchmark's.
\<close>

definition relative_spec ::
  "(timestamp \<times> pyfloat) list \<Rightarrow> (timestamp \<times> pyfloat) list \<Rightarrow> (timestamp \<times> pyfloat) list" where
  "relative_spec rowsa rowsb =
     (let ts = common_times rowsa rowsb
      in map (\<lambda>k. (ts ! k, fl_div (growth rowsa (take (Suc k) ts)) (growth rowsb (take (Suc k) ts))))
           [0..<length ts])"

text \<open>The names of the pair columns, asset by asset and benchmark by benchmark.\<close>

definition pair_names :: "string \<times> string \<Rightarrow> label list \<Rightarrow> label list \<Rightarrow> label list" where
  "pair_names prefixes las lbs =
     concat (map (\<lambda>ca. map (\<lambda>cb. pair_name (column_name (fst prefixes) ca)
                                      (column_name (snd prefixes) cb)) lbs) las)"

text \<open>
  The names under which the columns of an input appear, read off the input's own names.
  A column labelled by an integer, and a Series named by one, gets the prefix of its
  side, an underscore and that integer; a string is kept; a Series without a name gets
  the bare prefix.
\<close>

definition synthesized :: "string \<Rightarrow> label \<Rightarrow> label" where
  "synthesized prefix c = (case c of IntL i \<Rightarrow> StrL (prefix @ ''_'' @ show_int i) | StrL s \<Rightarrow> StrL s)"

fun output_names :: "string \<Rightarrow> 'i pandas \<Rightarrow> label list" where
  "output_names prefix (Series None rows) = [StrL prefix]"
| "output_names prefix (Series (Some c) rows) = [synthesized prefix c]"
| "output_names prefix (DataFrame idx cols) = map (\<lambda>(c, vs). synthesized prefix c) cols"

text \<open>A Series whose name Python counts as false: the integer 0 or the empty string.\<close>

fun falsy_name :: "'i pandas \<Rightarrow> bool" where
  "falsy_name (Series None rows) = False"
| "falsy_name (Series (Some (IntL i)) rows) = (i = 0)"
| "falsy_name (Series (Some (StrL s)) rows) = (s = [])"
| "falsy_name (DataFrame idx cols) = False"

text \<open>The names \<^verbatim>\<open>{asset}/{benchmark}\<close>, asset by asset and benchmark by benchmark.\<close>

definition joined_names :: "label list \<Rightarrow> label list \<Rightarrow> label list" where
  "joined_names nas nbs =
     concat (map (\<lambda>a. map (\<lambda>b. StrL (label_str a @ ''/'' @ label_str b)) nbs) nas)"

text \<open>The pair columns with their ratio series, in the order of the two loops.\<close>

definition pair_list ::
  "string \<times> string \<Rightarrow> (label \<times> tsdata) list \<Rightarrow> (label \<times> tsdata) list \<Rightarrow>
   (label \<times> (timestamp \<times> pyfloat) list) list" where
  "pair_list prefixes ra_items rb_items =
     concat (map (\<lambda>(ca, a). map (\<lambda>(cb, b). (pair_name (column_name (fst prefixes) ca)
                                                 (column_name (snd prefixes) cb),
                                               pair_ratio a b)) rb_items) ra_items)"

text \<open>The \<open>k\<close>-th column of a result with its index; a Series is its own single column.\<close>

fun column_rows :: "'i pandas \<Rightarrow> nat \<Rightarrow> ('i \<times> pyfloat) list" where
  "column_rows (Series nm rows) k = rows"
| "column_rows (DataFrame idx cols) k = zip idx (snd (cols ! k))"

section \<open>Sample inputs\<close>

text \<open>A Series of zero returns over a given index.\<close>

definition flat_series :: "timestamp list \<Rightarrow> tsdata" where
  "flat_series idx = Series None (map (\<lambda>t. (t, Fin 0)) idx)"

text \<open>The first \<open>n\<close> business days from Monday 1970-01-05 on: five days, then the weekend.\<close>

definition business_days :: "nat \<Rightarrow> timestamp list" where
  "business_days n = map (\<lambda>i. days (4 + 7 * (i div 5) + i mod 5)) [0..<n]"

text \<open>Thirty observations ten days apart: no gap is in any membership set.\<close>

definition ten_day_series :: tsdata where
  "ten_day_series = flat_series (map (\<lambda>i. days (10 * i)) [0..<30])"

text \<open>Five observations with gaps of 31, 10, 10 and 7 days: one monthly and one weekly vote.\<close>

definition mixed_gaps :: tsdata where
  "mixed_gaps = flat_series (map days [0, 31, 41, 51, 58])"

text \<open>
  Two assets over three days; the first has no observation on the second day, so that
  row is dropped for both.
\<close>

definition two_assets :: tsdata where
  "two_assets =
     DataFrame [days 0, days 1, days 2]
       [(StrL ''A'', [Fin 0.1, NaN, Fin 0.1]), (IntL 1, [Fin 0.2, Fin 0.5, Fin 0])]"

text \<open>The classifier as the frequency accessor, with the policy \<^verbatim>\<open>ignore\<close>.\<close>

definition classifier :: "tsdata \<Rightarrow> error + string option" where
  "classifier r = infer_frequency r ''ignore''"

text \<open>A Series whose only observation is missing.\<close>

definition all_missing :: tsdata where
  "all_missing = Series None [(days 0, NaN)]"

text \<open>
  An asset with four daily rows, one of them missing, and a benchmark with two: after the
  drop three and two observations remain, and the first two of each are compared.
\<close>

definition asset_rows :: "(timestamp \<times> pyfloat) list" where
  "asset_rows = [(days 0, Fin 0.1), (days 1, NaN), (days 2, Fin 0.1), (days 3, Fin 0.5)]"

definition benchmark_rows :: "(timestamp \<times> pyfloat) list" where
  "benchmark_rows = [(days 0, Fin 0), (days 1, Fin 0.1)]"

text \<open>
  One yearly observation each: an unnamed asset and benchmark, a frame of two assets of
  which the first has the default integer label, and a named benchmark.
\<close>

definition prefixes_default :: "string \<times> string" where
  "prefixes_default = (''AST'', ''BMK'')"

definition unnamed_asset :: tsdata where
  "unnamed_asset = Series None [(days 0, Fin 0.1)]"

definition unnamed_benchmark :: tsdata where
  "unnamed_benchmark = Series None [(days 0, Fin 0.05)]"

definition fifth_benchmark :: tsdata where
  "fifth_benchmark = DataFrame [days 0] [(IntL 5, [Fin 0.05])]"

definition two_columns :: tsdata where
  "two_columns = DataFrame [days 0] [(IntL 0, [Fin 0.1]), (StrL ''GOLD'', [Fin 0.2])]"

definition first_of_two :: tsdata where
  "first_of_two = DataFrame [days 0] [(IntL 0, [Fin 0.1])]"

definition spx :: tsdata where
  "spx = Series (Some (StrL ''SPX'')) [(days 0, Fin 0.05)]"

definition numbered_benchmark :: tsdata where
  "numbered_benchmark = Series (Some (IntL 5)) [(days 0, Fin 0.05)]"

text \<open>
  Two assets \<^verbatim>\<open>A\<close> and \<^verbatim>\<open>B\<close> over three years, the first without an observation in
  the second year; two benchmarks \<^verbatim>\<open>X\<close> and \<^verbatim>\<open>Y\<close> with one yearly observation each;
  and the same two benchmarks under the labels of the assets. Of the assets' two complete
  rows the first is compared.
\<close>

definition labelled_assets :: tsdata where
  "labelled_assets =
     DataFrame [days 0, days 365, days 730]
       [(StrL ''A'', [Fin 0.10, NaN, Fin 0.5]), (StrL ''B'', [Fin 0.26, Fin 0.3, Fin 0.5])]"

definition labelled_benchmarks :: tsdata where
  "labelled_benchmarks = DataFrame [days 0] [(StrL ''X'', [Fin 0.05]), (StrL ''Y'', [Fin 0.20])]"

definition relabelled_benchmarks :: tsdata where
  "relabelled_benchmarks = DataFrame [days 0] [(StrL ''A'', [Fin 0.05]), (StrL ''B'', [Fin 0.20])]"

text \<open>
  A benchmark observed on the first, third and fourth day, to be compared with the two
  assets above, and two Series over the same two days that both start with a return of 0.
\<close>

definition sparse_benchmark :: tsdata where
  "sparse_benchmark = Series None [(days 0, Fin 0), (days 2, Fin 0.1), (days 3, Fin 0.2)]"

definition flat_start_asset :: tsdata where
  "flat_start_asset = Series None [(days 0, Fin 0), (days 1, Fin 0.1)]"

definition flat_start_benchmark :: tsdata where
  "flat_start_benchmark = Series None [(days 0, Fin 0), (days 1, Fin 0.21)]"

section \<open>The frequency classifier\<close>

subsection \<open>The vote totals of the source are those of the specification\<close>

lemma td_get_value_counts: "td_get (value_counts gaps) x 0 = count_list gaps x"
  by (simp add: td_get_def value_counts_def count_list_0_iff)

lemma days_inj: "days a = days b \<longleftrightarrow> a = b"
  by (simp add: days_def ns_per_day_def)

lemma days_diff: "b \<le> a \<Longrightarrow> days a - days b = days (a - b)"
  by (simp add: days_def of_nat_diff left_diff_distrib)

lemma days_match: "(\<exists>k\<in>S. days d = days k) \<longleftrightarrow> d \<in> S"
  by (auto simp: days_inj)

lemma hits_of_gap:
  "distinct ds \<Longrightarrow>
   sum_list (map (\<lambda>day. if g = days day then 1 else 0) ds) =
   (if \<exists>k\<in>set ds. g = days k then 1 else (0::nat))"
  by (induction ds) (auto simp: days_inj)

lemma sum_count_days:
  "distinct ds \<Longrightarrow>
   sum_list (map (\<lambda>day. count_list gaps (days day)) ds) =
   length (filter (\<lambda>g. \<exists>k\<in>set ds. g = days k) gaps)"
proof (induction gaps)
  case Nil
  then show ?case by simp
next
  case (Cons g gs)
  have "sum_list (map (\<lambda>day. count_list (g # gs) (days day)) ds) =
        sum_list (map (\<lambda>day. count_list gs (days day)) ds) +
        sum_list (map (\<lambda>day. if g = days day then 1 else 0) ds)"
    by (induction ds) auto
  then show ?case using Cons hits_of_gap [of ds g] by auto
qed

lemma day_set_lists:
  "day_set ''daily'' = set [1..<6]"
  "day_set ''weekly'' = set [7]"
  "day_set ''monthly'' = set [28, 29, 30, 31]"
  "day_set ''quarterly'' = set [89..<93]"
  "day_set ''semi-annually'' = set [180..<185]"
  "day_set ''yearly'' = set [360..<367]"
  unfolding day_set_def by auto

lemma votes_as_sum:
  "distinct ds \<Longrightarrow> day_set p = set ds \<Longrightarrow>
   sum_list (map (\<lambda>day. td_get (value_counts (index_diff idx)) (days day) 0) ds) = gap_votes idx p"
  unfolding gap_votes_def td_get_value_counts by (simp add: sum_count_days)

lemma delta_votes:
  "delta (value_counts (index_diff idx)) = map (\<lambda>p. (p, gap_votes idx p)) periodicities"
proof -
  note v = votes_as_sum [where idx = idx]
  have d: "sum_list (map (\<lambda>day. td_get (value_counts (index_diff idx)) (days day) 0) [1..<6])
           = gap_votes idx ''daily''"
    by (rule v [OF _ day_set_lists(1)]) simp
  have w: "td_get (value_counts (index_diff idx)) (days 7) 0 = gap_votes idx ''weekly''"
    using v [OF _ day_set_lists(2)] by simp
  have m: "sum_list (map (\<lambda>day. td_get (value_counts (index_diff idx)) (days day) 0)
             [28, 29, 30, 31]) = gap_votes idx ''monthly''"
    by (rule v [OF _ day_set_lists(3)]) simp
  have q: "sum_list (map (\<lambda>day. td_get (value_counts (index_diff idx)) (days day) 0) [89..<93])
           = gap_votes idx ''quarterly''"
    by (rule v [OF _ day_set_lists(4)]) simp
  have s: "sum_list (map (\<lambda>day. td_get (value_counts (index_diff idx)) (days day) 0)
             [180..<185]) = gap_votes idx ''semi-annually''"
    by (rule v [OF _ day_set_lists(5)]) simp
  have y: "sum_list (map (\<lambda>day. td_get (value_counts (index_diff idx)) (days day) 0)
             [360..<367]) = gap_votes idx ''yearly''"
    by (rule v [OF _ day_set_lists(6)]) simp
  show ?thesis
    unfolding delta_def periodicities_def d w m q s y by (simp only: list.map)
qed

subsection \<open>Python's \<^verbatim>\<open>max\<close> picks the first of the largest\<close>

lemma max_key_from_props:
  "max_key_from best kvs = r \<Longrightarrow>
     r \<in> set (best # kvs) \<and> snd best \<le> snd r \<and> (\<forall>kv\<in>set kvs. snd kv \<le> snd r)"
proof (induction kvs arbitrary: best)
  case Nil
  then show ?case by simp
next
  case (Cons kv kvs)
  show ?case
  proof (cases "snd best < snd kv")
    case True
    with Cons.prems have "max_key_from kv kvs = r" by simp
    from Cons.IH [OF this] True show ?thesis by auto
  next
    case False
    with Cons.prems have "max_key_from best kvs = r" by simp
    from Cons.IH [OF this] False show ?thesis by auto
  qed
qed

lemma max_key_from_first:
  "max_key_from best kvs = r \<Longrightarrow> distinct (map fst (best # kvs)) \<Longrightarrow>
     (\<forall>kv\<in>set (takeWhile (\<lambda>kv. fst kv \<noteq> fst r) (best # kvs)). snd kv < snd r)"
proof (induction kvs arbitrary: best)
  case Nil
  then show ?case by simp
next
  case (Cons kv kvs)
  show ?case
  proof (cases "snd best < snd kv")
    case True
    with Cons.prems have e: "max_key_from kv kvs = r" by simp
    from Cons.prems have dk: "distinct (map fst (kv # kvs))" by simp
    note ih = Cons.IH [OF e dk]
    from max_key_from_props [OF e] have rin: "r \<in> set (kv # kvs)" and ge: "snd kv \<le> snd r"
      by auto
    from rin Cons.prems(2) have "fst best \<noteq> fst r" by (auto simp: image_iff)
    with ih True ge show ?thesis by auto
  next
    case False
    with Cons.prems have e: "max_key_from best kvs = r" by simp
    from Cons.prems have dk: "distinct (map fst (best # kvs))" by simp
    note ih = Cons.IH [OF e dk]
    from max_key_from_props [OF e] have rin: "r \<in> set (best # kvs)" by auto
    show ?thesis
    proof (cases "fst best = fst r")
      case True
      then show ?thesis by simp
    next
      case ne: False
      with rin have "r \<in> set kvs" by auto
      with Cons.prems(2) have "fst kv \<noteq> fst r \<or> kv = r" by (auto simp: image_iff)
      moreover from max_key_from_props [OF e] have "snd best \<le> snd r" by simp
      ultimately show ?thesis using ih ne False
        by (auto split: if_splits)
    qed
  qed
qed

lemma max_key_tabulated:
  assumes "ps \<noteq> []" and "distinct ps"
  shows "\<exists>p\<in>set ps. max_key (map (\<lambda>p. (p, f p)) ps) = Inr p \<and>
           (\<forall>q\<in>set ps. f q \<le> f p) \<and>
           (\<forall>q\<in>set (takeWhile (\<lambda>q. q \<noteq> p) ps). f q < f p)"
proof -
  from assms(1) obtain p0 rest where ps: "ps = p0 # rest" by (cases ps) auto
  define kvs where "kvs = map (\<lambda>p. (p, f p)) rest"
  define r where "r = max_key_from (p0, f p0) kvs"
  have e: "max_key_from (p0, f p0) kvs = r" by (simp add: r_def)
  have all: "(p0, f p0) # kvs = map (\<lambda>p. (p, f p)) ps" by (simp add: ps kvs_def)
  have d: "distinct (map fst ((p0, f p0) # kvs))"
    unfolding all using assms(2) by (simp add: comp_def)
  from max_key_from_props [OF e] have rin: "r \<in> set (map (\<lambda>p. (p, f p)) ps)"
    and ge: "\<forall>kv\<in>set (map (\<lambda>p. (p, f p)) ps). snd kv \<le> snd r"
    unfolding all [symmetric] by auto
  from rin obtain p where p: "p \<in> set ps" "r = (p, f p)" by auto
  have tw: "\<forall>kv\<in>set (takeWhile (\<lambda>kv. fst kv \<noteq> fst r) (map (\<lambda>p. (p, f p)) ps)). snd kv < snd r"
    using max_key_from_first [OF e d] unfolding all .
  have m: "max_key (map (\<lambda>p. (p, f p)) ps) = Inr p"
    unfolding all [symmetric] max_key_def by (simp add: e p(2) kvs_def [symmetric])
  have "\<forall>q\<in>set ps. f q \<le> f p" using ge p(2) by auto
  moreover have "\<forall>q\<in>set (takeWhile (\<lambda>q. q \<noteq> p) ps). f q < f p"
    using tw p(2) by (auto simp: takeWhile_map comp_def)
  ultimately show ?thesis using p(1) m by blast
qed

lemma earlier_or_later:
  "p \<in> set ps \<Longrightarrow> p' \<in> set ps \<Longrightarrow> p \<noteq> p' \<Longrightarrow>
   p \<in> set (takeWhile (\<lambda>q. q \<noteq> p') ps) \<or> p' \<in> set (takeWhile (\<lambda>q. q \<noteq> p) ps)"
  by (induction ps) auto

lemma first_of_largest_unique:
  fixes f :: "'a \<Rightarrow> nat"
  assumes "p \<in> set ps" and "\<forall>q\<in>set ps. f q \<le> f p"
    and "\<forall>q\<in>set (takeWhile (\<lambda>q. q \<noteq> p) ps). f q < f p"
    and "p' \<in> set ps" and "\<forall>q\<in>set ps. f q \<le> f p'"
    and "\<forall>q\<in>set (takeWhile (\<lambda>q. q \<noteq> p') ps). f q < f p'"
  shows "p = p'"
proof (rule ccontr)
  assume "p \<noteq> p'"
  from earlier_or_later [OF assms(1,4) this] show False
  proof
    assume "p \<in> set (takeWhile (\<lambda>q. q \<noteq> p') ps)"
    with assms(6) have "f p < f p'" by blast
    moreover from assms(2,4) have "f p' \<le> f p" by blast
    ultimately show False by simp
  next
    assume "p' \<in> set (takeWhile (\<lambda>q. q \<noteq> p) ps)"
    with assms(3) have "f p' < f p" by blast
    moreover from assms(5,1) have "f p \<le> f p'" by blast
    ultimately show False by simp
  qed
qed

lemma first_over_find:
  "first_over (map (\<lambda>p. (p, f p)) ps) n = find (\<lambda>p. 0.85 * real n < real (f p)) ps"
  by (induction ps) auto

subsection \<open>The two regimes of \<^verbatim>\<open>infer_frequency\<close>\<close>

lemma periodicities_distinct: "periodicities \<noteq> [] \<and> distinct periodicities"
  by (simp add: periodicities_def)

lemma infer_frequency_sparse:
  assumes "len data < 30" and "lower fail_policy \<in> {''ignore'', ''raise''}"
  shows "infer_frequency data fail_policy =
        (case max_key (map (\<lambda>p. (p, gap_votes (index_of data) p)) periodicities) of
           Inl e \<Rightarrow> Inl e | Inr k \<Rightarrow> Inr (Some k))"
proof -
  from assms have v: "\<not> lower fail_policy \<notin> set [''ignore'', ''raise'']" by auto
  show ?thesis
    unfolding infer_frequency_def Let_def delta_votes
    by (simp only: v assms(1) if_False if_True)
qed

lemma infer_frequency_large:
  assumes "30 \<le> len data" and "lower fail_policy \<in> {''ignore'', ''raise''}"
  shows "infer_frequency data fail_policy =
        (case find (\<lambda>p. 0.85 * real (len data) < real (gap_votes (index_of data) p)) periodicities of
           Some p \<Rightarrow> Inr (Some p)
         | None \<Rightarrow> if lower fail_policy = ''raise'' then Inl TypeError else Inr None)"
proof -
  from assms have v: "\<not> lower fail_policy \<notin> set [''ignore'', ''raise'']" and n: "\<not> len data < 30"
    by auto
  show ?thesis
    unfolding infer_frequency_def Let_def delta_votes first_over_find
    by (simp only: v n if_False)
qed

lemma lower_raise: "lower ''raise'' = ''raise''"
  by (simp add: lower_def lower_char_def)

lemma lower_ignore: "lower ''ignore'' = ''ignore''"
  by (simp add: lower_def lower_char_def)

subsection \<open>Gaps of the sample inputs\<close>

lemma index_of_flat: "index_of (flat_series idx) = idx"
  by (simp add: flat_series_def comp_def)

lemma len_flat_upt: "len (flat_series (map f [0..<n])) = n"
  by (simp add: len_def index_of_flat)

lemma len_business_days: "len (flat_series (business_days n)) = n"
  unfolding business_days_def by (rule len_flat_upt)

lemma len_ten_day_series: "len ten_day_series = 30"
  unfolding ten_day_series_def by (rule len_flat_upt)

lemma index_diff_short: "length idx < 2 \<Longrightarrow> index_diff idx = []"
  by (cases idx) (auto simp: index_diff_def)

lemma index_diff_Cons2: "index_diff (a # b # rest) = (b - a) # index_diff (b # rest)"
  by (simp add: index_diff_def)

lemma index_diff_map:
  "index_diff (map f [0..<n]) = map (\<lambda>i. f (Suc i) - f i) [0..<n - 1]"
proof (cases n)
  case 0
  then show ?thesis by (simp add: index_diff_def)
next
  case (Suc m)
  have t: "tl (map f [0..<Suc m]) = map (\<lambda>i. f (Suc i)) [0..<m]"
    by (simp add: upt_rec [of 0 "Suc m"] map_Suc_upt [symmetric] del: map_Suc_upt upt_Suc)
  have b: "butlast (map f [0..<Suc m]) = map f [0..<m]"
    by simp
  show ?thesis unfolding index_diff_def Suc t b
    by (simp add: zip_map_map zip_same_conv_map del: upt_Suc)
qed

lemma gap_votes_none: "length idx < 2 \<Longrightarrow> gap_votes idx p = 0"
  by (simp add: gap_votes_def index_diff_short)

lemma gap_votes_days:
  "index_diff idx = map days ds \<Longrightarrow> gap_votes idx p = length (filter (\<lambda>d. d \<in> day_set p) ds)"
  by (simp add: gap_votes_def filter_map comp_def days_match)

lemma next_business_day:
  "Suc i div 5 = i div 5 \<and> Suc i mod 5 = Suc (i mod 5) \<or>
   Suc i div 5 = Suc (i div 5) \<and> Suc i mod 5 = 0 \<and> i mod 5 = 4"
  by (auto simp: mod_Suc div_Suc)

lemma business_gap:
  "\<exists>k\<in>day_set ''daily''.
     days (4 + 7 * (Suc i div 5) + Suc i mod 5) - days (4 + 7 * (i div 5) + i mod 5) = days k"
proof -
  have "days (4 + 7 * (Suc i div 5) + Suc i mod 5) - days (4 + 7 * (i div 5) + i mod 5) = days 1 \<or>
        days (4 + 7 * (Suc i div 5) + Suc i mod 5) - days (4 + 7 * (i div 5) + i mod 5) = days 3"
    using next_business_day [of i] by (auto simp: days_diff)
  moreover have "1 \<in> day_set ''daily''" "3 \<in> day_set ''daily''"
    by (simp_all add: day_set_def)
  ultimately show ?thesis by blast
qed

lemma business_days_votes: "gap_votes (business_days n) ''daily'' = n - 1"
proof -
  have "\<forall>g\<in>set (index_diff (business_days n)). \<exists>k\<in>day_set ''daily''. g = days k"
    unfolding business_days_def index_diff_map
    using business_gap by auto
  then have "filter (\<lambda>g. \<exists>k\<in>day_set ''daily''. g = days k) (index_diff (business_days n))
             = index_diff (business_days n)"
    by (simp only: filter_True)
  then show ?thesis
    unfolding gap_votes_def by (simp add: business_days_def index_diff_map)
qed

lemma ten_not_a_day_count: "10 \<notin> day_set p"
  by (simp add: day_set_def)

lemma ten_day_votes: "gap_votes (index_of ten_day_series) p = 0"
proof -
  have "index_diff (index_of ten_day_series) = map days (replicate 29 10)"
    unfolding ten_day_series_def index_of_flat index_diff_map
    by (simp add: days_diff map_replicate_const del: upt_Suc replicate_Suc)
  from gap_votes_days [OF this] show ?thesis
    by (simp add: ten_not_a_day_count del: replicate_Suc)
qed

lemma mixed_gaps_diff: "index_diff (index_of mixed_gaps) = map days [31, 10, 10, 7]"
  unfolding mixed_gaps_def index_of_flat
  by (simp add: index_diff_Cons2 index_diff_short days_diff)

lemma mixed_gaps_votes:
  "gap_votes (index_of mixed_gaps) ''daily'' = 0"
  "gap_votes (index_of mixed_gaps) ''weekly'' = 1"
  "gap_votes (index_of mixed_gaps) ''monthly'' = 1"
  "gap_votes (index_of mixed_gaps) ''quarterly'' = 0"
  "gap_votes (index_of mixed_gaps) ''semi-annually'' = 0"
  "gap_votes (index_of mixed_gaps) ''yearly'' = 0"
  unfolding gap_votes_days [OF mixed_gaps_diff]
  by (simp_all add: day_set_def)

subsection \<open>The classification of the sample inputs\<close>

lemma business_days_daily:
  assumes "30 \<le> n" and "lower fail_policy \<in> {''ignore'', ''raise''}"
  shows "infer_frequency (flat_series (business_days n)) fail_policy = Inr (Some ''daily'')"
proof -
  note l = len_business_days [of n]
  from assms(1) have "0.85 * real n < real (n - 1)" by (simp add: of_nat_diff)
  then have "find (\<lambda>p. 0.85 * real n < real (gap_votes (business_days n) p)) periodicities
             = Some ''daily''"
    by (simp add: periodicities_def business_days_votes)
  moreover have "30 \<le> len (flat_series (business_days n))" using assms(1) by (simp add: l)
  ultimately show ?thesis
    using infer_frequency_large [OF _ assms(2), of "flat_series (business_days n)"]
    by (simp add: l index_of_flat)
qed

lemma ten_day_unclassified:
  "infer_frequency ten_day_series ''ignore'' = Inr None"
proof -
  have "find (\<lambda>p. 0.85 * real (30::nat) < real (gap_votes (index_of ten_day_series) p)) periodicities
        = None"
    by (simp add: periodicities_def ten_day_votes)
  then show ?thesis
    using infer_frequency_large [of ten_day_series "''ignore''"]
    by (simp add: len_ten_day_series lower_ignore)
qed

lemma mixed_gaps_weekly:
  assumes "lower fail_policy \<in> {''ignore'', ''raise''}"
  shows "infer_frequency mixed_gaps fail_policy = Inr (Some ''weekly'')"
proof -
  have l: "len mixed_gaps < 30"
    by (simp add: len_def mixed_gaps_def index_of_flat)
  have "max_key (map (\<lambda>p. (p, gap_votes (index_of mixed_gaps) p)) periodicities) = Inr ''weekly''"
    by (simp add: periodicities_def mixed_gaps_votes max_key_def)
  then show ?thesis
    using infer_frequency_sparse [OF l assms] by simp
qed

lemma classifier_samples:
  "classifier ten_day_series = Inr None"
  "classifier mixed_gaps = Inr (Some ''weekly'')"
  "classifier (flat_series (business_days 300)) = Inr (Some ''daily'')"
  unfolding classifier_def
  by (simp_all add: ten_day_unclassified mixed_gaps_weekly business_days_daily lower_ignore)

section \<open>Annualized returns\<close>

lemma freq_to_scale_table:
  assumes "map_of scale_table f = Some scale"
  shows "freq_to_scale (Some f) = Inr scale"
proof -
  have e: "freq_to_scale (Some ''daily'') = Inr 252"
    "freq_to_scale (Some ''weekly'') = Inr 52"
    "freq_to_scale (Some ''monthly'') = Inr 12"
    "freq_to_scale (Some ''quarterly'') = Inr 4"
    "freq_to_scale (Some ''semi-annually'') = Inr 6"
    "freq_to_scale (Some ''yearly'') = Inr 1"
    by (simp_all add: freq_to_scale_def py_str_def lower_def lower_char_def)
  from assms show ?thesis
    by (simp add: scale_table_def e split: if_splits)
qed

lemma ann_map_reduce: "ann_map g (reduce h r) = reduce (\<lambda>vs. g (h vs)) r"
  by (cases r) (simp_all add: comp_def case_prod_unfold)

lemma reduce_add_scalar:
  "reduce h (add_scalar r x) = reduce (\<lambda>vs. h (map (\<lambda>v. fl_add v x) vs)) r"
  by (cases r) (simp_all add: comp_def case_prod_unfold)

lemma annualized_returns_given:
  assumes "freq_to_scale (Some f) = Inr scale"
  shows "annualized_returns frequency r (Some f) geometric =
     (if geometric then
        (if len (dropna r) = 0 then Inl ZeroDivisionError
         else Inr (reduce (\<lambda>vs. fl_sub (fl_pow (prod_list_py (map (\<lambda>v. fl_add v (Fin 1)) vs))
                     (real scale / real (len (dropna r)))) (Fin 1)) (dropna r)))
      else Inr (reduce (\<lambda>vs. fl_mul (mean_list_py vs) (Fin (real scale))) (dropna r)))"
  unfolding annualized_returns_def Let_def prod_py_def mean_py_def
  by (simp add: assms ann_map_reduce reduce_add_scalar)

subsection \<open>Columns of finite floats\<close>

lemma foldl_mul_Fin: "foldl fl_mul (Fin a) (map Fin xs) = Fin (a * prod_list xs)"
  by (induction xs arbitrary: a) (simp_all add: mult.assoc)


lemma filter_notna_Fin: "filter notna (map Fin xs) = map Fin xs"
  by (induction xs) (simp_all add: notna_def)

lemma prod_list_py_Fin:
  "prod_list_py (map (\<lambda>v. fl_add v (Fin 1)) (map Fin xs)) = Fin (\<Prod>x\<leftarrow>xs. 1 + x)"
proof -
  have "map (\<lambda>v. fl_add v (Fin 1)) (map Fin xs) = map Fin (map (\<lambda>x. 1 + x) xs)"
    by (simp add: add.commute)
  then show ?thesis
    unfolding prod_list_py_def by (simp only: filter_notna_Fin foldl_mul_Fin mult_1)
qed


lemma mean_list_py_Nil: "mean_list_py [] = NaN"
  by (simp add: mean_list_py_def inf_of_sign_def)

lemma fl_pow_nonneg:
  "0 \<le> p \<Longrightarrow> 0 < y \<Longrightarrow> fl_pow (Fin p) y = Fin (p powr y)"
  by (simp add: fl_pow_def)

lemma prod_returns_nonneg: "\<forall>x\<in>set xs. - 1 \<le> x \<Longrightarrow> 0 \<le> (\<Prod>x\<leftarrow>xs. 1 + (x::real))"
  by (induction xs) simp_all

subsection \<open>Columns of returns\<close>

lemma returns_are_reals:
  "\<forall>v\<in>set vs. is_return v \<and> notna v \<Longrightarrow> vs = map Fin (map real_of vs)"
proof (induction vs)
  case Nil
  then show ?case by simp
next
  case (Cons v vs)
  then show ?case by (cases v) (simp_all add: is_return_def notna_def)
qed

lemma real_of_return: "is_return v \<Longrightarrow> notna v \<Longrightarrow> - 1 \<le> real_of v"
  by (cases v) (simp_all add: is_return_def notna_def)

lemma geometric_column:
  assumes "\<forall>v\<in>set vs. is_return v \<and> notna v" and "0 < scale" and "0 < n"
  shows "fl_sub (fl_pow (prod_list_py (map (\<lambda>v. fl_add v (Fin 1)) vs)) (real scale / real n)) (Fin 1)
         = Fin (geometric_formula scale n (map real_of vs))"
proof -
  define xs where "xs = map real_of vs"
  have e: "vs = map Fin xs"
    unfolding xs_def by (rule returns_are_reals [OF assms(1)])
  from assms(1) have nn: "0 \<le> (\<Prod>x\<leftarrow>xs. 1 + x)"
    unfolding xs_def by (intro prod_returns_nonneg) (auto simp: real_of_return)
  have y: "0 < real scale / real n" using assms(2,3) by simp
  have "prod_list_py (map (\<lambda>v. fl_add v (Fin 1)) vs) = Fin (\<Prod>x\<leftarrow>xs. 1 + x)"
    by (subst e) (rule prod_list_py_Fin)
  then show ?thesis
    by (simp add: fl_pow_nonneg [OF nn y] fl_sub_def geometric_formula_def xs_def [symmetric])
qed


subsection \<open>What \<^verbatim>\<open>dropna\<close> leaves\<close>

lemma select_length: "length keep = length xs \<Longrightarrow> length (select keep xs) = length (filter id keep)"
proof (induction keep arbitrary: xs)
  case Nil
  then show ?case by (simp add: select_def)
next
  case (Cons k keep)
  then obtain y ys where "xs = y # ys" by (cases xs) auto
  with Cons show ?case by (auto simp: select_def)
qed

lemma complete_rows_length:
  "list_all (\<lambda>(c, vs). length vs = length idx) cols \<Longrightarrow> length (complete_rows idx cols) = length idx"
  unfolding complete_rows_def by (induction cols) auto

lemma complete_rows_notna:
  "list_all (\<lambda>(c, vs). length vs = length idx) cols \<Longrightarrow> (c, vs) \<in> set cols \<Longrightarrow>
   i < length idx \<Longrightarrow> complete_rows idx cols ! i \<Longrightarrow> notna (vs ! i)"
proof (induction cols)
  case Nil
  then show ?case by simp
next
  case (Cons col cols)
  obtain c' vs' where col: "col = (c', vs')" by (cases col)
  from Cons.prems(1) have l: "length vs' = length idx"
    and rest: "list_all (\<lambda>(c, vs). length vs = length idx) cols"
    by (auto simp: col)
  have cr: "complete_rows idx (col # cols) = map2 (\<lambda>v m. notna v \<and> m) vs' (complete_rows idx cols)"
    by (simp add: complete_rows_def col)
  from Cons.prems(3,4) l complete_rows_length [OF rest]
  have both: "notna (vs' ! i) \<and> complete_rows idx cols ! i"
    by (simp add: cr)
  show ?case
  proof (cases "(c, vs) = col")
    case True
    with both col show ?thesis by simp
  next
    case False
    with Cons.prems(2) have "(c, vs) \<in> set cols" by simp
    from Cons.IH [OF rest this Cons.prems(3)] both show ?thesis by simp
  qed
qed

lemma select_kept:
  "length keep = length xs \<Longrightarrow> v \<in> set (select keep xs) \<Longrightarrow> \<exists>i<length xs. keep ! i \<and> v = xs ! i"
  unfolding select_def
  by (auto simp: set_zip in_set_conv_nth)

lemma reduce_cong:
  "(\<And>vs. vs \<in> set (columns_of r) \<Longrightarrow> f vs = g vs) \<Longrightarrow> reduce f r = reduce g r"
  by (cases r) (auto simp: case_prod_unfold)

lemma dropna_columns:
  assumes "well_formed r" and "\<forall>v\<in>set (all_values r). is_return v"
    and "vs \<in> set (columns_of (dropna r))"
  shows "(\<forall>v\<in>set vs. is_return v \<and> notna v) \<and> length vs = len (dropna r)"
proof (cases r)
  case (Series nm rows)
  with assms(3) have vs: "vs = map snd (filter (\<lambda>(t, v). notna v) rows)" by simp
  have "\<forall>v\<in>set vs. is_return v \<and> notna v"
    using assms(2) unfolding vs Series by auto
  moreover have "length vs = len (dropna r)"
    by (simp add: vs Series len_def)
  ultimately show ?thesis by blast
next
  case (DataFrame idx cols)
  define keep where "keep = complete_rows idx cols"
  from assms(1) have wf: "list_all (\<lambda>(c, vs). length vs = length idx) cols"
    by (simp add: DataFrame)
  have lk: "length keep = length idx"
    unfolding keep_def by (rule complete_rows_length [OF wf])
  from assms(3) obtain c vs0 where col: "(c, vs0) \<in> set cols" and vs: "vs = select keep vs0"
    by (auto simp: DataFrame Let_def keep_def)
  from wf col have l0: "length vs0 = length idx"
    by (auto simp: list_all_iff)
  have "is_return v \<and> notna v" if "v \<in> set vs" for v
  proof -
    from that select_kept [of keep vs0 v] lk l0 obtain i
      where i: "i < length vs0" "keep ! i" "v = vs0 ! i"
      by (auto simp: vs)
    from i(1) have "v \<in> set vs0" by (simp add: i(3))
    with col have "v \<in> set (all_values r)" by (force simp: DataFrame)
    with assms(2) have "is_return v" by blast
    moreover have "notna v"
      using complete_rows_notna [OF wf col, of i] i l0 by (simp add: keep_def)
    ultimately show ?thesis by blast
  qed
  moreover have "length vs = len (dropna r)"
    by (simp add: vs DataFrame len_def Let_def keep_def [symmetric] select_length lk l0)
  ultimately show ?thesis by blast
qed

subsection \<open>Annualizing a Series without missing entries\<close>

lemma annualized_series_geometric:
  assumes "freq_to_scale (Some f) = Inr scale" and "0 < scale"
    and "\<forall>v\<in>set (map snd rows). is_return v \<and> notna v" and "rows \<noteq> []"
  shows "annualized_returns frequency (Series nm rows) (Some f) True =
         Inr (Scalar (Fin (geometric_formula scale (length rows) (map real_of (map snd rows)))))"
proof -
  have d: "filter (\<lambda>(t, v). notna v) rows = rows"
    using assms(3) by (auto simp: filter_id_conv)
  have n: "0 < length rows" using assms(4) by simp
  show ?thesis
    using geometric_column [OF assms(3,2) n] assms(4)
    by (simp add: annualized_returns_given [OF assms(1)] d len_def)
qed

subsection \<open>The scale table and the samples\<close>

lemma scale_table_pos: "map_of scale_table f = Some scale \<Longrightarrow> 0 < scale"
  by (simp add: scale_table_def split: if_splits)


lemma freq_to_scale_daily: "freq_to_scale (Some ''daily'') = Inr 252"
  by (simp add: freq_to_scale_def py_str_def lower_def lower_char_def)

lemma empty_columns:
  assumes "well_formed r" and "len (dropna r) = 0" and "vs \<in> set (columns_of (dropna r))"
  shows "vs = []"
proof (cases r)
  case (Series nm rows)
  with assms(2,3) show ?thesis by (simp add: len_def)
next
  case (DataFrame idx cols)
  define keep where "keep = complete_rows idx cols"
  from assms(1) have wf: "list_all (\<lambda>(c, vs). length vs = length idx) cols"
    by (simp add: DataFrame)
  have lk: "length keep = length idx"
    unfolding keep_def by (rule complete_rows_length [OF wf])
  from assms(3) obtain c vs0 where col: "(c, vs0) \<in> set cols" and vs: "vs = select keep vs0"
    by (auto simp: DataFrame Let_def keep_def)
  from wf col have l0: "length vs0 = length idx"
    by (auto simp: list_all_iff)
  from assms(2) have "length (select keep idx) = 0"
    by (simp add: DataFrame len_def Let_def keep_def)
  then have "length (select keep vs0) = 0"
    by (simp add: select_length lk l0)
  then show ?thesis by (simp add: vs)
qed

section \<open>Excess returns\<close>

subsection \<open>Annualizing the truncated data\<close>

lemma all_values_columns: "all_values r = concat (columns_of r)"
  by (cases r) simp_all

lemma well_formed_dropna: "well_formed r \<Longrightarrow> well_formed (dropna r)"
proof (cases r)
  case (Series nm rows)
  then show ?thesis by simp
next
  case (DataFrame idx cols)
  assume "well_formed r"
  then have wf: "list_all (\<lambda>(c, vs). length vs = length idx) cols"
    by (simp add: DataFrame)
  have lk: "length (complete_rows idx cols) = length idx"
    by (rule complete_rows_length [OF wf])
  from wf show ?thesis
    by (auto simp: DataFrame Let_def list_all_iff select_length lk)
qed

lemma well_formed_head: "well_formed r \<Longrightarrow> well_formed (iloc_head r n)"
  by (cases r) (auto simp: list_all_iff)

lemma columns_of_head: "columns_of (iloc_head r n) = map (take n) (columns_of r)"
  by (cases r) (simp_all add: take_map comp_def case_prod_unfold)

lemma len_head: "len (iloc_head r n) = min (len r) n"
  by (cases r) (simp_all add: len_def)

lemma clean_values:
  assumes "well_formed r" and "\<forall>v\<in>set (all_values r). is_return v"
  shows "\<forall>v\<in>set (all_values (iloc_head (dropna r) n)). is_return v \<and> notna v"
proof
  fix v assume "v \<in> set (all_values (iloc_head (dropna r) n))"
  then obtain vs where vs: "vs \<in> set (columns_of (dropna r))" and v: "v \<in> set (take n vs)"
    by (auto simp: all_values_columns columns_of_head)
  from v have "v \<in> set vs" by (rule in_set_takeD)
  with dropna_columns [OF assms vs] show "is_return v \<and> notna v" by blast
qed

lemma complete_rows_clean:
  "list_all (\<lambda>(c, vs). length vs = length idx) cols \<Longrightarrow>
   \<forall>v\<in>set (concat (map snd cols)). notna v \<Longrightarrow>
   complete_rows idx cols = replicate (length idx) True"
proof (induction cols)
  case Nil
  then show ?case by (simp add: complete_rows_def)
next
  case (Cons col cols)
  obtain c vs where col: "col = (c, vs)" by (cases col)
  from Cons.prems have l: "length vs = length idx" and nn: "\<forall>v\<in>set vs. notna v"
    by (auto simp: col)
  from Cons have ih: "complete_rows idx cols = replicate (length idx) True"
    by (auto simp: col)
  have "map2 (\<lambda>v m. notna v \<and> m) vs (replicate (length vs) True) = replicate (length vs) True"
    using nn by (induction vs) auto
  with ih l show ?case
    by (simp add: complete_rows_def col)
qed

lemma select_all: "length xs = n \<Longrightarrow> select (replicate n True) xs = xs"
  by (induction xs arbitrary: n) (auto simp: select_def)

lemma dropna_clean:
  assumes "well_formed r" and "\<forall>v\<in>set (all_values r). notna v"
  shows "dropna r = r"
proof (cases r)
  case (Series nm rows)
  with assms(2) have "filter (\<lambda>(t, v). notna v) rows = rows"
    by (auto simp: filter_id_conv)
  with Series show ?thesis by simp
next
  case (DataFrame idx cols)
  from assms(1) have wf: "list_all (\<lambda>(c, vs). length vs = length idx) cols"
    by (simp add: DataFrame)
  from assms(2) have nn: "\<forall>v\<in>set (concat (map snd cols)). notna v"
    by (simp add: DataFrame)
  have k: "complete_rows idx cols = replicate (length idx) True"
    by (rule complete_rows_clean [OF wf nn])
  have "map (\<lambda>(c, vs). (c, select (replicate (length idx) True) vs)) cols = cols"
    using wf by (induction cols) (auto simp: select_all)
  then show ?thesis
    by (simp add: DataFrame Let_def k select_all)
qed

lemma annualized_head:
  assumes "map_of scale_table f = Some scale"
    and "well_formed r" and "\<forall>v\<in>set (all_values r). is_return v"
    and "n \<le> len (dropna r)" and "0 < n"
  shows "annualized_returns frequency (iloc_head (dropna r) n) (Some f) True =
         Inr (reduce (\<lambda>vs. Fin (geometric_formula scale n (map real_of vs)))
                (iloc_head (dropna r) n))"
proof -
  define r' where "r' = iloc_head (dropna r) n"
  note fs = freq_to_scale_table [OF assms(1)]
  note sp = scale_table_pos [OF assms(1)]
  have wf: "well_formed r'"
    unfolding r'_def by (intro well_formed_head well_formed_dropna assms(2))
  have cv: "\<forall>v\<in>set (all_values r'). is_return v \<and> notna v"
    unfolding r'_def by (rule clean_values [OF assms(2,3)])
  then have d: "dropna r' = r'"
    by (intro dropna_clean wf) blast
  have l: "len r' = n"
    unfolding r'_def using assms(4) by (simp add: len_head)
  have g: "fl_sub (fl_pow (prod_list_py (map (\<lambda>v. fl_add v (Fin 1)) vs)) (real scale / real n)) (Fin 1)
           = Fin (geometric_formula scale n (map real_of vs))"
    if "vs \<in> set (columns_of r')" for vs
  proof -
    from that cv have "\<forall>v\<in>set vs. is_return v \<and> notna v"
      by (auto simp: all_values_columns)
    from geometric_column [OF this sp assms(5)] show ?thesis .
  qed
  have "annualized_returns frequency r' (Some f) True =
        Inr (reduce (\<lambda>vs. fl_sub (fl_pow (prod_list_py (map (\<lambda>v. fl_add v (Fin 1)) vs))
                     (real scale / real n)) (Fin 1)) r')"
    using assms(5) by (simp add: annualized_returns_given [OF fs] d l)
  then show ?thesis
    unfolding r'_def [symmetric] using reduce_cong [of r', OF g] by simp
qed

subsection \<open>The two annualized results and their combination\<close>

lemma shape_head:
  "well_formed r \<Longrightarrow> n \<le> len (dropna r) \<Longrightarrow>
   ndim (iloc_head (dropna r) n) = ndim r \<and>
   shape (iloc_head (dropna r) n) = (if ndim r = 1 then [n] else [n, length (columns_of r)])"
  by (cases r) (auto simp: len_def Let_def)

lemma excess_returns_annualized:
  assumes "well_formed ra" and "well_formed rb"
    and "\<forall>v\<in>set (all_values ra @ all_values rb). is_return v"
    and "n = min (len (dropna ra)) (len (dropna rb))" and "0 < n"
    and "ndim ra = ndim rb \<longrightarrow> length (columns_of ra) = length (columns_of rb)"
    and "determine_frequency frequency (iloc_head (dropna ra) n) (iloc_head (dropna rb) n) freq = Inr f"
    and "map_of scale_table f = Some scale"
    and "A = reduce (\<lambda>vs. Fin (geometric_formula scale n (map real_of vs))) (iloc_head (dropna ra) n)"
    and "B = reduce (\<lambda>vs. Fin (geometric_formula scale n (map real_of vs))) (iloc_head (dropna rb) n)"
  shows "excess_returns frequency ra rb freq geometric =
         Inr (if geometric then ann_op fl_div (ann_op fl_sub A B) (ann_op fl_add (Scalar (Fin 1)) B)
              else ann_op fl_sub A B)"
proof -
  have na: "n \<le> len (dropna ra)" and nb: "n \<le> len (dropna rb)"
    using assms(4) by simp_all
  have ra: "\<forall>v\<in>set (all_values ra). is_return v" and rb: "\<forall>v\<in>set (all_values rb). is_return v"
    using assms(3) by auto
  note a = annualized_head [OF assms(8,1) ra na assms(5), of frequency, folded assms(9)]
  note b = annualized_head [OF assms(8,2) rb nb assms(5), of frequency, folded assms(10)]
  note sa = shape_head [OF assms(1) na]
  note sb = shape_head [OF assms(2) nb]
  have sh: "\<not> (ndim (iloc_head (dropna ra) n) = ndim (iloc_head (dropna rb) n) \<and>
               shape (iloc_head (dropna ra) n) \<noteq> shape (iloc_head (dropna rb) n))"
    using assms(6) by (simp add: sa sb)
  show ?thesis
    unfolding excess_returns_def Let_def assms(4) [symmetric]
    using sh by (simp add: assms(7) a b)
qed

subsection \<open>Results whose labels agree\<close>

lemma combine_columns:
  assumes "map fst as = map fst bs"
    and "\<forall>v\<in>snd ` set as \<union> snd ` set bs. \<exists>x. v = Fin x"
    and "geometric \<longrightarrow> Fin (- 1) \<notin> snd ` set bs"
  shows "map fst (map2 (\<lambda>(c, a) (c', b). (c, fl_sub a b)) as bs) = map fst bs \<and>
         map2 (\<lambda>(c, a) (c', b). (c, fl_sub a b)) as bs
           = map2 (\<lambda>(c, a) (c', b). (c, Fin (excess False (real_of a) (real_of b)))) as bs \<and>
         (geometric \<longrightarrow>
          map2 (\<lambda>(c, x) (c', y). (c, fl_div x y))
            (map2 (\<lambda>(c, a) (c', b). (c, fl_sub a b)) as bs)
            (map (\<lambda>(c, b). (c, fl_add (Fin 1) b)) bs)
          = map2 (\<lambda>(c, a) (c', b). (c, Fin (excess True (real_of a) (real_of b)))) as bs)"
  using assms
proof (induction as arbitrary: bs)
  case Nil
  then show ?case by simp
next
  case (Cons a as)
  from Cons.prems(1) obtain b bs' where bs: "bs = b # bs'" by (cases bs) auto
  obtain ca va where a: "a = (ca, va)" by (cases a)
  obtain cb vb where b: "b = (cb, vb)" by (cases b)
  from Cons.prems(2) obtain x y where x: "va = Fin x" and y: "vb = Fin y"
    by (auto simp: a b bs)
  from Cons.prems(3) have ny: "geometric \<Longrightarrow> 1 + y \<noteq> 0"
    by (auto simp: bs b y)
  from Cons.prems have "map fst as = map fst bs'"
    and "\<forall>v\<in>snd ` set as \<union> snd ` set bs'. \<exists>x. v = Fin x"
    and "geometric \<longrightarrow> Fin (- 1) \<notin> snd ` set bs'"
    by (auto simp: bs)
  from Cons.IH [OF this] Cons.prems(1) ny show ?case
    by (auto simp: bs a b x y fl_sub_def excess_def)
qed

lemma combine_agree:
  assumes "\<forall>v\<in>set (values_of A @ values_of B). \<exists>x. v = Fin x"
    and "\<forall>as bs. A = PerColumn as \<and> B = PerColumn bs \<longrightarrow> map fst as = map fst bs"
    and "geometric \<longrightarrow> Fin (- 1) \<notin> set (values_of B)"
  shows "(if geometric then ann_op fl_div (ann_op fl_sub A B) (ann_op fl_add (Scalar (Fin 1)) B)
          else ann_op fl_sub A B) = column_for_column (excess geometric) A B"
proof (cases A)
  case a: (Scalar va)
  from assms(1) obtain x where x: "va = Fin x" by (auto simp: a)
  show ?thesis
  proof (cases B)
    case b: (Scalar vb)
    from assms(1) obtain y where y: "vb = Fin y" by (auto simp: b)
    from assms(3) have "geometric \<Longrightarrow> 1 + y \<noteq> 0" by (auto simp: b y)
    then show ?thesis by (auto simp: a b x y fl_sub_def excess_def)
  next
    case b: (PerColumn bs)
    from assms(1) have f: "\<forall>v\<in>snd ` set bs. \<exists>y. v = Fin y" by (auto simp: b)
    from assms(3) have n: "geometric \<longrightarrow> Fin (- 1) \<notin> snd ` set bs" by (auto simp: b)
    have l: "map fst (map (\<lambda>(c, b). (c, fl_sub va b)) bs)
              = map fst (map (\<lambda>(c, b). (c, fl_add (Fin 1) b)) bs)"
      by (simp add: comp_def case_prod_unfold)
    have s: "map (\<lambda>(c, b). (c, fl_sub va b)) bs
             = map (\<lambda>(c, b). (c, Fin (excess False (real_of va) (real_of b)))) bs"
      using f by (induction bs) (auto simp: x fl_sub_def excess_def)
    have d: "geometric \<Longrightarrow>
             map2 (\<lambda>(c, x) (c', y). (c, fl_div x y)) (map (\<lambda>(c, b). (c, fl_sub va b)) bs)
               (map (\<lambda>(c, b). (c, fl_add (Fin 1) b)) bs)
             = map (\<lambda>(c, b). (c, Fin (excess True (real_of va) (real_of b)))) bs"
      using f n
    proof (induction bs)
      case Nil
      then show ?case by simp
    next
      case (Cons b bs)
      obtain cb vb where b: "b = (cb, vb)" by (cases b)
      from Cons.prems obtain y where y: "vb = Fin y" by (auto simp: b)
      from Cons.prems have "1 + y \<noteq> 0" by (auto simp: b y)
      with Cons show ?case by (auto simp: b x y fl_sub_def excess_def)
    qed
    show ?thesis
    proof (cases geometric)
      case True
      then show ?thesis
        unfolding a b by (simp add: l d del: map_map)
    next
      case False
      then show ?thesis by (simp add: a b s)
    qed
  qed
next
  case a: (PerColumn as)
  from assms(1) have fa: "\<forall>v\<in>snd ` set as. \<exists>x. v = Fin x" by (auto simp: a)
  show ?thesis
  proof (cases B)
    case b: (Scalar vb)
    from assms(1) obtain y where y: "vb = Fin y" by (auto simp: b)
    from assms(3) have ny: "geometric \<Longrightarrow> 1 + y \<noteq> 0" by (auto simp: b y)
    have "map (\<lambda>(c, a). (c, fl_sub a vb)) as
          = map (\<lambda>(c, a). (c, Fin (excess False (real_of a) (real_of vb)))) as"
      using fa by (induction as) (auto simp: y fl_sub_def excess_def)
    moreover have "geometric \<Longrightarrow>
          map (\<lambda>(c, a). (c, fl_div (fl_sub a vb) (Fin (1 + y)))) as
          = map (\<lambda>(c, a). (c, Fin (excess True (real_of a) (real_of vb)))) as"
      using fa ny by (induction as) (auto simp: y fl_sub_def excess_def)
    ultimately show ?thesis
      by (cases geometric) (simp_all add: a b y comp_def case_prod_unfold)
  next
    case b: (PerColumn bs)
    from assms(2) have l: "map fst as = map fst bs" by (simp add: a b)
    from assms(1) have f: "\<forall>v\<in>snd ` set as \<union> snd ` set bs. \<exists>x. v = Fin x"
      by (auto simp: a b)
    from assms(3) have n: "geometric \<longrightarrow> Fin (- 1) \<notin> snd ` set bs" by (auto simp: b)
    note c = combine_columns [OF l f n]
    have l2: "map fst (map2 (\<lambda>(c, a) (c', b). (c, fl_sub a b)) as bs)
              = map fst (map (\<lambda>(c, b). (c, fl_add (Fin 1) b)) bs)"
      using c by (simp add: comp_def case_prod_unfold)
    show ?thesis
    proof (cases geometric)
      case True
      with c have "map2 (\<lambda>(c, x) (c', y). (c, fl_div x y))
            (map2 (\<lambda>(c, a) (c', b). (c, fl_sub a b)) as bs)
            (map (\<lambda>(c, b). (c, fl_add (Fin 1) b)) bs)
          = map2 (\<lambda>(c, a) (c', b). (c, Fin (excess True (real_of a) (real_of b)))) as bs"
        by blast
      with True l l2 show ?thesis
        unfolding a b by (simp del: map_map)
    next
      case False
      with c l show ?thesis by (simp add: a b)
    qed
  qed
qed


lemma reduce_values:
  "\<forall>v\<in>set (values_of (reduce (\<lambda>vs. Fin (g vs)) r)). \<exists>x. v = Fin x"
  by (cases r) auto

lemma reduce_head_labels:
  "reduce g (iloc_head (dropna r) n) = PerColumn xs \<Longrightarrow> r = DataFrame idx cols \<Longrightarrow>
   map fst xs = map fst cols"
  by (auto simp: Let_def comp_def case_prod_unfold)

section \<open>Comparisons of assets with benchmarks\<close>

subsection \<open>One asset column against one benchmark column\<close>

lemma single_column_frame:
  "single_column r \<Longrightarrow> \<exists>idx c vs. to_frame r prefix = DataFrame idx [(c, vs)]"
proof (cases r)
  case (Series nm rows)
  then show ?thesis by simp
next
  case (DataFrame idx cols)
  assume "single_column r"
  with DataFrame obtain col where "cols = [col]"
    by (cases cols) auto
  then show ?thesis by (cases col) (simp add: DataFrame)
qed

lemma relative_returns_single:
  "to_frame ra (fst prefixes) = DataFrame idxa [(ca, va)] \<Longrightarrow>
   to_frame rb (snd prefixes) = DataFrame idxb [(cb, vb)] \<Longrightarrow>
   \<exists>nm rows. relative_returns ra rb prefixes = Series (Some nm) rows"
  by (simp add: relative_returns_def Let_def)

lemma active_premium_single:
  "to_frame ra (fst prefixes) = DataFrame idxa [(ca, va)] \<Longrightarrow>
   to_frame rb (snd prefixes) = DataFrame idxb [(cb, vb)] \<Longrightarrow>
   active_premium frequency ra rb freq geometric prefixes = Inr res \<Longrightarrow>
   \<exists>r c v. res = DataFrame [r] [(c, [v])]"
  by (auto simp: active_premium_def Let_def split: sum.splits)

subsection \<open>The loops of \<^verbatim>\<open>relative_returns\<close> as one fold over the pairs\<close>

lemma column_name_idem: "column_name p (column_name p c) = column_name p c"
  by (cases c) (simp_all add: column_name_def)

lemma relative_row_fold:
  "snd (relative_row prefixes a items (ca, res)) =
   foldl (\<lambda>res (cb, b). merge_frame res (pair_name (column_name (fst prefixes) ca)
                                              (column_name (snd prefixes) cb)) (pair_ratio a b))
     res items"
proof (induction items arbitrary: ca res)
  case Nil
  then show ?case by simp
next
  case (Cons item items)
  obtain cb b where item: "item = (cb, b)" by (cases item)
  show ?case
    by (simp add: item Let_def Cons.IH column_name_idem pair_ratio_def)
qed

lemma foldl_pairs_map:
  "foldl (\<lambda>res (cb, b). merge_frame res (f cb) (g b)) res items =
   foldl (\<lambda>res (nm, rel). merge_frame res nm rel) res (map (\<lambda>(cb, b). (f cb, g b)) items)"
  by (induction items arbitrary: res) (simp_all add: case_prod_unfold)

lemma relative_table_fold:
  "relative_table prefixes rb_items ra_items res =
   foldl (\<lambda>res (nm, rel). merge_frame res nm rel) res (pair_list prefixes ra_items rb_items)"
proof (induction ra_items arbitrary: res)
  case Nil
  then show ?case by (simp add: pair_list_def)
next
  case (Cons item items)
  obtain ca a where item: "item = (ca, a)" by (cases item)
  have pl: "pair_list prefixes (item # items) rb_items =
            map (\<lambda>(cb, b). (pair_name (column_name (fst prefixes) ca) (column_name (snd prefixes) cb),
                             pair_ratio a b)) rb_items
            @ pair_list prefixes items rb_items"
    by (simp add: pair_list_def item)
  show ?case
    unfolding pl foldl_append
    by (simp add: item Cons.IH relative_row_fold
        foldl_pairs_map [of "\<lambda>cb. pair_name (column_name (fst prefixes) ca) (column_name (snd prefixes) cb)"
          "\<lambda>b. pair_ratio a b"])
qed

lemma merge_frame_labels:
  "name \<notin> set (map fst cols) \<Longrightarrow>
   \<exists>idx' cols'. merge_frame (DataFrame idx cols) name rel = DataFrame idx' cols' \<and>
                map fst cols' = map fst cols @ [name]"
proof -
  assume n: "name \<notin> set (map fst cols)"
  then have "map (\<lambda>(c, vs). (if c = name then suffixed c ''_x'' else c, h vs)) cols
             = map (\<lambda>(c, vs). (c, h vs)) cols" for h :: "pyfloat list \<Rightarrow> pyfloat list"
    by (induction cols) auto
  then show ?thesis using n
    by (simp add: Let_def comp_def case_prod_unfold)
qed

lemma fold_merge_labels:
  "distinct (map fst cols @ map fst pairs) \<Longrightarrow>
   \<exists>idx' cols'. foldl (\<lambda>res (nm, rel). merge_frame res nm rel) (DataFrame idx cols) pairs
                  = DataFrame idx' cols' \<and>
                map fst cols' = map fst cols @ map fst pairs"
proof (induction pairs arbitrary: idx cols)
  case Nil
  then show ?case by simp
next
  case (Cons pair pairs)
  obtain nm rel where pair: "pair = (nm, rel)" by (cases pair)
  from Cons.prems have n: "nm \<notin> set (map fst cols)" by (auto simp: pair)
  from merge_frame_labels [OF n, of idx rel] obtain idx1 cols1
    where m: "merge_frame (DataFrame idx cols) nm rel = DataFrame idx1 cols1"
      and l: "map fst cols1 = map fst cols @ [nm]" by blast
  from Cons.prems have "distinct (map fst cols1 @ map fst pairs)"
    by (auto simp: l pair)
  from Cons.IH [OF this, of idx1] show ?case
    by (simp add: pair m l del: merge_frame.simps)
qed

subsection \<open>The names of the pair columns\<close>

lemma to_frame_is_frame: "\<exists>idx cols. to_frame r p = DataFrame idx cols"
  by (cases r) simp_all

lemma pair_list_names:
  "map fst (pair_list prefixes (iteritems (DataFrame idxa colsa)) (iteritems (DataFrame idxb colsb)))
   = pair_names prefixes (map fst colsa) (map fst colsb)"
  by (simp add: pair_list_def pair_names_def map_concat comp_def case_prod_unfold)

lemma relative_returns_labels:
  assumes "to_frame ra (fst prefixes) = DataFrame idxa colsa"
    and "to_frame rb (snd prefixes) = DataFrame idxb colsb"
    and "distinct (pair_names prefixes (map fst colsa) (map fst colsb))"
  shows "labels_of (relative_returns ra rb prefixes)
         = pair_names prefixes (map fst colsa) (map fst colsb)"
proof -
  define pairs where
    "pairs = pair_list prefixes (iteritems (DataFrame idxa colsa)) (iteritems (DataFrame idxb colsb))"
  have names: "map fst pairs = pair_names prefixes (map fst colsa) (map fst colsb)"
    unfolding pairs_def by (rule pair_list_names)
  with assms(3) have "distinct (map fst ([] :: (label \<times> pyfloat list) list) @ map fst pairs)"
    by simp
  from fold_merge_labels [OF this, of "[]"] obtain idx' cols'
    where f: "foldl (\<lambda>res (nm, rel). merge_frame res nm rel) (DataFrame [] []) pairs
              = DataFrame idx' cols'"
      and l: "map fst cols' = map fst pairs" by auto
  have r: "relative_returns ra rb prefixes =
           (if length cols' = 1 then first_column (DataFrame idx' cols') else DataFrame idx' cols')"
    unfolding relative_returns_def Let_def assms(1,2) relative_table_fold pairs_def [symmetric] f
    by simp
  show ?thesis
  proof (cases "length cols' = 1")
    case True
    then obtain c vs where "cols' = [(c, vs)]"
      by (cases cols') auto
    with r l names show ?thesis by simp
  next
    case False
    with r l names show ?thesis by simp
  qed
qed

subsection \<open>The loops of \<^verbatim>\<open>active_premium\<close>\<close>

lemma premium_row_keys:
  "premium_row frequency freq geometric p a items acc = Inr premium \<Longrightarrow>
   distinct (map fst acc @ map (\<lambda>item. column_name p (fst item)) items) \<Longrightarrow>
   map fst premium = map fst acc @ map (\<lambda>item. column_name p (fst item)) items"
proof (induction items arbitrary: acc)
  case Nil
  then show ?case by simp
next
  case (Cons item items)
  obtain cb b where item: "item = (cb, b)" by (cases item)
  from Cons.prems(1) obtain x y where
    step: "premium_row frequency freq geometric p a items
             (AList.update (column_name p cb) (the_scalar (ann_op fl_sub x y)) acc) = Inr premium"
    by (auto simp: item Let_def split: sum.splits)
  from Cons.prems(2) have nin: "column_name p cb \<notin> set (map fst acc)"
    by (auto simp: item)
  have k: "map fst (AList.update (column_name p cb) (the_scalar (ann_op fl_sub x y)) acc)
           = map fst acc @ [column_name p cb]"
    using nin by (simp add: AList.update_keys)
  from Cons.prems(2) have "distinct (map fst (AList.update (column_name p cb)
      (the_scalar (ann_op fl_sub x y)) acc) @ map (\<lambda>item. column_name p (fst item)) items)"
    by (simp add: k item)
  from Cons.IH [OF step this] show ?case by (simp add: k item)
qed

lemma set_column_result:
  assumes "idx = map fst series \<or> (idx = [] \<and> cols = [])" and "c \<notin> set (map fst cols)"
  shows "\<exists>cols'. set_column (DataFrame idx cols) c series = DataFrame (map fst series) cols' \<and>
                 map fst cols' = map fst cols @ [c]"
proof (cases "idx = [] \<and> series \<noteq> []")
  case True
  have "map fst (map (\<lambda>(k, vs). (k, replicate (length series) NaN)) cols) = map fst cols"
    by (simp add: comp_def case_prod_unfold)
  with True assms(2) show ?thesis
    by (simp add: AList.update_keys)
next
  case False
  with assms(1) have "idx = map fst series" by auto
  with False assms(2) show ?thesis
    by (auto simp: AList.update_keys)
qed

lemma premium_table_labels:
  assumes "premium_table frequency freq geometric prefixes rb_items ra_items (DataFrame idx cols)
           = Inr res"
    and "distinct (map (\<lambda>item. column_name (snd prefixes) (fst item)) rb_items)"
    and "distinct (map fst cols @ map (\<lambda>item. column_name (fst prefixes) (fst item)) ra_items)"
    and "idx = map (\<lambda>item. column_name (snd prefixes) (fst item)) rb_items \<or> (idx = [] \<and> cols = [])"
  shows "labels_of res = map fst cols @ map (\<lambda>item. column_name (fst prefixes) (fst item)) ra_items \<and>
         (ra_items \<noteq> [] \<longrightarrow>
            index_of res = map (\<lambda>item. column_name (snd prefixes) (fst item)) rb_items)"
  using assms
proof (induction ra_items arbitrary: idx cols)
  case Nil
  then show ?case by auto
next
  case (Cons item items)
  obtain ca a where item: "item = (ca, a)" by (cases item)
  define K where "K = map (\<lambda>item. column_name (snd prefixes) (fst item)) rb_items"
  from Cons.prems(1) obtain premium where
    row: "premium_row frequency freq geometric (snd prefixes) a rb_items [] = Inr premium"
    and rest: "premium_table frequency freq geometric prefixes rb_items items
                 (set_column (DataFrame idx cols) (column_name (fst prefixes) ca) premium) = Inr res"
    by (auto simp: item Let_def split: sum.splits)
  from premium_row_keys [OF row] Cons.prems(2) have keys: "map fst premium = K"
    by (simp add: K_def)
  from Cons.prems(3) have nin: "column_name (fst prefixes) ca \<notin> set (map fst cols)"
    by (auto simp: item)
  from Cons.prems(4) have "idx = map fst premium \<or> (idx = [] \<and> cols = [])"
    by (simp add: keys K_def)
  from set_column_result [OF this nin] obtain cols' where
    sc: "set_column (DataFrame idx cols) (column_name (fst prefixes) ca) premium = DataFrame K cols'"
    and l: "map fst cols' = map fst cols @ [column_name (fst prefixes) ca]"
    by (auto simp: keys)
  from Cons.prems(3) have d: "distinct (map fst cols' @
      map (\<lambda>item. column_name (fst prefixes) (fst item)) items)"
    by (simp add: l item)
  have i: "K = map (\<lambda>item. column_name (snd prefixes) (fst item)) rb_items \<or> (K = [] \<and> cols' = [])"
    by (simp add: K_def)
  from Cons.IH [OF rest [unfolded sc] Cons.prems(2) d i]
  have labels: "labels_of res = map fst cols' @ map (\<lambda>item. column_name (fst prefixes) (fst item)) items"
    and index: "items \<noteq> [] \<longrightarrow> index_of res = K"
    by (simp_all add: K_def)
  have "index_of res = K"
  proof (cases items)
    case Nil
    with rest sc show ?thesis by simp
  next
    case (Cons i more)
    with index show ?thesis by simp
  qed
  with labels show ?case by (simp add: l item K_def)
qed

subsection \<open>Evaluating the samples\<close>

lemma freq_to_scale_yearly: "freq_to_scale (Some ''yearly'') = Inr 1"
  by (simp add: freq_to_scale_def py_str_def lower_def lower_char_def)

lemma annualize_one_yearly:
  assumes "- 1 \<le> x"
  shows "annualized_returns frequency (Series nm [(t, Fin x)]) (Some ''yearly'') True
         = Inr (Scalar (Fin x))"
proof -
  have r: "\<forall>v\<in>set (map snd [(t, Fin x)]). is_return v \<and> notna v"
    using assms by (simp add: is_return_def notna_def)
  have "geometric_formula 1 1 [x] = x"
    using assms by (simp add: geometric_formula_def powr_one)
  with annualized_series_geometric [OF freq_to_scale_yearly _ r, of frequency nm]
  show ?thesis by simp
qed

lemma show_int_digits: "show_int 0 = ''0''" "show_int 5 = ''5''"
  by code_simp+

lemma iteritems_names:
  "map (\<lambda>item. column_name p (fst item)) (iteritems (DataFrame idx cols))
   = map (column_name p) (map fst cols)"
  by (simp add: comp_def case_prod_unfold)

lemma active_premium_labels:
  assumes "active_premium frequency ra rb freq geometric prefixes = Inr res"
    and "las = labels_of (to_frame ra (fst prefixes))"
    and "lbs = labels_of (to_frame rb (snd prefixes))"
    and "las \<noteq> []"
    and "distinct (map (column_name (fst prefixes)) las)"
    and "distinct (map (column_name (snd prefixes)) lbs)"
  shows "labels_of res = map (column_name (fst prefixes)) las \<and>
         index_of res = map (column_name (snd prefixes)) lbs"
proof -
  from to_frame_is_frame obtain idxa colsa
    where a: "to_frame ra (fst prefixes) = DataFrame idxa colsa" by blast
  from to_frame_is_frame obtain idxb colsb
    where b: "to_frame rb (snd prefixes) = DataFrame idxb colsb" by blast
  have la: "las = map fst colsa" and lb: "lbs = map fst colsb"
    by (simp_all add: assms(2,3) a b)
  from assms(1) obtain f where
    t: "premium_table frequency f geometric prefixes (iteritems (DataFrame idxb colsb))
          (iteritems (DataFrame idxa colsa)) (DataFrame [] []) = Inr res"
    unfolding active_premium_def Let_def a b
    by (auto split: sum.splits)
  have d1: "distinct (map (\<lambda>item. column_name (snd prefixes) (fst item))
              (iteritems (DataFrame idxb colsb)))"
    unfolding iteritems_names using assms(6) by (simp add: lb)
  have d2: "distinct (map fst ([] :: (label \<times> pyfloat list) list) @
              map (\<lambda>item. column_name (fst prefixes) (fst item)) (iteritems (DataFrame idxa colsa)))"
    unfolding iteritems_names using assms(5) by (simp add: la)
  have ne: "iteritems (DataFrame idxa colsa) \<noteq> []"
    using assms(4) by (simp add: la)
  from premium_table_labels [OF t d1 d2] ne
  show ?thesis
    unfolding iteritems_names by (simp add: la lb)
qed

subsection \<open>The names of the columns, read off the inputs\<close>

lemma output_names_to_frame:
  assumes "\<not> falsy_name r"
  shows "map (column_name p) (labels_of (to_frame r p)) = output_names p r"
proof (cases r)
  case (DataFrame idx cols)
  then show ?thesis
    by (simp add: column_name_def synthesized_def comp_def case_prod_unfold)
next
  case (Series nm rows)
  show ?thesis
  proof (cases nm)
    case None
    with Series show ?thesis by (simp add: name_or_def column_name_def)
  next
    case (Some c)
    with Series assms show ?thesis
      by (cases c) (simp_all add: name_or_def column_name_def synthesized_def)
  qed
qed

lemma pair_names_joined:
  "pair_names prefixes las lbs
   = joined_names (map (column_name (fst prefixes)) las) (map (column_name (snd prefixes)) lbs)"
  by (simp add: pair_names_def joined_names_def pair_name_def comp_def)

subsection \<open>The ratio series of one pair\<close>

lemma select_map: "select (map P xs) (map f xs) = map f (filter P xs)"
  by (induction xs) (simp_all add: select_def)

lemma complete_rows_two:
  "complete_rows keys [(c1, map f keys), (c2, map g keys)]
   = map (\<lambda>t. notna (f t) \<and> notna (g t)) keys"
  by (induction keys) (simp_all add: complete_rows_def)

lemma dropna_merged:
  "dropna (DataFrame keys [(c1, map f keys), (c2, map g keys)]) =
   (let ts = filter (\<lambda>t. notna (f t) \<and> notna (g t)) keys
    in DataFrame ts [(c1, map f ts), (c2, map g ts)])"
proof -
  have i: "select (map (\<lambda>t. notna (f t) \<and> notna (g t)) keys) keys
           = filter (\<lambda>t. notna (f t) \<and> notna (g t)) keys"
    using select_map [of "\<lambda>t. notna (f t) \<and> notna (g t)" keys "\<lambda>t. t"] by simp
  show ?thesis
    by (simp add: Let_def complete_rows_two select_map i)
qed

lemma notna_add: "notna v \<Longrightarrow> notna (fl_add v (Fin 1))"
  by (cases v) (simp_all add: notna_def)

lemma cumprod_from_prefixes:
  "\<forall>v\<in>set vs. notna v \<Longrightarrow>
   cumprod_from acc vs = map (\<lambda>k. foldl fl_mul acc (take (Suc k) vs)) [0..<length vs]"
proof (induction vs arbitrary: acc)
  case Nil
  then show ?case by simp
next
  case (Cons v vs)
  have "[0..<length (v # vs)] = 0 # map Suc [0..<length vs]"
    by (simp add: upt_conv_Cons map_Suc_upt del: upt_Suc)
  then have "map (\<lambda>k. foldl fl_mul acc (take (Suc k) (v # vs))) [0..<length (v # vs)]
             = fl_mul acc v # map (\<lambda>k. foldl fl_mul (fl_mul acc v) (take (Suc k) vs)) [0..<length vs]"
    by (simp add: comp_def del: upt_Suc)
  with Cons show ?case by simp
qed

lemma join_index_set: "set (join_index xs ys) = set xs \<union> set ys"
  by (auto simp: join_index_def)

lemma join_index_Nil: "join_index [] ys = ys"
  by (auto simp: join_index_def)

lemma join_index_ascending:
  assumes "sorted xs" and "distinct xs" and "sorted ys" and "distinct ys"
  shows "join_index xs ys = sort (remdups (xs @ ys))"
proof -
  have u: "sorted zs \<Longrightarrow> distinct zs \<Longrightarrow> set zs = set (xs @ ys) \<Longrightarrow> zs = sort (remdups (xs @ ys))"
    for zs :: "timestamp list"
    by (rule sorted_distinct_set_unique) simp_all
  show ?thesis
  proof (cases "xs = ys \<or> ys = []")
    case True
    then have "join_index xs ys = xs" by (simp add: join_index_def)
    moreover from True have "set xs = set (xs @ ys)" by auto
    ultimately show ?thesis using u [OF assms(1,2)] by simp
  next
    case False
    show ?thesis
    proof (cases "xs = []")
      case True
      with False have "join_index xs ys = ys" by (simp add: join_index_def)
      moreover from True have "set ys = set (xs @ ys)" by simp
      ultimately show ?thesis using u [OF assms(3,4)] by simp
    next
      case n: False
      with False show ?thesis by (simp add: join_index_def)
    qed
  qed
qed

lemma pair_ratio_spec:
  assumes "sorted (map fst rowsa)" and "distinct (map fst rowsa)"
    and "sorted (map fst rowsb)" and "distinct (map fst rowsb)"
  shows "pair_ratio (Series (Some ca) rowsa) (Series (Some cb) rowsb) = relative_spec rowsa rowsb"
proof -
  note j = join_index_ascending [OF assms]
  define ts where "ts = common_times rowsa rowsb"
  define ga where "ga = map (\<lambda>t. fl_add (value_at rowsa t) (Fin 1)) ts"
  define gb where "gb = map (\<lambda>t. fl_add (value_at rowsb t) (Fin 1)) ts"
  have pa: "\<forall>v\<in>set ga. notna v" and pb: "\<forall>v\<in>set gb. notna v"
    by (auto simp: ga_def gb_def ts_def common_times_def intro: notna_add)
  have la: "length ga = length ts" and lb: "length gb = length ts"
    by (simp_all add: ga_def gb_def)
  have "pair_ratio (Series (Some ca) rowsa) (Series (Some cb) rowsb)
        = zip ts (map2 fl_div (cumprod_list ga) (cumprod_list gb))"
    unfolding pair_ratio_def merge_series.simps j Let_def dropna_merged
    by (simp add: ts_def common_times_def ga_def gb_def comp_def)
  also have "\<dots> = zip ts (map2 fl_div
        (map (\<lambda>k. foldl fl_mul (Fin 1) (take (Suc k) ga)) [0..<length ts])
        (map (\<lambda>k. foldl fl_mul (Fin 1) (take (Suc k) gb)) [0..<length ts]))"
    by (simp add: cumprod_list_def cumprod_from_prefixes [OF pa] cumprod_from_prefixes [OF pb] la lb)
  also have "\<dots> = map (\<lambda>k. (ts ! k, fl_div (foldl fl_mul (Fin 1) (take (Suc k) ga))
                                         (foldl fl_mul (Fin 1) (take (Suc k) gb))))
                    [0..<length ts]"
    by (rule nth_equalityI) simp_all
  also have "\<dots> = relative_spec rowsa rowsb"
    unfolding relative_spec_def Let_def ts_def [symmetric] growth_def ga_def gb_def
    by (simp add: take_map)
  finally show ?thesis .
qed

subsection \<open>The pair columns in the merged table\<close>

lemma value_at_outside: "t \<notin> fst ` set rows \<Longrightarrow> value_at rows t = NaN"
  by (simp add: value_at_def map_of_eq_None_iff [THEN iffD2])

lemma value_at_reindexed:
  "value_at (zip keys (map (value_at rows) keys)) t = (if t \<in> set keys then value_at rows t else NaN)"
  by (simp add: value_at_def map_of_zip_map)

lemma value_at_reindexed_super:
  "fst ` set rows \<subseteq> set keys \<Longrightarrow> value_at (zip keys (map (value_at rows) keys)) t = value_at rows t"
proof (cases "t \<in> set keys")
  case True
  then show ?thesis by (simp add: value_at_reindexed)
next
  case False
  assume "fst ` set rows \<subseteq> set keys"
  with False have "t \<notin> fst ` set rows" by blast
  from value_at_outside [OF this] False show ?thesis by (simp add: value_at_reindexed)
qed

lemma merge_frame_values:
  obtains cols' where
    "merge_frame (DataFrame idx cols) name rel
       = DataFrame (join_index idx (map fst rel)) cols'"
    "length cols' = Suc (length cols)"
    "\<And>k t. k < length cols \<Longrightarrow>
        value_at (zip (join_index idx (map fst rel)) (snd (cols' ! k))) t
        = value_at (zip idx (snd (cols ! k))) t"
    "\<And>t. value_at (zip (join_index idx (map fst rel)) (snd (cols' ! length cols))) t
        = value_at rel t"
proof -
  define keys where "keys = join_index idx (map fst rel)"
  define old where "old = map (\<lambda>(c, vs). (if c = name then suffixed c ''_x'' else c,
                             map (value_at (zip idx vs)) keys)) cols"
  define new where "new = (if name \<in> set (map fst cols) then suffixed name ''_y'' else name,
                           map (value_at rel) keys)"
  have sk: "set keys = set idx \<union> fst ` set rel" by (simp add: keys_def join_index_set)
  have m: "merge_frame (DataFrame idx cols) name rel = DataFrame keys (old @ [new])"
    by (simp add: Let_def keys_def old_def new_def)
  have l: "length (old @ [new]) = Suc (length cols)" by (simp add: old_def)
  have o: "value_at (zip keys (snd ((old @ [new]) ! k))) t = value_at (zip idx (snd (cols ! k))) t"
    if "k < length cols" for k t
  proof -
    have "snd ((old @ [new]) ! k) = map (value_at (zip idx (snd (cols ! k)))) keys"
      using that by (simp add: old_def nth_append case_prod_unfold)
    moreover have "fst ` set (zip idx (snd (cols ! k))) \<subseteq> set keys"
      by (auto simp: sk dest: set_zip_leftD)
    ultimately show ?thesis by (simp add: value_at_reindexed_super)
  qed
  have n: "value_at (zip keys (snd ((old @ [new]) ! length cols))) t = value_at rel t" for t
  proof -
    have "snd ((old @ [new]) ! length cols) = map (value_at rel) keys"
      by (simp add: old_def new_def nth_append)
    moreover have "fst ` set rel \<subseteq> set keys" by (auto simp: sk)
    ultimately show ?thesis by (simp add: value_at_reindexed_super)
  qed
  from that [OF m [unfolded keys_def] l o [unfolded keys_def] n [unfolded keys_def]]
  show ?thesis .
qed

lemma fold_merge_values:
  "\<exists>idx' cols'.
     foldl (\<lambda>res (nm, rel). merge_frame res nm rel) (DataFrame idx cols) pairs = DataFrame idx' cols' \<and>
     length cols' = length cols + length pairs \<and>
     (\<forall>k<length cols. \<forall>t. value_at (zip idx' (snd (cols' ! k))) t
                            = value_at (zip idx (snd (cols ! k))) t) \<and>
     (\<forall>k<length pairs. \<forall>t. value_at (zip idx' (snd (cols' ! (length cols + k)))) t
                             = value_at (snd (pairs ! k)) t)"
proof (induction pairs arbitrary: idx cols)
  case Nil
  then show ?case by simp
next
  case (Cons pair pairs)
  obtain nm rel where pair: "pair = (nm, rel)" by (cases pair)
  obtain idx1 cols1 where
    m: "merge_frame (DataFrame idx cols) nm rel = DataFrame idx1 cols1"
    and l1: "length cols1 = Suc (length cols)"
    and o1: "\<And>k t. k < length cols \<Longrightarrow>
               value_at (zip idx1 (snd (cols1 ! k))) t = value_at (zip idx (snd (cols ! k))) t"
    and n1: "\<And>t. value_at (zip idx1 (snd (cols1 ! length cols))) t = value_at rel t"
    by (rule merge_frame_values [of idx cols nm rel]) blast
  from Cons.IH [of idx1 cols1] obtain idx' cols' where
    f: "foldl (\<lambda>res (nm, rel). merge_frame res nm rel) (DataFrame idx1 cols1) pairs
        = DataFrame idx' cols'"
    and l: "length cols' = length cols1 + length pairs"
    and o: "\<forall>k<length cols1. \<forall>t. value_at (zip idx' (snd (cols' ! k))) t
                                 = value_at (zip idx1 (snd (cols1 ! k))) t"
    and n: "\<forall>k<length pairs. \<forall>t. value_at (zip idx' (snd (cols' ! (length cols1 + k)))) t
                                 = value_at (snd (pairs ! k)) t"
    by blast
  have 1: "foldl (\<lambda>res (nm, rel). merge_frame res nm rel) (DataFrame idx cols) (pair # pairs)
           = DataFrame idx' cols'"
    by (simp add: pair m f del: merge_frame.simps)
  have 2: "length cols' = length cols + length (pair # pairs)"
    by (simp add: l l1)
  have 3: "value_at (zip idx' (snd (cols' ! k))) t = value_at (zip idx (snd (cols ! k))) t"
    if "k < length cols" for k t
    using o o1 that by (simp add: l1)
  have 4: "value_at (zip idx' (snd (cols' ! (length cols + k)))) t
           = value_at (snd ((pair # pairs) ! k)) t"
    if "k < length (pair # pairs)" for k t
  proof (cases k)
    case 0
    then show ?thesis using o n1 by (simp add: l1 pair)
  next
    case (Suc k')
    with that have "k' < length pairs" by simp
    with n show ?thesis by (simp add: Suc l1)
  qed
  from 1 2 3 4 show ?case by blast
qed

lemma nth_concat_rows:
  "\<forall>x\<in>set xs. length (f x) = n \<Longrightarrow> i < length xs \<Longrightarrow> j < n \<Longrightarrow>
   concat (map f xs) ! (i * n + j) = f (xs ! i) ! j"
proof (induction xs arbitrary: i)
  case Nil
  then show ?case by simp
next
  case (Cons x xs)
  show ?case
  proof (cases i)
    case 0
    with Cons.prems show ?thesis by (simp add: nth_append)
  next
    case (Suc i')
    with Cons.prems have "concat (map f xs) ! (i' * n + j) = f (xs ! i') ! j"
      by (intro Cons.IH) auto
    moreover have "length (f x) = n" using Cons.prems(1) by simp
    ultimately show ?thesis
      by (simp add: Suc nth_append)
  qed
qed

lemma length_concat_rows:
  "\<forall>x\<in>set xs. length (f x) = n \<Longrightarrow> length (concat (map f xs)) = length xs * n"
  by (induction xs) simp_all

lemma pair_list_length:
  "length (pair_list prefixes (iteritems (DataFrame idxa colsa)) (iteritems (DataFrame idxb colsb)))
   = length colsa * length colsb"
  unfolding pair_list_def
  by (subst length_concat_rows [where n = "length colsb"]) (auto simp: case_prod_unfold)

lemma ascending_rows:
  assumes "sorted idx" and "distinct idx"
  shows "sorted (map fst (zip idx vs))" and "distinct (map fst (zip idx vs))"
  using assms by (simp_all add: map_fst_zip_take sorted_wrt_take)

lemma pair_list_nth:
  assumes "i < length colsa" and "j < length colsb"
    and "sorted idxa" and "distinct idxa" and "sorted idxb" and "distinct idxb"
  shows "snd (pair_list prefixes (iteritems (DataFrame idxa colsa)) (iteritems (DataFrame idxb colsb))
              ! (i * length colsb + j))
         = relative_spec (zip idxa (snd (colsa ! i))) (zip idxb (snd (colsb ! j)))"
proof -
  define f where "f = (\<lambda>(ca, a). map (\<lambda>(cb, b). (pair_name (column_name (fst prefixes) ca)
                                                 (column_name (snd prefixes) cb),
                                               pair_ratio a b)) (iteritems (DataFrame idxb colsb)))"
  have len: "\<forall>x\<in>set (iteritems (DataFrame idxa colsa)). length (f x) = length colsb"
    by (auto simp: f_def case_prod_unfold)
  have i: "i < length (iteritems (DataFrame idxa colsa))" using assms(1) by simp
  have "pair_list prefixes (iteritems (DataFrame idxa colsa)) (iteritems (DataFrame idxb colsb))
          ! (i * length colsb + j)
        = f (iteritems (DataFrame idxa colsa) ! i) ! j"
    unfolding pair_list_def f_def [symmetric]
    by (rule nth_concat_rows [OF len i assms(2)])
  also have "snd \<dots> = pair_ratio (Series (Some (fst (colsa ! i))) (zip idxa (snd (colsa ! i))))
                                  (Series (Some (fst (colsb ! j))) (zip idxb (snd (colsb ! j))))"
    using assms(1,2) by (simp add: f_def case_prod_unfold)
  also have "\<dots> = relative_spec (zip idxa (snd (colsa ! i))) (zip idxb (snd (colsb ! j)))"
    by (intro pair_ratio_spec ascending_rows assms(3-6))
  finally show ?thesis .
qed

lemma relative_returns_columns:
  assumes "to_frame ra (fst prefixes) = DataFrame idxa colsa"
    and "to_frame rb (snd prefixes) = DataFrame idxb colsb"
    and "i < length colsa" and "j < length colsb"
    and "sorted idxa" and "distinct idxa" and "sorted idxb" and "distinct idxb"
  shows "value_at (column_rows (relative_returns ra rb prefixes) (i * length colsb + j)) t
         = value_at (relative_spec (zip idxa (snd (colsa ! i))) (zip idxb (snd (colsb ! j)))) t"
proof -
  define pairs where
    "pairs = pair_list prefixes (iteritems (DataFrame idxa colsa)) (iteritems (DataFrame idxb colsb))"
  define k where "k = i * length colsb + j"
  have lp: "length pairs = length colsa * length colsb"
    unfolding pairs_def by (rule pair_list_length)
  have "i * length colsb + j < i * length colsb + length colsb" using assms(4) by simp
  also have "\<dots> = Suc i * length colsb" by simp
  also have "\<dots> \<le> length colsa * length colsb"
    using assms(3) by (intro mult_le_mono1) simp
  finally have kl: "k < length pairs" by (simp add: k_def lp)
  from fold_merge_values [of "[]" "[]" pairs] obtain idx' cols' where
    f: "foldl (\<lambda>res (nm, rel). merge_frame res nm rel) (DataFrame [] []) pairs = DataFrame idx' cols'"
    and l: "length cols' = length pairs"
    and v: "\<forall>k<length pairs. \<forall>t. value_at (zip idx' (snd (cols' ! k))) t
                                  = value_at (snd (pairs ! k)) t"
    by auto
  have r: "relative_returns ra rb prefixes =
           (if length cols' = 1 then first_column (DataFrame idx' cols') else DataFrame idx' cols')"
    unfolding relative_returns_def Let_def assms(1,2) relative_table_fold pairs_def [symmetric] f
    by simp
  have "column_rows (relative_returns ra rb prefixes) k = zip idx' (snd (cols' ! k))"
  proof (cases "length cols' = 1")
    case True
    then obtain c vs where c: "cols' = [(c, vs)]" by (cases cols') auto
    with kl l have "k = 0" by simp
    with r c show ?thesis by simp
  next
    case False
    with r show ?thesis by simp
  qed
  with v kl have "value_at (column_rows (relative_returns ra rb prefixes) k) t
                  = value_at (snd (pairs ! k)) t"
    by simp
  then show ?thesis
    unfolding k_def pairs_def pair_list_nth [OF assms(3-8)] .
qed

lemma value_at_present: "notna (value_at rows t) \<Longrightarrow> t \<in> fst ` set rows"
  using value_at_outside [of t rows] by (auto simp: notna_def)

lemma common_times_set:
  "set (common_times rowsa rowsb) = {t. notna (value_at rowsa t) \<and> notna (value_at rowsb t)}"
  by (auto simp: common_times_def dest: value_at_present)

lemma common_times_sorted: "sorted (common_times rowsa rowsb) \<and> distinct (common_times rowsa rowsb)"
  by (simp add: common_times_def sorted_wrt_filter)

lemma relative_spec_times: "map fst (relative_spec rowsa rowsb) = common_times rowsa rowsb"
  by (simp add: relative_spec_def Let_def comp_def map_nth)

lemma relative_spec_nth:
  "k < length (common_times rowsa rowsb) \<Longrightarrow>
   relative_spec rowsa rowsb ! k =
     (common_times rowsa rowsb ! k,
      fl_div (growth rowsa (take (Suc k) (common_times rowsa rowsb)))
             (growth rowsb (take (Suc k) (common_times rowsa rowsb))))"
  by (simp add: relative_spec_def Let_def)

lemma growth_real:
  assumes "\<forall>t\<in>set ts. \<exists>x. value_at rows t = Fin x"
  shows "growth rows ts = Fin (\<Prod>t\<leftarrow>ts. 1 + real_of (value_at rows t))"
proof -
  have "map (\<lambda>t. fl_add (value_at rows t) (Fin 1)) ts
        = map Fin (map (\<lambda>t. 1 + real_of (value_at rows t)) ts)"
    using assms by (induction ts) (auto simp: add.commute)
  then show ?thesis
    unfolding growth_def by (simp only: foldl_mul_Fin mult_1)
qed

lemma value_at_own_keys:
  assumes "distinct (map fst rows)"
  shows "map (value_at rows) (map fst rows) = map snd rows"
proof (rule nth_equalityI)
  show "length (map (value_at rows) (map fst rows)) = length (map snd rows)" by simp
next
  fix k assume "k < length (map (value_at rows) (map fst rows))"
  then have k: "k < length rows" by simp
  then have "(fst (rows ! k), snd (rows ! k)) \<in> set rows" by simp
  with assms have "map_of rows (fst (rows ! k)) = Some (snd (rows ! k))"
    by (intro map_of_is_SomeI)
  with k show "map (value_at rows) (map fst rows) ! k = map snd rows ! k"
    by (simp add: value_at_def)
qed

lemma merge_into_empty:
  assumes "distinct (map fst rel)"
  shows "merge_frame (DataFrame [] []) name rel = DataFrame (map fst rel) [(name, map snd rel)]"
  unfolding merge_frame.simps Let_def
  by (simp only: append_Nil join_index_Nil value_at_own_keys [OF assms] list.map list.set
      empty_iff if_False)

lemma relative_returns_one_pair:
  assumes "to_frame ra (fst prefixes) = DataFrame idxa [(ca, va)]"
    and "to_frame rb (snd prefixes) = DataFrame idxb [(cb, vb)]"
    and "sorted idxa" and "distinct idxa" and "sorted idxb" and "distinct idxb"
  shows "relative_returns ra rb prefixes =
         Series (Some (pair_name (column_name (fst prefixes) ca) (column_name (snd prefixes) cb)))
           (relative_spec (zip idxa va) (zip idxb vb))"
proof -
  let ?rel = "relative_spec (zip idxa va) (zip idxb vb)"
  let ?name = "pair_name (column_name (fst prefixes) ca) (column_name (snd prefixes) cb)"
  have d: "distinct (map fst ?rel)"
    unfolding relative_spec_times using common_times_sorted by blast
  note m = merge_into_empty [OF d, of ?name]
  have p: "pair_ratio (Series (Some ca) (zip idxa va)) (Series (Some cb) (zip idxb vb)) = ?rel"
    by (intro pair_ratio_spec ascending_rows assms(3-6))
  have "relative_table prefixes (iteritems (DataFrame idxb [(cb, vb)]))
          (iteritems (DataFrame idxa [(ca, va)])) (DataFrame [] [])
        = merge_frame (DataFrame [] []) ?name ?rel"
    unfolding relative_table_fold
    by (simp add: pair_list_def p del: merge_frame.simps)
  then show ?thesis
    unfolding relative_returns_def Let_def assms(1,2) m
    by (simp add: zip_map_fst_snd)
qed

lemma first_ratio_one:
  assumes "common_times rowsa rowsb \<noteq> []"
    and "value_at rowsa (hd (common_times rowsa rowsb)) = Fin 0"
    and "value_at rowsb (hd (common_times rowsa rowsb)) = Fin 0"
  shows "relative_spec rowsa rowsb ! 0 = (hd (common_times rowsa rowsb), Fin 1)"
proof -
  from assms(1) obtain t rest where ts: "common_times rowsa rowsb = t # rest"
    by (cases "common_times rowsa rowsb") auto
  have "0 < length (common_times rowsa rowsb)" by (simp add: ts)
  from relative_spec_nth [OF this] assms(2,3) show ?thesis
    by (simp add: ts growth_def)
qed

subsection \<open>The ratio series of the samples\<close>

lemma days_le: "days a \<le> days b \<longleftrightarrow> a \<le> b"
  by (simp add: days_def ns_per_day_def)

lemma flat_start_spec:
  "relative_spec (zip [days 0, days 1] [Fin 0, Fin 0.1]) (zip [days 0, days 1] [Fin 0, Fin 0.21])
   = [(days 0, Fin 1), (days 1, Fin (1.1 / 1.21))]"
  by (simp add: relative_spec_def common_times_def value_at_def notna_def growth_def
      days_inj days_le Let_def upt_conv_Cons)

lemma sparse_spec:
  "relative_spec (zip [days 0, days 1, days 2] [Fin 0.2, Fin 0.5, Fin 0])
                 (zip [days 0, days 2, days 3] [Fin 0, Fin 0.1, Fin 0.2])
   = [(days 0, Fin 1.2), (days 2, Fin (12 / 11))]"
  by (simp add: relative_spec_def common_times_def value_at_def notna_def growth_def
      days_inj days_le Let_def upt_conv_Cons)


section \<open>The claims of the specification\<close>

subsection \<open>Claims about \<^verbatim>\<open>infer_frequency\<close>\<close>

text \<open>
  Claim C2. With at least 30 observations and a valid failure policy, \<^verbatim>\<open>infer_frequency\<close>
  scans daily, weekly, monthly, quarterly, semi-annually, yearly in this order and returns
  the first periodicity whose vote total exceeds \<open>0.85 * n\<close>; when none does, it raises
  \<^verbatim>\<open>TypeError\<close> (frequency not inferable) under the policy \<^verbatim>\<open>raise\<close> and returns
  \<^verbatim>\<open>None\<close> under \<^verbatim>\<open>ignore\<close>. For 300 business days it returns \<^verbatim>\<open>daily\<close>.
\<close>

theorem infer_frequency_threshold:
  "(\<forall>data fail_policy.
      30 \<le> len data \<and> lower fail_policy \<in> {''ignore'', ''raise''} \<longrightarrow>
      infer_frequency data fail_policy =
        (case find (\<lambda>p. 0.85 * real (len data) < real (gap_votes (index_of data) p)) periodicities of
           Some p \<Rightarrow> Inr (Some p)
         | None \<Rightarrow> if lower fail_policy = ''raise'' then Inl TypeError else Inr None)) \<and>
   infer_frequency (flat_series (business_days 300)) ''raise'' = Inr (Some ''daily'')"
proof (intro conjI allI impI)
  fix data :: tsdata and fail_policy
  assume a: "30 \<le> len data \<and> lower fail_policy \<in> {''ignore'', ''raise''}"
  then show "infer_frequency data fail_policy =
        (case find (\<lambda>p. 0.85 * real (len data) < real (gap_votes (index_of data) p)) periodicities of
           Some p \<Rightarrow> Inr (Some p)
         | None \<Rightarrow> if lower fail_policy = ''raise'' then Inl TypeError else Inr None)"
    using infer_frequency_large by blast
next
  note l = len_business_days [of 300]
  have "infer_frequency (flat_series (business_days 300)) ''raise'' =
        (case find (\<lambda>p. 0.85 * real (300::nat) < real (gap_votes (business_days 300) p)) periodicities of
           Some p \<Rightarrow> Inr (Some p)
         | None \<Rightarrow> if lower ''raise'' = ''raise'' then Inl TypeError else Inr None)"
    using infer_frequency_large [of "flat_series (business_days 300)" "''raise''"]
    unfolding l index_of_flat lower_raise by simp
  then show "infer_frequency (flat_series (business_days 300)) ''raise'' = Inr (Some ''daily'')"
    by (simp add: periodicities_def business_days_votes)
qed

text \<open>
  Thirty observations ten days apart give no periodicity a vote: the scan finds nothing,
  and the policy decides between the error and \<^verbatim>\<open>None\<close>.
\<close>

theorem infer_frequency_threshold_witness:
  "30 \<le> len ten_day_series \<and> lower ''raise'' \<in> {''ignore'', ''raise''} \<and>
   lower ''ignore'' \<in> {''ignore'', ''raise''} \<and>
   infer_frequency ten_day_series ''raise'' = Inl TypeError \<and>
   infer_frequency ten_day_series ''ignore'' = Inr None"
proof -
  note l = len_ten_day_series
  note g = infer_frequency_threshold [THEN conjunct1, rule_format]
  have r: "infer_frequency ten_day_series ''raise'' = Inl TypeError"
    using g [of ten_day_series "''raise''"]
    by (simp add: l lower_raise ten_day_votes periodicities_def)
  have i: "infer_frequency ten_day_series ''ignore'' = Inr None"
    using g [of ten_day_series "''ignore''"]
    by (simp add: l lower_ignore ten_day_votes periodicities_def)
  show ?thesis using r i by (simp add: l lower_raise lower_ignore)
qed

text \<open>
  Claim C3. With at least 2 and fewer than 30 observations and a valid failure policy,
  \<^verbatim>\<open>infer_frequency\<close> returns a periodicity whose membership set matches at least as many
  consecutive gaps as any other, and strictly more than every periodicity before it in
  the order daily, weekly, monthly, quarterly, semi-annually, yearly: the first of the
  largest. No threshold enters.
\<close>

theorem infer_frequency_few_observations:
  assumes "2 \<le> len data" and "len data < 30"
    and "lower fail_policy \<in> {''ignore'', ''raise''}"
  shows "\<exists>p\<in>set periodicities.
           infer_frequency data fail_policy = Inr (Some p) \<and>
           (\<forall>q\<in>set periodicities. gap_votes (index_of data) q \<le> gap_votes (index_of data) p) \<and>
           (\<forall>q\<in>set (takeWhile (\<lambda>q. q \<noteq> p) periodicities).
              gap_votes (index_of data) q < gap_votes (index_of data) p)"
proof -
  from max_key_tabulated [of periodicities "gap_votes (index_of data)"] periodicities_distinct
  obtain p where p: "p \<in> set periodicities"
    "max_key (map (\<lambda>p. (p, gap_votes (index_of data) p)) periodicities) = Inr p"
    "\<forall>q\<in>set periodicities. gap_votes (index_of data) q \<le> gap_votes (index_of data) p"
    "\<forall>q\<in>set (takeWhile (\<lambda>q. q \<noteq> p) periodicities).
              gap_votes (index_of data) q < gap_votes (index_of data) p"
    by blast
  have "infer_frequency data fail_policy = Inr (Some p)"
    using infer_frequency_sparse [OF assms(2,3)] p(2) by simp
  with p show ?thesis by blast
qed

text \<open>
  Five observations with one weekly and one monthly gap: the tie goes to weekly, which
  comes first, although its single vote is far below \<open>0.85 * 5\<close>.
\<close>

theorem infer_frequency_few_observations_witness:
  "2 \<le> len mixed_gaps \<and> len mixed_gaps < 30 \<and>
   lower ''raise'' \<in> {''ignore'', ''raise''} \<and>
   infer_frequency mixed_gaps ''raise'' = Inr (Some ''weekly'') \<and>
   \<not> 0.85 * real (len mixed_gaps) < real (gap_votes (index_of mixed_gaps) ''weekly'')"
proof -
  have l: "len mixed_gaps = 5"
    by (simp add: len_def mixed_gaps_def index_of_flat)
  have a1: "2 \<le> len mixed_gaps" and a2: "len mixed_gaps < 30" by (simp_all add: l)
  have v: "lower ''raise'' \<in> {''ignore'', ''raise''}" by (simp add: lower_raise)
  from infer_frequency_few_observations [OF a1 a2 v]
  obtain p where p: "p \<in> set periodicities"
    "infer_frequency mixed_gaps ''raise'' = Inr (Some p)"
    "\<forall>q\<in>set periodicities.
       gap_votes (index_of mixed_gaps) q \<le> gap_votes (index_of mixed_gaps) p"
    "\<forall>q\<in>set (takeWhile (\<lambda>q. q \<noteq> p) periodicities).
       gap_votes (index_of mixed_gaps) q < gap_votes (index_of mixed_gaps) p"
    by blast
  have w1: "''weekly'' \<in> set periodicities"
    by (simp add: periodicities_def)
  have w2: "\<forall>q\<in>set periodicities.
       gap_votes (index_of mixed_gaps) q \<le> gap_votes (index_of mixed_gaps) ''weekly''"
    by (simp add: periodicities_def mixed_gaps_votes)
  have w3: "\<forall>q\<in>set (takeWhile (\<lambda>q. q \<noteq> ''weekly'') periodicities).
       gap_votes (index_of mixed_gaps) q < gap_votes (index_of mixed_gaps) ''weekly''"
    by (simp add: periodicities_def mixed_gaps_votes)
  have "p = ''weekly''"
    by (rule first_of_largest_unique [OF p(1) p(3) p(4) w1 w2 w3])
  with p(2) have r: "infer_frequency mixed_gaps ''raise'' = Inr (Some ''weekly'')" by simp
  have t: "\<not> 0.85 * real (len mixed_gaps) < real (gap_votes (index_of mixed_gaps) ''weekly'')"
    by (simp add: l mixed_gaps_votes)
  show ?thesis
    by (intro conjI) (rule a1, rule a2, rule v, rule r, rule t)
qed

text \<open>
  Claim C4 says that fewer than 2 timestamps make the inference fail. The source takes
  the branch for fewer than 30 observations, which never fails: with no gap every vote
  total is 0 and the first key, \<^verbatim>\<open>daily\<close>, is the maximum. The empty Series under the
  policy \<^verbatim>\<open>raise\<close> is classified daily; no \<^verbatim>\<open>TypeError\<close> is raised.
\<close>

theorem infer_frequency_empty_returns_daily:
  "infer_frequency (Series None []) ''raise'' \<noteq> Inl TypeError \<and>
   infer_frequency (Series None []) ''raise'' = Inr (Some ''daily'')"
  by (simp add: infer_frequency_def lower_def lower_char_def len_def index_diff_def
      delta_def td_get_def value_counts_def max_key_def)

text \<open>
  Claim C4, amended. For every input with fewer than 2 timestamps and a valid failure
  policy, \<^verbatim>\<open>infer_frequency\<close> returns \<^verbatim>\<open>daily\<close>, under either policy.
\<close>

theorem infer_frequency_below_two:
  assumes "len data < 2" and "lower fail_policy \<in> {''ignore'', ''raise''}"
  shows "infer_frequency data fail_policy = Inr (Some ''daily'')"
proof -
  have "len data < 30" using assms(1) by simp
  from infer_frequency_sparse [OF this assms(2)] show ?thesis
    using assms(1) by (simp add: gap_votes_none len_def periodicities_def max_key_def)
qed

theorem infer_frequency_below_two_witness:
  "len (Series None [(0, Fin 0.01)]) < 2 \<and> lower ''ignore'' \<in> {''ignore'', ''raise''} \<and>
   infer_frequency (Series None [(0, Fin 0.01)]) ''ignore'' = Inr (Some ''daily'')"
proof -
  have l: "len (Series None [(0, Fin 0.01)]) < 2" by (simp add: len_def)
  have p: "lower ''ignore'' \<in> {''ignore'', ''raise''}" by (simp add: lower_ignore)
  from infer_frequency_below_two [OF l p] l p show ?thesis by blast
qed

subsection \<open>Claims about \<^verbatim>\<open>annualized_returns\<close>\<close>



text \<open>
  Claim C8 says that \<^verbatim>\<open>annualized_returns\<close> fails in both modes when nothing remains
  after the missing observations are dropped. In arithmetic mode nothing divides by the
  count: \<^verbatim>\<open>mean()\<close> of an empty Series is \<open>NaN\<close>, and \<open>NaN * scale\<close> is returned.
\<close>

theorem annualized_returns_arithmetic_of_nothing:
  "len (dropna all_missing) = 0 \<and>
   annualized_returns classifier all_missing (Some ''daily'') False = Inr (Scalar NaN)"
  by (simp add: annualized_returns_given [OF freq_to_scale_daily] all_missing_def len_def
      notna_def mean_list_py_Nil)

text \<open>
  Claim C8, amended. When nothing remains after the missing observations are dropped,
  \<^verbatim>\<open>annualized_returns\<close> fails in geometric mode, whatever the frequency argument, and
  with \<^verbatim>\<open>ZeroDivisionError\<close> for a recognized label; in arithmetic mode with a
  recognized label it returns \<open>NaN\<close>, for each column.
\<close>

theorem annualized_returns_of_nothing:
  assumes "len (dropna r) = 0"
  shows "(\<exists>e. annualized_returns frequency r freq True = Inl e) \<and>
         (freq_to_scale (Some f) = Inr scale \<longrightarrow>
            annualized_returns frequency r (Some f) True = Inl ZeroDivisionError \<and>
            (well_formed r \<longrightarrow>
               annualized_returns frequency r (Some f) False = Inr (reduce (\<lambda>vs. NaN) (dropna r))))"
proof (intro conjI impI)
  show "\<exists>e. annualized_returns frequency r freq True = Inl e"
    unfolding annualized_returns_def Let_def
    by (simp add: assms split: sum.splits)
next
  assume fs: "freq_to_scale (Some f) = Inr scale"
  show "annualized_returns frequency r (Some f) True = Inl ZeroDivisionError"
    by (simp add: annualized_returns_given [OF fs] assms)
next
  assume fs: "freq_to_scale (Some f) = Inr scale" and wf: "well_formed r"
  have "fl_mul (mean_list_py vs) (Fin (real scale)) = NaN"
    if "vs \<in> set (columns_of (dropna r))" for vs
    using empty_columns [OF wf assms that] by (simp add: mean_list_py_Nil)
  from reduce_cong [of "dropna r", OF this]
  show "annualized_returns frequency r (Some f) False = Inr (reduce (\<lambda>vs. NaN) (dropna r))"
    by (simp add: annualized_returns_given [OF fs])
qed

theorem annualized_returns_of_nothing_witness:
  "len (dropna (DataFrame [days 0] [(StrL ''A'', [NaN]), (StrL ''B'', [Fin 0.1])])) = 0 \<and>
   freq_to_scale (Some ''daily'') = Inr 252 \<and>
   well_formed (DataFrame [days 0] [(StrL ''A'', [NaN]), (StrL ''B'', [Fin 0.1])]) \<and>
   (\<exists>e. annualized_returns classifier (DataFrame [days 0] [(StrL ''A'', [NaN]), (StrL ''B'', [Fin 0.1])])
          None True = Inl e) \<and>
   annualized_returns classifier (DataFrame [days 0] [(StrL ''A'', [NaN]), (StrL ''B'', [Fin 0.1])])
          (Some ''daily'') True = Inl ZeroDivisionError \<and>
   annualized_returns classifier (DataFrame [days 0] [(StrL ''A'', [NaN]), (StrL ''B'', [Fin 0.1])])
          (Some ''daily'') False = Inr (PerColumn [(StrL ''A'', NaN), (StrL ''B'', NaN)])"
proof -
  define r :: tsdata where "r = DataFrame [days 0] [(StrL ''A'', [NaN]), (StrL ''B'', [Fin 0.1])]"
  have d: "dropna r = DataFrame [] [(StrL ''A'', []), (StrL ''B'', [])]"
    by (simp add: r_def complete_rows_def select_def notna_def)
  have l: "len (dropna r) = 0" by (simp add: d len_def)
  have w: "well_formed r" by (simp add: r_def)
  note t = annualized_returns_of_nothing [OF l, of classifier _ "''daily''" 252]
  from t [of None] have 1: "\<exists>e. annualized_returns classifier r None True = Inl e" by blast
  from t [of None] freq_to_scale_daily w
  have 2: "annualized_returns classifier r (Some ''daily'') True = Inl ZeroDivisionError"
    and 3: "annualized_returns classifier r (Some ''daily'') False = Inr (reduce (\<lambda>vs. NaN) (dropna r))"
    by blast+
  from 3 have 4: "annualized_returns classifier r (Some ''daily'') False =
                  Inr (PerColumn [(StrL ''A'', NaN), (StrL ''B'', NaN)])"
    by (simp add: d)
  from l freq_to_scale_daily w 1 2 4 show ?thesis unfolding r_def by blast
qed

subsection \<open>Claims about \<^verbatim>\<open>_determine_frequency\<close>\<close>

text \<open>
  Claim C5. A requested frequency is returned as it is, whatever the inference would
  give or raise. Without one: two absent inferred frequencies fail with
  \<^verbatim>\<open>TimeIndexError\<close>, one absent gives the other, two equal give that one, and two
  unequal fail with \<^verbatim>\<open>TimeIndexMismatchError\<close> carrying both.
\<close>

theorem determine_frequency_cases:
  "determine_frequency frequency ra rb (Some f) = Inr f \<and>
   (frequency ra = Inr None \<and> frequency rb = Inr None \<longrightarrow>
      determine_frequency frequency ra rb None = Inl TimeIndexError) \<and>
   (frequency ra = Inr None \<and> frequency rb = Inr (Some b) \<longrightarrow>
      determine_frequency frequency ra rb None = Inr b) \<and>
   (frequency ra = Inr (Some a) \<and> frequency rb = Inr None \<longrightarrow>
      determine_frequency frequency ra rb None = Inr a) \<and>
   (frequency ra = Inr (Some a) \<and> frequency rb = Inr (Some a) \<longrightarrow>
      determine_frequency frequency ra rb None = Inr a) \<and>
   (frequency ra = Inr (Some a) \<and> frequency rb = Inr (Some b) \<and> a \<noteq> b \<longrightarrow>
      determine_frequency frequency ra rb None = Inl (TimeIndexMismatchError a b))"
  by (simp add: determine_frequency_def)

theorem determine_frequency_cases_witness:
  "determine_frequency (\<lambda>r. Inl TypeError) ten_day_series mixed_gaps (Some ''yearly'') = Inr ''yearly'' \<and>
   determine_frequency classifier ten_day_series ten_day_series None = Inl TimeIndexError \<and>
   determine_frequency classifier ten_day_series mixed_gaps None = Inr ''weekly'' \<and>
   determine_frequency classifier mixed_gaps ten_day_series None = Inr ''weekly'' \<and>
   determine_frequency classifier mixed_gaps mixed_gaps None = Inr ''weekly'' \<and>
   determine_frequency classifier (flat_series (business_days 300)) mixed_gaps None =
     Inl (TimeIndexMismatchError ''daily'' ''weekly'')"
proof -
  have ne: "''daily'' \<noteq> ''weekly''" by simp
  note c = classifier_samples
  have 1: "determine_frequency (\<lambda>r. Inl TypeError) ten_day_series mixed_gaps (Some ''yearly'')
           = Inr ''yearly''"
    using determine_frequency_cases [of "\<lambda>r. Inl TypeError" ten_day_series mixed_gaps "''yearly''"]
    by (rule conjunct1)
  have 2: "determine_frequency classifier ten_day_series ten_day_series None = Inl TimeIndexError"
    using determine_frequency_cases [of classifier ten_day_series ten_day_series] c(1) by blast
  have 3: "determine_frequency classifier ten_day_series mixed_gaps None = Inr ''weekly''"
    using determine_frequency_cases [of classifier ten_day_series mixed_gaps _ "''weekly''"] c(1,2)
    by blast
  have 4: "determine_frequency classifier mixed_gaps ten_day_series None = Inr ''weekly''"
    using determine_frequency_cases [of classifier mixed_gaps ten_day_series _ _ "''weekly''"] c(1,2)
    by blast
  have 5: "determine_frequency classifier mixed_gaps mixed_gaps None = Inr ''weekly''"
    using determine_frequency_cases [of classifier mixed_gaps mixed_gaps _ _ "''weekly''"] c(2)
    by blast
  have 6: "determine_frequency classifier (flat_series (business_days 300)) mixed_gaps None =
     Inl (TimeIndexMismatchError ''daily'' ''weekly'')"
    using determine_frequency_cases [of classifier "flat_series (business_days 300)" mixed_gaps
        _ "''weekly''" "''daily''"] c(2,3) ne
    by blast
  show ?thesis
    by (intro conjI) (rule 1, rule 2, rule 3, rule 4, rule 5, rule 6)
qed

subsection \<open>Claims about \<^verbatim>\<open>excess_returns\<close>\<close>

text \<open>
  The vector case. For two Series, \<^verbatim>\<open>excess_returns\<close> drops the missing observations,
  keeps the first \<open>n = min(len_a, len_b)\<close> remaining observations of each, annualizes
  both geometrically whatever the flag, and returns \<open>(A - B) / (1 + B)\<close> when the flag
  \<open>geometric\<close> is set and \<open>A - B\<close> when it is not, \<open>A\<close> and \<open>B\<close> being the
  two annualized returns under the reconciled frequency.
\<close>

theorem excess_returns_formula:
  assumes "n = min (length (observed rowsa)) (length (observed rowsb))" and "0 < n"
    and "\<forall>v\<in>set (map snd rowsa @ map snd rowsb). is_return v"
    and "determine_frequency frequency
           (iloc_head (dropna (Series na rowsa)) n) (iloc_head (dropna (Series nb rowsb)) n) freq
         = Inr f"
    and "map_of scale_table f = Some scale"
    and "A = geometric_formula scale n (map real_of (take n (observed rowsa)))"
    and "B = geometric_formula scale n (map real_of (take n (observed rowsb)))"
    and "geometric \<longrightarrow> B \<noteq> - 1"
  shows "excess_returns frequency (Series na rowsa) (Series nb rowsb) freq geometric =
         Inr (Scalar (Fin (if geometric then (A - B) / (1 + B) else A - B)))"
proof -
  define ca where "ca = filter (\<lambda>(t, v). notna v) rowsa"
  define cb where "cb = filter (\<lambda>(t, v). notna v) rowsb"
  have la: "length ca = length (observed rowsa)" and lb: "length cb = length (observed rowsb)"
    by (simp_all add: ca_def cb_def observed_def)
  have n: "n = min (length ca) (length cb)" using assms(1) la lb by simp
  have lta: "length (take n ca) = n" and ltb: "length (take n cb) = n"
    using n by simp_all
  note fs = freq_to_scale_table [OF assms(5)]
  note sp = scale_table_pos [OF assms(5)]
  have ra: "\<forall>v\<in>set (map snd (take n ca)). is_return v \<and> notna v"
  proof
    fix v assume "v \<in> set (map snd (take n ca))"
    then obtain t where "(t, v) \<in> set (take n ca)" by auto
    then have "(t, v) \<in> set ca" by (rule in_set_takeD)
    then have "(t, v) \<in> set rowsa" and "notna v" by (auto simp: ca_def)
    with assms(3) show "is_return v \<and> notna v" by force
  qed
  have rb: "\<forall>v\<in>set (map snd (take n cb)). is_return v \<and> notna v"
  proof
    fix v assume "v \<in> set (map snd (take n cb))"
    then obtain t where "(t, v) \<in> set (take n cb)" by auto
    then have "(t, v) \<in> set cb" by (rule in_set_takeD)
    then have "(t, v) \<in> set rowsb" and "notna v" by (auto simp: cb_def)
    with assms(3) show "is_return v \<and> notna v" by force
  qed
  have nea: "take n ca \<noteq> []" and neb: "take n cb \<noteq> []"
    using lta ltb assms(2) by auto
  have oa: "map snd (take n ca) = take n (observed rowsa)"
    by (simp add: ca_def observed_def take_map)
  have ob: "map snd (take n cb) = take n (observed rowsb)"
    by (simp add: cb_def observed_def take_map)
  have Aeq: "annualized_returns frequency (Series na (take n ca)) (Some f) True = Inr (Scalar (Fin A))"
    using annualized_series_geometric [OF fs sp ra nea, of frequency na]
    unfolding lta oa assms(6) [symmetric] .
  have Beq: "annualized_returns frequency (Series nb (take n cb)) (Some f) True = Inr (Scalar (Fin B))"
    using annualized_series_geometric [OF fs sp rb neb, of frequency nb]
    unfolding ltb ob assms(7) [symmetric] .
  have df: "determine_frequency frequency (Series na (take n ca)) (Series nb (take n cb)) freq = Inr f"
    using assms(4) by (simp add: ca_def cb_def)
  have nz: "geometric \<Longrightarrow> 1 + B \<noteq> 0" using assms(8) by auto
  have ma: "min (length ca) n = n" and mb: "min (length cb) n = n"
    using n by simp_all
  have "excess_returns frequency (Series na rowsa) (Series nb rowsb) freq geometric =
        Inr (if geometric
             then ann_op fl_div (ann_op fl_sub (Scalar (Fin A)) (Scalar (Fin B)))
                    (ann_op fl_add (Scalar (Fin 1)) (Scalar (Fin B)))
             else ann_op fl_sub (Scalar (Fin A)) (Scalar (Fin B)))"
    unfolding excess_returns_def Let_def
    by (simp add: len_def ca_def [symmetric] cb_def [symmetric] n [symmetric] ma mb df Aeq Beq)
  then show ?thesis using nz by (simp add: fl_sub_def)
qed

text \<open>
  The first case is the example of the specification: annualized returns of 0.10 and
  0.05 (one yearly observation each) give 0.05 / 1.05. The second shows the drop and the
  truncation: of the asset's three remaining observations the first two are used.
\<close>

theorem excess_returns_formula_witness:
  "excess_returns classifier (Series None [(days 0, Fin 0.10)]) (Series None [(days 0, Fin 0.05)])
     (Some ''yearly'') True = Inr (Scalar (Fin (0.05 / 1.05))) \<and>
   min (length (observed asset_rows)) (length (observed benchmark_rows)) = 2 \<and>
   take 2 (observed asset_rows) = [Fin 0.1, Fin 0.1] \<and>
   excess_returns classifier (Series None asset_rows) (Series None benchmark_rows)
     (Some ''quarterly'') True = Inr (Scalar (Fin 0.21)) \<and>
   excess_returns classifier (Series None asset_rows) (Series None benchmark_rows)
     (Some ''quarterly'') False = Inr (Scalar (Fin 0.2541))"
proof -
  have y: "map_of scale_table ''yearly'' = Some 1" and q: "map_of scale_table ''quarterly'' = Some 4"
    by (simp_all add: scale_table_def)
  have d: "\<And>ra rb f. determine_frequency classifier ra rb (Some f) = Inr f"
    by (simp add: determine_frequency_def)
  have 1: "excess_returns classifier (Series None [(days 0, Fin 0.10)])
             (Series None [(days 0, Fin 0.05)]) (Some ''yearly'') True
           = Inr (Scalar (Fin (0.05 / 1.05)))"
    using excess_returns_formula [of 1 "[(days 0, Fin 0.10)]" "[(days 0, Fin 0.05)]" classifier
        None None "Some ''yearly''" "''yearly''" 1 "0.10" "0.05" True, OF _ _ _ d y]
    by (simp add: observed_def notna_def is_return_def geometric_formula_def)
  have oa: "observed asset_rows = [Fin 0.1, Fin 0.1, Fin 0.5]"
    and ob: "observed benchmark_rows = [Fin 0, Fin 0.1]"
    by (simp_all add: observed_def asset_rows_def benchmark_rows_def notna_def)
  have r: "\<forall>v\<in>set (map snd asset_rows @ map snd benchmark_rows). is_return v"
    by (simp add: asset_rows_def benchmark_rows_def is_return_def)
  have A: "(0.4641::real) = geometric_formula 4 2 (map real_of (take 2 (observed asset_rows)))"
    and B: "(0.21::real) = geometric_formula 4 2 (map real_of (take 2 (observed benchmark_rows)))"
    by (simp_all add: oa ob geometric_formula_def power2_eq_square)
  have n: "2 = min (length (observed asset_rows)) (length (observed benchmark_rows))"
    by (simp add: oa ob)
  note t = excess_returns_formula [of 2 asset_rows benchmark_rows classifier None None
      "Some ''quarterly''" "''quarterly''" 4 "0.4641" "0.21", OF n _ r d q A B]
  have 2: "excess_returns classifier (Series None asset_rows) (Series None benchmark_rows)
     (Some ''quarterly'') True = Inr (Scalar (Fin 0.21))"
    using t [of True] by simp
  have 3: "excess_returns classifier (Series None asset_rows) (Series None benchmark_rows)
     (Some ''quarterly'') False = Inr (Scalar (Fin 0.2541))"
    using t [of False] by simp
  have 4: "take 2 (observed asset_rows) = [Fin 0.1, Fin 0.1]" by (simp add: oa)
  show ?thesis
    by (intro conjI) (rule 1, rule n [symmetric], rule 4, rule 2, rule 3)
qed

text \<open>
  All shapes. The inputs are Series or DataFrames whose observations are returns; two
  DataFrames carry the same column labels. Both are cleaned and cut to the first
  \<open>n = min(len_a, len_b)\<close> rows, each column is annualized geometrically whatever the
  flag, and the result is the excess return of each asset column over its benchmark
  column: a vector on either side is compared with every column of the other.
\<close>

theorem excess_returns_column_for_column:
  assumes "well_formed ra" and "well_formed rb"
    and "\<forall>v\<in>set (all_values ra @ all_values rb). is_return v"
    and "same_labels ra rb"
    and "n = min (len (dropna ra)) (len (dropna rb))" and "0 < n"
    and "determine_frequency frequency (iloc_head (dropna ra) n) (iloc_head (dropna rb) n) freq = Inr f"
    and "map_of scale_table f = Some scale"
    and "A = reduce (\<lambda>vs. Fin (geometric_formula scale n (map real_of vs))) (iloc_head (dropna ra) n)"
    and "B = reduce (\<lambda>vs. Fin (geometric_formula scale n (map real_of vs))) (iloc_head (dropna rb) n)"
    and "geometric \<longrightarrow> Fin (- 1) \<notin> set (values_of B)"
  shows "excess_returns frequency ra rb freq geometric =
         Inr (column_for_column (excess geometric) A B)"
proof -
  have c: "ndim ra = ndim rb \<longrightarrow> length (columns_of ra) = length (columns_of rb)"
  proof (cases ra)
    case a: (Series na rowsa)
    then show ?thesis by (cases rb) simp_all
  next
    case a: (DataFrame idxa colsa)
    show ?thesis
    proof (cases rb)
      case (Series nb rowsb)
      with a show ?thesis by simp
    next
      case (DataFrame idxb colsb)
      with a assms(4) have "map fst colsa = map fst colsb" by simp
      then have "length colsa = length colsb" by (rule map_eq_imp_length_eq)
      with a DataFrame show ?thesis by simp
    qed
  qed
  have v: "\<forall>v\<in>set (values_of A @ values_of B). \<exists>x. v = Fin x"
    unfolding assms(9,10)
    using reduce_values [of "\<lambda>vs. geometric_formula scale n (map real_of vs)" "iloc_head (dropna ra) n"]
      reduce_values [of "\<lambda>vs. geometric_formula scale n (map real_of vs)" "iloc_head (dropna rb) n"]
    by auto
  have l: "\<forall>as bs. A = PerColumn as \<and> B = PerColumn bs \<longrightarrow> map fst as = map fst bs"
  proof (intro allI impI)
    fix as bs assume h: "A = PerColumn as \<and> B = PerColumn bs"
    show "map fst as = map fst bs"
    proof (cases ra)
      case (Series na rowsa)
      with h assms(9) show ?thesis by simp
    next
      case a: (DataFrame idxa colsa)
      show ?thesis
      proof (cases rb)
        case (Series nb rowsb)
        with h assms(10) show ?thesis by simp
      next
        case b: (DataFrame idxb colsb)
        have "map fst as = map fst colsa"
          by (rule reduce_head_labels [OF h [THEN conjunct1, unfolded assms(9)] a])
        moreover have "map fst bs = map fst colsb"
          by (rule reduce_head_labels [OF h [THEN conjunct2, unfolded assms(10)] b])
        moreover from assms(4) have "map fst colsa = map fst colsb" by (simp add: a b)
        ultimately show ?thesis by simp
      qed
    qed
  qed
  from excess_returns_annualized [OF assms(1,2,3,5,6) c assms(7,8,9,10), of geometric]
    combine_agree [OF v l assms(11)]
  show ?thesis by simp
qed

text \<open>
  The two assets against the benchmarks that carry their labels, and against a single
  benchmark: of the assets' two complete rows the first is used.
\<close>

theorem excess_returns_column_for_column_witness:
  "well_formed labelled_assets \<and> well_formed relabelled_benchmarks \<and>
   list_all is_return (all_values labelled_assets @ all_values relabelled_benchmarks) \<and>
   same_labels labelled_assets relabelled_benchmarks \<and>
   min (len (dropna labelled_assets)) (len (dropna relabelled_benchmarks)) = 1 \<and>
   excess_returns classifier labelled_assets relabelled_benchmarks (Some ''yearly'') True
     = Inr (PerColumn [(StrL ''A'', Fin (0.05 / 1.05)), (StrL ''B'', Fin 0.05)]) \<and>
   excess_returns classifier labelled_assets (Series None [(days 0, Fin 0.05)]) (Some ''yearly'') False
     = Inr (PerColumn [(StrL ''A'', Fin 0.05), (StrL ''B'', Fin 0.21)])"
proof -
  have wa: "well_formed labelled_assets" and wb: "well_formed relabelled_benchmarks"
    and ws: "well_formed (Series None [(days 0, Fin 0.05)])"
    by (simp_all add: labelled_assets_def relabelled_benchmarks_def)
  have r: "list_all is_return (all_values labelled_assets @ all_values relabelled_benchmarks)"
    by (simp add: labelled_assets_def relabelled_benchmarks_def is_return_def)
  then have r': "\<forall>v\<in>set (all_values labelled_assets @ all_values relabelled_benchmarks). is_return v"
    by (simp only: list_all_iff)
  have rs: "\<forall>v\<in>set (all_values labelled_assets @ all_values (Series None [(days 0, Fin 0.05)])).
              is_return v"
    by (simp add: labelled_assets_def is_return_def)
  have sl: "same_labels labelled_assets relabelled_benchmarks"
    and ss: "same_labels labelled_assets (Series None [(days 0, Fin 0.05)])"
    by (simp_all add: labelled_assets_def relabelled_benchmarks_def)
  have da: "dropna labelled_assets
            = DataFrame [days 0, days 730] [(StrL ''A'', [Fin 0.10, Fin 0.5]), (StrL ''B'', [Fin 0.26, Fin 0.5])]"
    and db: "dropna relabelled_benchmarks = relabelled_benchmarks"
    by (simp_all add: labelled_assets_def relabelled_benchmarks_def complete_rows_def select_def
        notna_def)
  have ds: "dropna (Series None [(days 0, Fin 0.05)]) = Series None [(days 0, Fin 0.05)]"
    by (simp add: notna_def)
  have la: "len (dropna labelled_assets) = 2"
    unfolding da by (simp add: len_def)
  have lb: "len (dropna relabelled_benchmarks) = 1"
    unfolding db by (simp add: len_def relabelled_benchmarks_def)
  have ls: "len (dropna (Series None [(days 0, Fin 0.05)])) = 1"
    unfolding ds by (simp add: len_def)
  have n: "1 = min (len (dropna labelled_assets)) (len (dropna relabelled_benchmarks))"
    and ns: "1 = min (len (dropna labelled_assets)) (len (dropna (Series None [(days 0, Fin 0.05)])))"
    unfolding la lb ls by simp_all
  have d: "\<And>ra rb f. determine_frequency classifier ra rb (Some f) = Inr f"
    by (simp add: determine_frequency_def)
  have y: "map_of scale_table ''yearly'' = Some 1"
    by (simp add: scale_table_def)
  have A: "PerColumn [(StrL ''A'', Fin 0.10), (StrL ''B'', Fin 0.26)]
           = reduce (\<lambda>vs. Fin (geometric_formula 1 1 (map real_of vs)))
               (iloc_head (dropna labelled_assets) 1)"
    unfolding da by (simp add: geometric_formula_def powr_one)
  have B: "PerColumn [(StrL ''A'', Fin 0.05), (StrL ''B'', Fin 0.20)]
           = reduce (\<lambda>vs. Fin (geometric_formula 1 1 (map real_of vs)))
               (iloc_head (dropna relabelled_benchmarks) 1)"
    unfolding db by (simp add: relabelled_benchmarks_def geometric_formula_def powr_one)
  have S: "Scalar (Fin 0.05)
           = reduce (\<lambda>vs. Fin (geometric_formula 1 1 (map real_of vs)))
               (iloc_head (dropna (Series None [(days 0, Fin 0.05)])) 1)"
    unfolding ds by (simp add: geometric_formula_def powr_one)
  have 1: "excess_returns classifier labelled_assets relabelled_benchmarks (Some ''yearly'') True
     = Inr (PerColumn [(StrL ''A'', Fin (0.05 / 1.05)), (StrL ''B'', Fin 0.05)])"
    using excess_returns_column_for_column [OF wa wb r' sl n _ d y A B, of True]
    by (simp add: excess_def)
  have 2: "excess_returns classifier labelled_assets (Series None [(days 0, Fin 0.05)])
             (Some ''yearly'') False
     = Inr (PerColumn [(StrL ''A'', Fin 0.05), (StrL ''B'', Fin 0.21)])"
    using excess_returns_column_for_column [OF wa ws rs ss ns _ d y A S, of False]
    by (simp add: excess_def)
  show ?thesis
    by (intro conjI) (rule wa, rule wb, rule r, rule sl, rule n [symmetric], rule 1, rule 2)
qed

text \<open>
  Claim C6 says that \<^verbatim>\<open>excess_returns\<close> returns \<open>(Ra - Rb) / (1 + Rb)\<close>, and the
  docstring that a matrix of benchmarks is compared with the assets column for column.
  The two annualized results are Series indexed by the column labels, and their
  difference and quotient are taken label by label: the assets \<^verbatim>\<open>A\<close> and \<^verbatim>\<open>B\<close>
  against the benchmarks \<^verbatim>\<open>X\<close> and \<^verbatim>\<open>Y\<close> give a result with the four labels and no
  number under any of them, with either formula. The same benchmark returns under the
  labels \<^verbatim>\<open>A\<close> and \<^verbatim>\<open>B\<close> give the two excess returns, \<open>0.05 / 1.05\<close> and
  \<open>0.06 / 1.20\<close>.
\<close>

theorem excess_returns_unaligned_labels:
  "excess_returns classifier labelled_assets labelled_benchmarks (Some ''yearly'') True
     = Inr (PerColumn [(StrL ''A'', NaN), (StrL ''B'', NaN), (StrL ''X'', NaN), (StrL ''Y'', NaN)]) \<and>
   excess_returns classifier labelled_assets labelled_benchmarks (Some ''yearly'') False
     = Inr (PerColumn [(StrL ''A'', NaN), (StrL ''B'', NaN), (StrL ''X'', NaN), (StrL ''Y'', NaN)]) \<and>
   excess_returns classifier labelled_assets relabelled_benchmarks (Some ''yearly'') True
     = Inr (PerColumn [(StrL ''A'', Fin (0.05 / 1.05)), (StrL ''B'', Fin 0.05)])"
proof -
  define first_row :: tsdata where
    "first_row = DataFrame [days 0] [(StrL ''A'', [Fin 0.10]), (StrL ''B'', [Fin 0.26])]"
  have j: "join_labels [StrL ''A'', StrL ''B''] [StrL ''X'', StrL ''Y'']
           = [StrL ''A'', StrL ''B'', StrL ''X'', StrL ''Y'']"
    by code_simp
  have j': "join_labels [StrL ''A'', StrL ''B'', StrL ''X'', StrL ''Y''] [StrL ''X'', StrL ''Y'']
           = [StrL ''A'', StrL ''B'', StrL ''X'', StrL ''Y'']"
    by code_simp
  have a: "annualized_returns classifier first_row (Some ''yearly'') True
           = Inr (PerColumn [(StrL ''A'', Fin 0.10), (StrL ''B'', Fin 0.26)])"
    by (simp add: annualized_returns_given [OF freq_to_scale_yearly] first_row_def
        complete_rows_def select_def notna_def len_def prod_list_py_def fl_pow_def fl_sub_def)
  have b: "annualized_returns classifier labelled_benchmarks (Some ''yearly'') True
           = Inr (PerColumn [(StrL ''X'', Fin 0.05), (StrL ''Y'', Fin 0.20)])"
    by (simp add: annualized_returns_given [OF freq_to_scale_yearly] labelled_benchmarks_def
        complete_rows_def select_def notna_def len_def prod_list_py_def fl_pow_def fl_sub_def)
  have b': "annualized_returns classifier relabelled_benchmarks (Some ''yearly'') True
           = Inr (PerColumn [(StrL ''A'', Fin 0.05), (StrL ''B'', Fin 0.20)])"
    by (simp add: annualized_returns_given [OF freq_to_scale_yearly] relabelled_benchmarks_def
        complete_rows_def select_def notna_def len_def prod_list_py_def fl_pow_def fl_sub_def)
  have la: "len (dropna labelled_assets) = 2" and lb: "len (dropna labelled_benchmarks) = 1"
    and lb': "len (dropna relabelled_benchmarks) = 1"
    by (simp_all add: labelled_assets_def labelled_benchmarks_def relabelled_benchmarks_def
        complete_rows_def select_def notna_def len_def)
  have m: "min (2::nat) 1 = 1" by simp
  have da: "iloc_head (dropna labelled_assets) 1 = first_row"
    and db: "iloc_head (dropna labelled_benchmarks) 1 = labelled_benchmarks"
    and db': "iloc_head (dropna relabelled_benchmarks) 1 = relabelled_benchmarks"
    by (simp_all add: labelled_assets_def labelled_benchmarks_def relabelled_benchmarks_def
        first_row_def complete_rows_def select_def notna_def)
  have sa: "shape first_row = [1, 2]" and sb: "shape labelled_benchmarks = [1, 2]"
    and sb': "shape relabelled_benchmarks = [1, 2]"
    by (simp_all add: first_row_def labelled_benchmarks_def relabelled_benchmarks_def)
  have 1: "excess_returns classifier labelled_assets labelled_benchmarks (Some ''yearly'') True
     = Inr (PerColumn [(StrL ''A'', NaN), (StrL ''B'', NaN), (StrL ''X'', NaN), (StrL ''Y'', NaN)])"
    unfolding excess_returns_def Let_def la lb m da db
    by (simp add: sa sb determine_frequency_def a b j j' value_at_def fl_sub_def)
  have 2: "excess_returns classifier labelled_assets labelled_benchmarks (Some ''yearly'') False
     = Inr (PerColumn [(StrL ''A'', NaN), (StrL ''B'', NaN), (StrL ''X'', NaN), (StrL ''Y'', NaN)])"
    unfolding excess_returns_def Let_def la lb m da db
    by (simp add: sa sb determine_frequency_def a b j value_at_def fl_sub_def)
  have 3: "excess_returns classifier labelled_assets relabelled_benchmarks (Some ''yearly'') True
     = Inr (PerColumn [(StrL ''A'', Fin (0.05 / 1.05)), (StrL ''B'', Fin 0.05)])"
    unfolding excess_returns_def Let_def la lb' m da db'
    by (simp add: sa sb' determine_frequency_def a b' fl_sub_def)
  show ?thesis
    by (intro conjI) (rule 1, rule 2, rule 3)
qed

subsection \<open>Claims about \<^verbatim>\<open>active_premium\<close> and \<^verbatim>\<open>relative_returns\<close>\<close>

text \<open>
  Claim C9 says that both comparison operations return a bare Series for one asset
  column against one benchmark column. \<^verbatim>\<open>active_premium\<close> has no such step: it
  returns the frame \<^verbatim>\<open>res\<close> as it is, here with one row and one column.
\<close>

theorem active_premium_single_is_frame:
  "active_premium classifier unnamed_asset unnamed_benchmark (Some ''yearly'') True prefixes_default
   = Inr (DataFrame [StrL ''BMK''] [(StrL ''AST'', [Fin 0.05])])"
  unfolding active_premium_def unnamed_asset_def unnamed_benchmark_def prefixes_default_def
  by (simp add: determine_frequency_def name_or_def column_name_def annualize_one_yearly
      fl_sub_def value_at_def)

text \<open>
  Claim C9, amended. For one asset column against one benchmark column,
  \<^verbatim>\<open>relative_returns\<close> returns a bare, named Series; \<^verbatim>\<open>active_premium\<close>, when it
  returns, returns a DataFrame with one row and one column.
\<close>

theorem single_pair_results:
  assumes "single_column ra" and "single_column rb"
  shows "(\<exists>nm rows. relative_returns ra rb prefixes = Series (Some nm) rows) \<and>
         (\<forall>res. active_premium frequency ra rb freq geometric prefixes = Inr res \<longrightarrow>
                (\<exists>r c v. res = DataFrame [r] [(c, [v])]))"
proof -
  from single_column_frame [OF assms(1)] obtain idxa ca va
    where a: "to_frame ra (fst prefixes) = DataFrame idxa [(ca, va)]" by blast
  from single_column_frame [OF assms(2)] obtain idxb cb vb
    where b: "to_frame rb (snd prefixes) = DataFrame idxb [(cb, vb)]" by blast
  from relative_returns_single [OF a b] active_premium_single [OF a b]
  show ?thesis by blast
qed

theorem single_pair_results_witness:
  "single_column first_of_two \<and> single_column spx \<and>
   (\<exists>nm rows. relative_returns first_of_two spx prefixes_default = Series (Some nm) rows) \<and>
   active_premium classifier first_of_two spx (Some ''yearly'') True prefixes_default
     = Inr (DataFrame [StrL ''SPX''] [(StrL ''AST_0'', [Fin 0.05])]) \<and>
   (\<exists>r c v. DataFrame [StrL ''SPX''] [(StrL ''AST_0'', [Fin 0.05])] = DataFrame [r] [(c, [v])])"
proof -
  have a: "single_column first_of_two" and b: "single_column spx"
    by (simp_all add: first_of_two_def spx_def)
  have e: "active_premium classifier first_of_two spx (Some ''yearly'') True prefixes_default
     = Inr (DataFrame [StrL ''SPX''] [(StrL ''AST_0'', [Fin 0.05])])"
    unfolding active_premium_def first_of_two_def spx_def prefixes_default_def
    by (simp add: determine_frequency_def name_or_def column_name_def annualize_one_yearly
        fl_sub_def value_at_def show_int_digits)
  note t = single_pair_results [OF a b, of prefixes_default classifier "Some ''yearly''" True]
  from t have 1: "\<exists>nm rows. relative_returns first_of_two spx prefixes_default = Series (Some nm) rows"
    by (rule conjunct1)
  from t e have 2: "\<exists>r c v. DataFrame [StrL ''SPX''] [(StrL ''AST_0'', [Fin 0.05])]
                     = (DataFrame [r] [(c, [v])] :: label pandas)"
    by blast
  show ?thesis
    by (intro conjI) (rule a, rule b, rule 1, rule e, rule 2)
qed

text \<open>
  Claim C10 says that every unnamed or integer-named column is renamed to the prefix
  followed by its position. An unnamed Series is named by the bare prefix, and an
  integer label is used as it is, whatever the column's position: the unnamed asset
  against the benchmark column labelled 5 (at position 0) is the pair \<^verbatim>\<open>AST/BMK_5\<close>.
\<close>

theorem unnamed_and_labelled_columns:
  "labels_of (relative_returns unnamed_asset fifth_benchmark prefixes_default)
     = [StrL ''AST/BMK_5''] \<and>
   StrL ''AST/BMK_5'' \<noteq> StrL ''AST_0/BMK_0''"
proof -
  have a: "to_frame unnamed_asset (fst prefixes_default)
           = DataFrame [days 0] [(StrL ''AST'', [Fin 0.1])]"
    by (simp add: unnamed_asset_def prefixes_default_def name_or_def)
  have b: "to_frame fifth_benchmark (snd prefixes_default)
           = DataFrame [days 0] [(IntL 5, [Fin 0.05])]"
    by (simp add: fifth_benchmark_def)
  have n: "pair_names prefixes_default [StrL ''AST''] [IntL 5] = [StrL ''AST/BMK_5'']"
    by (simp add: pair_names_def pair_name_def column_name_def label_str_def
        prefixes_default_def show_int_digits)
  from relative_returns_labels [OF a b] n
  have "labels_of (relative_returns unnamed_asset fifth_benchmark prefixes_default)
        = [StrL ''AST/BMK_5'']"
    by simp
  then show ?thesis by simp
qed

text \<open>
  Claim C10, amended. The inputs are DataFrames, or Series whose name is not one that
  Python counts as false. In \<^verbatim>\<open>active_premium\<close> and \<^verbatim>\<open>relative_returns\<close> a
  column labelled by an integer, and a Series named by one, appears under the prefix of
  its side, an underscore and that integer (the position only under default labels); a
  string name is kept; a Series without a name appears under the bare prefix.
  \<^verbatim>\<open>relative_returns\<close> names the pair columns \<^verbatim>\<open>{asset}/{benchmark}\<close>, asset by
  asset, when these names differ from each other; \<^verbatim>\<open>active_premium\<close>, when it returns
  for at least one asset column and names that differ on each side, has the asset names
  as column labels and the benchmark names as row labels.
\<close>

theorem synthesized_names:
  assumes "\<not> falsy_name ra" and "\<not> falsy_name rb"
    and "nas = output_names (fst prefixes) ra"
    and "nbs = output_names (snd prefixes) rb"
  shows "(distinct (joined_names nas nbs) \<longrightarrow>
            labels_of (relative_returns ra rb prefixes) = joined_names nas nbs) \<and>
         (\<forall>res. active_premium frequency ra rb freq geometric prefixes = Inr res \<and> nas \<noteq> [] \<and>
                distinct nas \<and> distinct nbs \<longrightarrow>
                labels_of res = nas \<and> index_of res = nbs)"
proof (intro conjI impI allI)
  define las where "las = labels_of (to_frame ra (fst prefixes))"
  define lbs where "lbs = labels_of (to_frame rb (snd prefixes))"
  have na: "nas = map (column_name (fst prefixes)) las"
    unfolding las_def assms(3) by (rule output_names_to_frame [OF assms(1), symmetric])
  have nb: "nbs = map (column_name (snd prefixes)) lbs"
    unfolding lbs_def assms(4) by (rule output_names_to_frame [OF assms(2), symmetric])
  have j: "joined_names nas nbs = pair_names prefixes las lbs"
    unfolding na nb by (rule pair_names_joined [symmetric])
  {
    assume d: "distinct (joined_names nas nbs)"
    from to_frame_is_frame obtain idxa colsa
      where a: "to_frame ra (fst prefixes) = DataFrame idxa colsa" by blast
    from to_frame_is_frame obtain idxb colsb
      where b: "to_frame rb (snd prefixes) = DataFrame idxb colsb" by blast
    have la: "las = map fst colsa" and lb: "lbs = map fst colsb"
      by (simp_all add: las_def lbs_def a b)
    from relative_returns_labels [OF a b] d
    show "labels_of (relative_returns ra rb prefixes) = joined_names nas nbs"
      by (simp add: j la lb)
  }
  fix res
  assume h: "active_premium frequency ra rb freq geometric prefixes = Inr res \<and> nas \<noteq> [] \<and>
             distinct nas \<and> distinct nbs"
  then have ne: "las \<noteq> []" by (auto simp: na)
  from h have r: "labels_of res = nas \<and> index_of res = nbs"
    unfolding na nb
    using active_premium_labels [OF _ las_def lbs_def ne] by blast
  from r show "labels_of res = nas" by (rule conjunct1)
  from r show "index_of res = nbs" by (rule conjunct2)
qed

text \<open>
  A frame whose first column has the default label 0 against a named benchmark, and an
  unnamed asset against a benchmark named 5.
\<close>

theorem synthesized_names_witness:
  "\<not> falsy_name two_columns \<and> \<not> falsy_name spx \<and>
   labels_of (relative_returns two_columns spx prefixes_default)
     = [StrL ''AST_0/SPX'', StrL ''GOLD/SPX''] \<and>
   (\<exists>res. active_premium classifier two_columns spx (Some ''yearly'') True prefixes_default = Inr res \<and>
          labels_of res = [StrL ''AST_0'', StrL ''GOLD''] \<and> index_of res = [StrL ''SPX'']) \<and>
   \<not> falsy_name unnamed_asset \<and> \<not> falsy_name numbered_benchmark \<and>
   labels_of (relative_returns unnamed_asset numbered_benchmark prefixes_default)
     = [StrL ''AST/BMK_5'']"
proof -
  have f: "\<not> falsy_name two_columns" "\<not> falsy_name spx"
    "\<not> falsy_name unnamed_asset" "\<not> falsy_name numbered_benchmark"
    by (simp_all add: two_columns_def spx_def unnamed_asset_def numbered_benchmark_def)
  have na: "[StrL ''AST_0'', StrL ''GOLD''] = output_names (fst prefixes_default) two_columns"
    by (simp add: two_columns_def synthesized_def prefixes_default_def show_int_digits)
  have nb: "[StrL ''SPX''] = output_names (snd prefixes_default) spx"
    by (simp add: spx_def synthesized_def)
  have n: "joined_names [StrL ''AST_0'', StrL ''GOLD''] [StrL ''SPX'']
           = [StrL ''AST_0/SPX'', StrL ''GOLD/SPX'']"
    by (simp add: joined_names_def label_str_def)
  have e: "active_premium classifier two_columns spx (Some ''yearly'') True prefixes_default
     = Inr (DataFrame [StrL ''SPX''] [(StrL ''AST_0'', [Fin 0.05]), (StrL ''GOLD'', [Fin 0.15])])"
    unfolding active_premium_def two_columns_def spx_def prefixes_default_def
    by (simp add: determine_frequency_def name_or_def column_name_def annualize_one_yearly
        fl_sub_def value_at_def show_int_digits)
  note t = synthesized_names [OF f(1,2) na nb, of classifier "Some ''yearly''" True]
  from t have "distinct (joined_names [StrL ''AST_0'', StrL ''GOLD''] [StrL ''SPX'']) \<longrightarrow>
     labels_of (relative_returns two_columns spx prefixes_default)
       = joined_names [StrL ''AST_0'', StrL ''GOLD''] [StrL ''SPX'']"
    by (rule conjunct1)
  then have 1: "labels_of (relative_returns two_columns spx prefixes_default)
     = [StrL ''AST_0/SPX'', StrL ''GOLD/SPX'']"
    by (simp add: n)
  from t have "\<forall>res. active_premium classifier two_columns spx (Some ''yearly'') True
        prefixes_default = Inr res \<and> [StrL ''AST_0'', StrL ''GOLD''] \<noteq> [] \<and>
      distinct [StrL ''AST_0'', StrL ''GOLD''] \<and> distinct [StrL ''SPX''] \<longrightarrow>
      labels_of res = [StrL ''AST_0'', StrL ''GOLD''] \<and> index_of res = [StrL ''SPX'']"
    by (rule conjunct2)
  with e have 2: "\<exists>res. active_premium classifier two_columns spx (Some ''yearly'') True
        prefixes_default = Inr res \<and>
      labels_of res = [StrL ''AST_0'', StrL ''GOLD''] \<and> index_of res = [StrL ''SPX'']"
    by simp
  have ma: "[StrL ''AST''] = output_names (fst prefixes_default) unnamed_asset"
    by (simp add: unnamed_asset_def prefixes_default_def)
  have mb: "[StrL ''BMK_5''] = output_names (snd prefixes_default) numbered_benchmark"
    by (simp add: numbered_benchmark_def synthesized_def prefixes_default_def show_int_digits)
  have m: "joined_names [StrL ''AST''] [StrL ''BMK_5''] = [StrL ''AST/BMK_5'']"
    by (simp add: joined_names_def label_str_def)
  note u = synthesized_names [OF f(3,4) ma mb, of classifier None True]
  from u have "distinct (joined_names [StrL ''AST''] [StrL ''BMK_5'']) \<longrightarrow>
     labels_of (relative_returns unnamed_asset numbered_benchmark prefixes_default)
       = joined_names [StrL ''AST''] [StrL ''BMK_5'']"
    by (rule conjunct1)
  then have 3: "labels_of (relative_returns unnamed_asset numbered_benchmark prefixes_default)
     = [StrL ''AST/BMK_5'']"
    by (simp add: m)
  show ?thesis
    by (intro conjI) (rule f(1), rule f(2), rule 1, rule 2, rule f(3), rule f(4), rule 3)
qed

subsection \<open>Claims about the values of \<^verbatim>\<open>relative_returns\<close>\<close>

text \<open>
  Claim C7. The indexes of the two inputs are ascending and hold each timestamp once.
  For the asset column \<open>i\<close> and the benchmark column \<open>j\<close>, the timestamps that remain
  after the outer join and the drop are those at which both columns have an
  observation, in ascending order; the pair's column of the
  result holds at each of them the asset's compounded growth up to it divided by the
  benchmark's, and nothing elsewhere. For a single pair the result is that ratio series
  itself. Over real observations with a non-zero benchmark growth the ratio is
  \<open>prod(1 + ra) / prod(1 + rb)\<close>, and it is 1 at the first timestamp when both columns
  start with a return of 0.
\<close>

theorem relative_returns_pairwise:
  assumes "to_frame ra (fst prefixes) = DataFrame idxa colsa"
    and "to_frame rb (snd prefixes) = DataFrame idxb colsb"
    and "distinct idxa" and "distinct idxb"
    and "sorted idxa" and "sorted idxb"
    and "i < length colsa" and "j < length colsb"
    and "rowsa = zip idxa (snd (colsa ! i))" and "rowsb = zip idxb (snd (colsb ! j))"
    and "ts = common_times rowsa rowsb"
  shows "set ts = {t. notna (value_at rowsa t) \<and> notna (value_at rowsb t)} \<and> sorted ts \<and> distinct ts \<and>
    (\<forall>t. value_at (column_rows (relative_returns ra rb prefixes) (i * length colsb + j)) t
          = value_at (relative_spec rowsa rowsb) t) \<and>
    (length colsa = 1 \<and> length colsb = 1 \<longrightarrow>
       relative_returns ra rb prefixes =
         Series (Some (pair_name (column_name (fst prefixes) (fst (colsa ! i)))
                                 (column_name (snd prefixes) (fst (colsb ! j)))))
           (relative_spec rowsa rowsb)) \<and>
    map fst (relative_spec rowsa rowsb) = ts \<and>
    (\<forall>k<length ts.
       (\<forall>t\<in>set (take (Suc k) ts). \<exists>x y. value_at rowsa t = Fin x \<and> value_at rowsb t = Fin y) \<and>
       (\<Prod>t\<leftarrow>take (Suc k) ts. 1 + real_of (value_at rowsb t)) \<noteq> 0 \<longrightarrow>
       snd (relative_spec rowsa rowsb ! k) =
         Fin ((\<Prod>t\<leftarrow>take (Suc k) ts. 1 + real_of (value_at rowsa t)) /
              (\<Prod>t\<leftarrow>take (Suc k) ts. 1 + real_of (value_at rowsb t)))) \<and>
    (ts \<noteq> [] \<and> value_at rowsa (hd ts) = Fin 0 \<and> value_at rowsb (hd ts) = Fin 0 \<longrightarrow>
       relative_spec rowsa rowsb ! 0 = (hd ts, Fin 1))"
proof (intro conjI allI impI)
  show "set ts = {t. notna (value_at rowsa t) \<and> notna (value_at rowsb t)}"
    unfolding assms(11) by (rule common_times_set)
  show "sorted ts" and "distinct ts"
    unfolding assms(11) using common_times_sorted by blast+
  show "map fst (relative_spec rowsa rowsb) = ts"
    unfolding assms(11) by (rule relative_spec_times)
next
  fix t
  show "value_at (column_rows (relative_returns ra rb prefixes) (i * length colsb + j)) t
        = value_at (relative_spec rowsa rowsb) t"
    unfolding assms(9,10)
    by (rule relative_returns_columns [OF assms(1,2,7,8,5,3,6,4)])
next
  assume one: "length colsa = 1 \<and> length colsb = 1"
  then obtain ca va cb vb where a: "colsa = [(ca, va)]" and b: "colsb = [(cb, vb)]"
    by (cases colsa; cases colsb) auto
  from assms(7,8) one have ij: "i = 0" "j = 0" by simp_all
  from relative_returns_one_pair [OF assms(1) [unfolded a] assms(2) [unfolded b] assms(5,3,6,4)]
  show "relative_returns ra rb prefixes =
         Series (Some (pair_name (column_name (fst prefixes) (fst (colsa ! i)))
                                 (column_name (snd prefixes) (fst (colsb ! j)))))
           (relative_spec rowsa rowsb)"
    by (simp add: assms(9,10) a b ij)
next
  fix k
  assume k: "k < length ts"
    and h: "(\<forall>t\<in>set (take (Suc k) ts). \<exists>x y. value_at rowsa t = Fin x \<and> value_at rowsb t = Fin y) \<and>
       (\<Prod>t\<leftarrow>take (Suc k) ts. 1 + real_of (value_at rowsb t)) \<noteq> 0"
  from h have fa: "\<forall>t\<in>set (take (Suc k) ts). \<exists>x. value_at rowsa t = Fin x"
    and fb: "\<forall>t\<in>set (take (Suc k) ts). \<exists>x. value_at rowsb t = Fin x"
    by blast+
  from k have "snd (relative_spec rowsa rowsb ! k) =
     fl_div (growth rowsa (take (Suc k) ts)) (growth rowsb (take (Suc k) ts))"
    by (simp add: relative_spec_nth assms(11))
  with h show "snd (relative_spec rowsa rowsb ! k) =
         Fin ((\<Prod>t\<leftarrow>take (Suc k) ts. 1 + real_of (value_at rowsa t)) /
              (\<Prod>t\<leftarrow>take (Suc k) ts. 1 + real_of (value_at rowsb t)))"
    by (simp add: growth_real [OF fa] growth_real [OF fb])
next
  assume "ts \<noteq> [] \<and> value_at rowsa (hd ts) = Fin 0 \<and> value_at rowsb (hd ts) = Fin 0"
  then show "relative_spec rowsa rowsb ! 0 = (hd ts, Fin 1)"
    unfolding assms(11) by (intro first_ratio_one) simp_all
qed

text \<open>
  Two Series over the same two days, both starting with a return of 0: the ratio starts
  at 1. The second asset of the frame against the sparse benchmark: the pair's column
  (at position 1) has the ratio on the third day, which both observe, and nothing on the
  second day, which the benchmark does not observe.
\<close>

theorem relative_returns_pairwise_witness:
  "relative_returns flat_start_asset flat_start_benchmark prefixes_default
     = Series (Some (StrL ''AST/BMK'')) [(days 0, Fin 1), (days 1, Fin (1.1 / 1.21))] \<and>
   value_at (column_rows (relative_returns two_assets sparse_benchmark prefixes_default) 1) (days 2)
     = Fin (12 / 11) \<and>
   value_at (column_rows (relative_returns two_assets sparse_benchmark prefixes_default) 1) (days 1)
     = NaN"
proof -
  have d2: "distinct [days 0, days 1]" and d3: "distinct [days 0, days 1, days 2]"
    and d3': "distinct [days 0, days 2, days 3]"
    by (simp_all add: days_inj)
  have s2: "sorted [days 0, days 1]" and s3: "sorted [days 0, days 1, days 2]"
    and s3': "sorted [days 0, days 2, days 3]"
    by (simp_all add: days_le)
  have fa: "to_frame flat_start_asset (fst prefixes_default)
            = DataFrame [days 0, days 1] [(StrL ''AST'', [Fin 0, Fin 0.1])]"
    by (simp add: flat_start_asset_def prefixes_default_def name_or_def)
  have fb: "to_frame flat_start_benchmark (snd prefixes_default)
            = DataFrame [days 0, days 1] [(StrL ''BMK'', [Fin 0, Fin 0.21])]"
    by (simp add: flat_start_benchmark_def prefixes_default_def name_or_def)
  have n: "pair_name (column_name (fst prefixes_default) (StrL ''AST''))
             (column_name (snd prefixes_default) (StrL ''BMK'')) = StrL ''AST/BMK''"
    by (simp add: pair_name_def column_name_def label_str_def)
  note t1 = relative_returns_pairwise [OF fa fb d2 d2 s2 s2, of 0 0
      "zip [days 0, days 1] [Fin 0, Fin 0.1]" "zip [days 0, days 1] [Fin 0, Fin 0.21]"
      "common_times (zip [days 0, days 1] [Fin 0, Fin 0.1]) (zip [days 0, days 1] [Fin 0, Fin 0.21])"]
  have 1: "relative_returns flat_start_asset flat_start_benchmark prefixes_default
     = Series (Some (StrL ''AST/BMK'')) [(days 0, Fin 1), (days 1, Fin (1.1 / 1.21))]"
    using t1 [THEN conjunct2, THEN conjunct2, THEN conjunct2, THEN conjunct2, THEN conjunct1,
        unfolded flat_start_spec]
    by (simp add: n)
  have ta: "to_frame two_assets (fst prefixes_default)
            = DataFrame [days 0, days 1, days 2]
                [(StrL ''A'', [Fin 0.1, NaN, Fin 0.1]), (IntL 1, [Fin 0.2, Fin 0.5, Fin 0])]"
    by (simp add: two_assets_def)
  have tb: "to_frame sparse_benchmark (snd prefixes_default)
            = DataFrame [days 0, days 2, days 3] [(StrL ''BMK'', [Fin 0, Fin 0.1, Fin 0.2])]"
    by (simp add: sparse_benchmark_def prefixes_default_def name_or_def)
  note t2 = relative_returns_pairwise [OF ta tb d3 d3' s3 s3', of 1 0
      "zip [days 0, days 1, days 2] [Fin 0.2, Fin 0.5, Fin 0]"
      "zip [days 0, days 2, days 3] [Fin 0, Fin 0.1, Fin 0.2]"
      "common_times (zip [days 0, days 1, days 2] [Fin 0.2, Fin 0.5, Fin 0])
                    (zip [days 0, days 2, days 3] [Fin 0, Fin 0.1, Fin 0.2])"]
  have v: "value_at (column_rows (relative_returns two_assets sparse_benchmark prefixes_default) 1) t
           = value_at [(days 0, Fin 1.2), (days 2, Fin (12 / 11))] t" for t
    using t2 [THEN conjunct2, THEN conjunct2, THEN conjunct2, THEN conjunct1,
        unfolded sparse_spec]
    by simp
  have 2: "value_at (column_rows (relative_returns two_assets sparse_benchmark prefixes_default) 1)
             (days 2) = Fin (12 / 11)"
    unfolding v by (simp add: value_at_def days_inj)
  have 3: "value_at (column_rows (relative_returns two_assets sparse_benchmark prefixes_default) 1)
             (days 1) = NaN"
    unfolding v by (simp add: value_at_def days_inj)
  show ?thesis
    by (intro conjI) (rule 1, rule 2, rule 3)
qed

end
